(* ===== verification/Based_Prelude.thy ===== *)
theory Based_Prelude
  imports Main "HOL-Library.Word" "HOL-Library.AList"
begin

text \<open>
  The shared layer of the development: the machine types the Go sources use, Go maps, results of
  fallible functions, byte-order codecs of \<^verbatim>\<open>encoding/binary\<close>, checked slices, and the two
  generic interfaces (a key-value store, a state machine with an invariant) that the components
  interpret on their own operations.
\<close>

unbundle bit_operations_syntax

section \<open>Machine types\<close>

type_synonym byte = "8 word"
type_synonym u8 = "8 word"
type_synonym u16 = "16 word"
type_synonym u32 = "32 word"
type_synonym u64 = "64 word"
type_synonym bytes = "byte list"
type_synonym Hash = "byte list"
type_synonym Address = "byte list"

named_theorems gomap_simps "lookup, insertion and deletion in Go maps"
named_theorems codec_simps "byte-order codecs and checked slices"
named_theorems result_simps "sequencing of fallible calls"

section \<open>Results of fallible functions\<close>

text \<open>A Go function returning \<^verbatim>\<open>(T, error)\<close> is a function into \<open>'e + 'a\<close>; \<open>Inl\<close> is the error.\<close>

fun bind_res :: "'e + 'a \<Rightarrow> ('a \<Rightarrow> 'e + 'b) \<Rightarrow> 'e + 'b" where
  "bind_res (Inl e) f = Inl e"
| "bind_res (Inr x) f = f x"

lemma bind_res_Inr_iff [result_simps]:
  "bind_res r f = Inr y \<longleftrightarrow> (\<exists>x. r = Inr x \<and> f x = Inr y)"
  by (cases r) auto

lemma bind_res_Inl_iff [result_simps]:
  "bind_res r f = Inl e \<longleftrightarrow> r = Inl e \<or> (\<exists>x. r = Inr x \<and> f x = Inl e)"
  by (cases r) auto

fun is_ok :: "'e + 'a \<Rightarrow> bool" where
  "is_ok (Inl e) = False"
| "is_ok (Inr x) = True"

lemma is_ok_iff: "is_ok r \<longleftrightarrow> (\<exists>x. r = Inr x)"
  by (cases r) auto

section \<open>Go maps\<close>

text \<open>
  A Go map is an association list. The operations of the code are lookup, assignment,
  \<^verbatim>\<open>delete\<close>, \<^verbatim>\<open>len\<close>, and deletion of the keys that satisfy a predicate inside a
  \<^verbatim>\<open>range\<close> loop; the order of iteration is never observed by the modelled code.
\<close>

type_synonym ('k, 'v) gomap = "('k \<times> 'v) list"

definition gm_get :: "('k, 'v) gomap \<Rightarrow> 'k \<Rightarrow> 'v option" where
  "gm_get m k = map_of m k"

definition gm_put :: "'k \<Rightarrow> 'v \<Rightarrow> ('k, 'v) gomap \<Rightarrow> ('k, 'v) gomap" where
  "gm_put k v m = AList.update k v m"

definition gm_del :: "'k \<Rightarrow> ('k, 'v) gomap \<Rightarrow> ('k, 'v) gomap" where
  "gm_del k m = AList.delete k m"

definition gm_keep :: "('k \<Rightarrow> bool) \<Rightarrow> ('k, 'v) gomap \<Rightarrow> ('k, 'v) gomap" where
  "gm_keep P m = filter (\<lambda>(k, v). P k) m"

definition gm_wf :: "('k, 'v) gomap \<Rightarrow> bool" where
  "gm_wf m \<longleftrightarrow> distinct (map fst m)"

text \<open>The contract of a key-value store, as the clients of Go maps use it.\<close>

locale kv_store =
  fixes empty :: "'m"
    and get :: "'m \<Rightarrow> 'k \<Rightarrow> 'v option"
    and put :: "'k \<Rightarrow> 'v \<Rightarrow> 'm \<Rightarrow> 'm"
    and del :: "'k \<Rightarrow> 'm \<Rightarrow> 'm"
    and keep :: "('k \<Rightarrow> bool) \<Rightarrow> 'm \<Rightarrow> 'm"
    and card_of :: "'m \<Rightarrow> nat"
  assumes get_empty: "get empty k = None"
    and get_put: "get (put k v m) k' = (if k' = k then Some v else get m k')"
    and get_del: "get (del k m) k' = (if k' = k then None else get m k')"
    and get_keep: "get (keep P m) k' = (if P k' then get m k' else None)"
    and card_del: "get m k = Some v \<Longrightarrow> card_of (del k m) < card_of m"
    and card_keep: "card_of (keep P m) \<le> card_of m"
    and card_put: "card_of (put k v m) \<le> Suc (card_of m)"
begin

lemma get_put_same: "get (put k v m) k = Some v"
  by (simp add: get_put)

lemma get_put_other: "k' \<noteq> k \<Longrightarrow> get (put k v m) k' = get m k'"
  by (simp add: get_put)

lemma get_del_same: "get (del k m) k = None"
  by (simp add: get_del)

lemma get_del_SomeD: "get (del k m) k' = Some v \<Longrightarrow> k' \<noteq> k \<and> get m k' = Some v"
  by (auto simp: get_del split: if_splits)

lemma get_keep_SomeD: "get (keep P m) k = Some v \<Longrightarrow> P k \<and> get m k = Some v"
  by (auto simp: get_keep split: if_splits)

end

lemma length_AList_delete_le: "length (AList.delete k m) \<le> length m"
  by (simp add: AList.delete_eq)

lemma length_AList_delete_less: "map_of m k = Some v \<Longrightarrow> length (AList.delete k m) < length m"
  by (induction m) (auto simp: AList.delete_eq le_imp_less_Suc split: if_splits)

lemma length_AList_update: "length (AList.update k v m) \<le> Suc (length m)"
  by (induction m) auto

lemma map_of_keep: "map_of (filter (\<lambda>(k, v). P k) m) k = (if P k then map_of m k else None)"
  by (induction m) auto

interpretation gm: kv_store "[]" gm_get gm_put gm_del gm_keep length
  by unfold_locales
     (simp_all add: gm_get_def gm_put_def gm_del_def gm_keep_def AList.update_conv' AList.delete_conv'
        map_of_keep length_AList_delete_less length_AList_update)

declare gm.get_empty [simp] gm.get_put [gomap_simps] gm.get_del [gomap_simps]
  gm.get_keep [gomap_simps]

lemma gm_wf_Nil [simp]: "gm_wf []"
  by (simp add: gm_wf_def)

lemma gm_wf_put [simp]: "gm_wf m \<Longrightarrow> gm_wf (gm_put k v m)"
  by (simp add: gm_wf_def gm_put_def AList.distinct_update)

lemma gm_wf_del [simp]: "gm_wf m \<Longrightarrow> gm_wf (gm_del k m)"
  by (simp add: gm_wf_def gm_del_def AList.distinct_delete)

lemma gm_wf_keep [simp]: "gm_wf m \<Longrightarrow> gm_wf (gm_keep P m)"
  by (simp add: gm_wf_def gm_keep_def distinct_map_filter)

lemma length_gm_del_less: "gm_get m k = Some v \<Longrightarrow> length (gm_del k m) < length m"
  by (rule gm.card_del)

lemma length_gm_del_le [simp]: "length (gm_del k m) \<le> length m"
  by (simp add: gm_del_def length_AList_delete_le)

lemma length_gm_keep_le [simp]: "length (gm_keep P m) \<le> length m"
  by (rule gm.card_keep)

lemma gm_get_in_set: "gm_get m k = Some v \<Longrightarrow> (k, v) \<in> set m"
  by (simp add: gm_get_def map_of_SomeD)

lemma gm_get_iff: "gm_wf m \<Longrightarrow> gm_get m k = Some v \<longleftrightarrow> (k, v) \<in> set m"
  by (simp add: gm_wf_def gm_get_def)

section \<open>State machines with an invariant\<close>

text \<open>
  A component that reacts to inputs is a step function; an invariant that holds initially and is kept
  by every step holds after every sequence of inputs.
\<close>

locale invariant_machine =
  fixes step :: "'s \<Rightarrow> 'i \<Rightarrow> 's"
    and inv :: "'s \<Rightarrow> bool"
  assumes inv_step: "inv s \<Longrightarrow> inv (step s i)"
begin

lemma inv_run: "inv s \<Longrightarrow> inv (foldl step s is)"
  by (induction "is" arbitrary: s) (auto intro: inv_step)

end

text \<open>The same for a machine whose invariant is kept by the inputs that satisfy a condition.\<close>

locale guarded_machine =
  fixes step :: "'s \<Rightarrow> 'i \<Rightarrow> 's"
    and inv :: "'s \<Rightarrow> bool"
    and ok :: "'i \<Rightarrow> bool"
  assumes inv_step_ok: "ok i \<Longrightarrow> inv s \<Longrightarrow> inv (step s i)"
begin

lemma inv_run_ok: "\<forall>i \<in> set is. ok i \<Longrightarrow> inv s \<Longrightarrow> inv (foldl step s is)"
  by (induction "is" arbitrary: s) (auto intro: inv_step_ok)

end

lemma unat_of_nat_u64: "n < 2 ^ 64 \<Longrightarrow> unat (of_nat n :: u64) = n"
  by (simp add: unat_of_nat)

section \<open>Byte order\<close>

text \<open>
  \<^verbatim>\<open>binary.LittleEndian\<close> and \<^verbatim>\<open>binary.BigEndian\<close>: \<open>le_bytes k n\<close> is the \<open>k\<close>-byte
  little-endian image of \<open>n\<close>, \<open>le_val\<close> its value.
\<close>

fun le_bytes :: "nat \<Rightarrow> nat \<Rightarrow> bytes" where
  "le_bytes 0 n = []"
| "le_bytes (Suc k) n = (of_nat (n mod 256) :: byte) # le_bytes k (n div 256)"

fun le_val :: "bytes \<Rightarrow> nat" where
  "le_val [] = 0"
| "le_val (b # bs) = unat b + 256 * le_val bs"

definition be_bytes :: "nat \<Rightarrow> nat \<Rightarrow> bytes" where
  "be_bytes k n = rev (le_bytes k n)"

definition be_val :: "bytes \<Rightarrow> nat" where
  "be_val bs = le_val (rev bs)"

lemma length_le_bytes [simp]: "length (le_bytes k n) = k"
  by (induction k n rule: le_bytes.induct) auto

lemma length_be_bytes [simp]: "length (be_bytes k n) = k"
  by (simp add: be_bytes_def)

lemma unat_of_nat_byte: "unat (of_nat (n mod 256) :: byte) = n mod 256"
  by (simp add: unat_of_nat)

lemma unat_byte_less: "unat (b :: byte) < 256"
  using unsigned_less [of b, where ?'a = nat] by simp

lemma le_val_le_bytes: "n < 256 ^ k \<Longrightarrow> le_val (le_bytes k n) = n"
proof (induction k n rule: le_bytes.induct)
  case (1 n)
  then show ?case by simp
next
  case (2 k n)
  then have "n div 256 < 256 ^ k"
    by (simp add: less_mult_imp_div_less mult.commute)
  then have "le_val (le_bytes k (n div 256)) = n div 256"
    by (rule "2.IH")
  then show ?case
    by (simp add: unat_of_nat_byte)
qed

lemma le_val_less: "le_val bs < 256 ^ length bs"
proof (induction bs)
  case Nil
  then show ?case by simp
next
  case (Cons b bs)
  have "unat b < 256" by (rule unat_byte_less)
  moreover have "Suc (le_val bs) \<le> 256 ^ length bs" using Cons by simp
  then have "256 * Suc (le_val bs) \<le> 256 * 256 ^ length bs" by (rule mult_le_mono2)
  ultimately show ?case by simp
qed

lemma le_bytes_le_val: "le_bytes (length bs) (le_val bs) = bs"
proof (induction bs)
  case Nil
  then show ?case by simp
next
  case (Cons b bs)
  have m: "le_val (b # bs) mod 256 = unat b"
    using unat_byte_less [of b] by simp
  have d: "le_val (b # bs) div 256 = le_val bs"
    using unat_byte_less [of b] by simp
  show ?case
    by (simp only: length_Cons le_bytes.simps m d Cons) simp
qed

lemma be_val_be_bytes: "n < 256 ^ k \<Longrightarrow> be_val (be_bytes k n) = n"
  by (simp add: be_val_def be_bytes_def le_val_le_bytes)

lemma be_val_less: "be_val bs < 256 ^ length bs"
  using le_val_less [of "rev bs"] by (simp add: be_val_def)

lemma be_bytes_be_val: "be_bytes (length bs) (be_val bs) = bs"
  using le_bytes_le_val [of "rev bs"] by (simp add: be_val_def be_bytes_def)

definition PutUint64LE :: "u64 \<Rightarrow> bytes" where
  "PutUint64LE v = le_bytes 8 (unat v)"

definition Uint64LE :: "bytes \<Rightarrow> u64" where
  "Uint64LE bs = of_nat (le_val bs)"

definition PutUint32LE :: "u32 \<Rightarrow> bytes" where
  "PutUint32LE v = le_bytes 4 (unat v)"

definition Uint32LE :: "bytes \<Rightarrow> u32" where
  "Uint32LE bs = of_nat (le_val bs)"

definition PutUint16BE :: "u16 \<Rightarrow> bytes" where
  "PutUint16BE v = be_bytes 2 (unat v)"

definition Uint16BE :: "bytes \<Rightarrow> u16" where
  "Uint16BE bs = of_nat (be_val bs)"

definition PutUint32BE :: "u32 \<Rightarrow> bytes" where
  "PutUint32BE v = be_bytes 4 (unat v)"

definition Uint32BE :: "bytes \<Rightarrow> u32" where
  "Uint32BE bs = of_nat (be_val bs)"

definition PutUint64BE :: "u64 \<Rightarrow> bytes" where
  "PutUint64BE v = be_bytes 8 (unat v)"

definition Uint64BE :: "bytes \<Rightarrow> u64" where
  "Uint64BE bs = of_nat (be_val bs)"

lemma length_PutUint [simp]:
  "length (PutUint64LE a) = 8" "length (PutUint32LE b) = 4" "length (PutUint16BE c) = 2"
  "length (PutUint32BE b) = 4" "length (PutUint64BE a) = 8"
  by (simp_all add: PutUint64LE_def PutUint32LE_def PutUint16BE_def PutUint32BE_def PutUint64BE_def)

lemma u64_bound: "unat (v :: u64) < 256 ^ 8"
  using unsigned_less [of v, where ?'a = nat] by simp

lemma u32_bound: "unat (v :: u32) < 256 ^ 4"
  using unsigned_less [of v, where ?'a = nat] by simp

lemma u16_bound: "unat (v :: u16) < 256 ^ 2"
  using unsigned_less [of v, where ?'a = nat] by simp

lemma Uint_PutUint [codec_simps, simp]:
  "Uint64LE (PutUint64LE a) = a" "Uint32LE (PutUint32LE b) = b" "Uint16BE (PutUint16BE c) = c"
  "Uint32BE (PutUint32BE b) = b" "Uint64BE (PutUint64BE a) = a"
  by (simp_all only: Uint64LE_def PutUint64LE_def Uint32LE_def PutUint32LE_def Uint16BE_def
      PutUint16BE_def Uint32BE_def PutUint32BE_def Uint64BE_def PutUint64BE_def
      le_val_le_bytes [OF u64_bound] le_val_le_bytes [OF u32_bound] be_val_be_bytes [OF u16_bound]
      be_val_be_bytes [OF u32_bound] be_val_be_bytes [OF u64_bound] of_nat_unat ucast_id)

lemma unat_of_nat_bytes: "256 ^ length bs = (2 :: nat) ^ LENGTH('a) \<Longrightarrow> unat (of_nat (be_val bs) :: 'a :: len word) = be_val bs"
  using be_val_less [of bs] by (simp add: unat_of_nat)

lemma unat_of_nat_le_bytes: "256 ^ length bs = (2 :: nat) ^ LENGTH('a) \<Longrightarrow> unat (of_nat (le_val bs) :: 'a :: len word) = le_val bs"
  using le_val_less [of bs] by (simp add: unat_of_nat)

lemma Put_Uint:
  "length bs = 2 \<Longrightarrow> PutUint16BE (Uint16BE bs) = bs" "length bs = 4 \<Longrightarrow> PutUint32BE (Uint32BE bs) = bs"
  "length bs = 8 \<Longrightarrow> PutUint64BE (Uint64BE bs) = bs" "length bs = 8 \<Longrightarrow> PutUint64LE (Uint64LE bs) = bs"
  "length bs = 4 \<Longrightarrow> PutUint32LE (Uint32LE bs) = bs"
  using be_bytes_be_val [of bs] le_bytes_le_val [of bs]
  by (simp_all add: PutUint16BE_def Uint16BE_def PutUint32BE_def Uint32BE_def PutUint64BE_def Uint64BE_def
      PutUint64LE_def Uint64LE_def PutUint32LE_def Uint32LE_def unat_of_nat_bytes unat_of_nat_le_bytes)

section \<open>Self-delimiting encodings\<close>

text \<open>
  The contract of an encoder and a decoder that reads one value off the front of a byte stream: the
  decoder inverts the encoder whatever follows, and accepts nothing but encodings.
\<close>

locale stream_codec =
  fixes enc :: "'a \<Rightarrow> bytes"
    and dec :: "bytes \<Rightarrow> 'e + 'a \<times> bytes"
    and valid :: "'a \<Rightarrow> bool"
  assumes dec_enc: "valid x \<Longrightarrow> dec (enc x @ r) = Inr (x, r)"
    and dec_sound: "dec s = Inr (x, r) \<Longrightarrow> valid x \<and> s = enc x @ r"
begin

lemma enc_prefix_free: "valid x \<Longrightarrow> valid y \<Longrightarrow> enc x @ r = enc y @ r' \<Longrightarrow> x = y \<and> r = r'"
  by (metis dec_enc prod.inject sum.inject(2))

lemma enc_list_inj:
  "\<forall>x \<in> set xs. valid x \<Longrightarrow> \<forall>y \<in> set ys. valid y \<Longrightarrow> length xs = length ys \<Longrightarrow>
   concat (map enc xs) @ r = concat (map enc ys) @ r' \<Longrightarrow> xs = ys \<and> r = r'"
proof (induction xs arbitrary: ys)
  case (Cons x xs)
  then obtain y ys' where y: "ys = y # ys'" by (cases ys) auto
  have "x = y \<and> concat (map enc xs) @ r = concat (map enc ys') @ r'"
    using Cons.prems y by (intro enc_prefix_free) simp_all
  then show ?case using Cons.IH [of ys'] Cons.prems(1-3) y by simp
qed simp

end

section \<open>Checked slices\<close>

text \<open>\<^verbatim>\<open>s[i:j]\<close> panics unless \<open>i \<le> j \<le> len(s)\<close> (for the full-length slices of the code).\<close>

definition go_slice :: "nat \<Rightarrow> nat \<Rightarrow> 'a list \<Rightarrow> 'a list option" where
  "go_slice i j xs = (if i \<le> j \<and> j \<le> length xs then Some (take (j - i) (drop i xs)) else None)"

lemma go_slice_length: "go_slice i j xs = Some ys \<Longrightarrow> length ys = j - i"
  by (auto simp: go_slice_def split: if_splits)

lemma go_slice_append_mid [codec_simps]:
  "go_slice (length xs) (length xs + length ys) (xs @ ys @ zs) = Some ys"
  by (simp add: go_slice_def)

lemma go_slice_Some_iff: "go_slice i j xs = Some ys \<longleftrightarrow>
    i \<le> j \<and> j \<le> length xs \<and> ys = take (j - i) (drop i xs)"
  by (auto simp: go_slice_def)

end
