(* ===== verification/Eth_Types.thy ===== *)
theory Eth_Types
  imports Based_Prelude
begin

text \<open>
  The message and block-reference types of \<^verbatim>\<open>op-service/eth\<close> that the components exchange. Go
  arrays \<^verbatim>\<open>[N]byte\<close> are byte lists; where their width matters the codec theories state it.
\<close>

section \<open>Block references (id.go)\<close>

record BlockID =
  id_Hash :: Hash
  id_Number :: u64

record L2BlockRef =
  l2_Hash :: Hash
  l2_Number :: u64
  l2_ParentHash :: Hash
  l2_Time :: u64
  l2_L1Origin :: BlockID
  l2_SequenceNumber :: u64

record L1BlockRef =
  l1_Hash :: Hash
  l1_Number :: u64
  l1_ParentHash :: Hash
  l1_Time :: u64

definition L1BlockRef_ID :: "L1BlockRef \<Rightarrow> BlockID" where
  "L1BlockRef_ID r = \<lparr>id_Hash = l1_Hash r, id_Number = l1_Number r\<rparr>"

definition L1BlockRef_ParentID :: "L1BlockRef \<Rightarrow> BlockID" where
  "L1BlockRef_ParentID r =
     (let n = id_Number (L1BlockRef_ID r) in
      \<lparr>id_Hash = l1_ParentHash r, id_Number = (if n > 0 then n - 1 else n)\<rparr>)"

definition L2BlockRef_ID :: "L2BlockRef \<Rightarrow> BlockID" where
  "L2BlockRef_ID r = \<lparr>id_Hash = l2_Hash r, id_Number = l2_Number r\<rparr>"

definition L2BlockRef_ParentID :: "L2BlockRef \<Rightarrow> BlockID" where
  "L2BlockRef_ParentID r =
     (let n = id_Number (L2BlockRef_ID r) in
      \<lparr>id_Hash = l2_ParentHash r, id_Number = (if n > 0 then n - 1 else n)\<rparr>)"

section \<open>Preconfirmation messages (types.go)\<close>

record NewFrag =
  frag_BlockNumber :: u64
  frag_Seq :: u64
  frag_IsLast :: bool
  frag_Txs :: "bytes list"

record SignedNewFrag =
  sf_Signature :: bytes
  sf_Frag :: NewFrag

record Seal =
  seal_TotalFrags :: u64
  seal_BlockNumber :: u64
  seal_GasUsed :: u64
  seal_GasLimit :: u64
  seal_ParentHash :: Hash
  seal_TransactionsRoot :: Hash
  seal_ReceiptsRoot :: Hash
  seal_StateRoot :: Hash
  seal_BlockHash :: Hash

record SignedSeal =
  ss_Signature :: bytes
  ss_Seal :: Seal

record Env =
  env_Number :: u64
  env_ParentHash :: Hash
  env_Beneficiary :: Address
  env_Timestamp :: u64
  env_GasLimit :: u64
  env_Basefee :: u64
  env_Difficulty :: "256 word"
  env_Prevrandao :: Hash
  env_ExtraData :: bytes
  env_ParentBeaconBlockRoot :: Hash

record SignedEnv =
  se_Signature :: bytes
  se_Env :: Env

end
