(* ===== verification/Preconf.thy ===== *)
theory Preconf
  imports Eth_Types "HOL-Library.Multiset"
begin

text \<open>
  \<^verbatim>\<open>op-node/rollup/engine/preconf.go\<close>: the preconfirmation state of the op-node. Signed envs, frags
  and seals arrive in any order; those whose predecessor was already handed to the execution engine
  are handed on at once, the others are held in the pending maps. The calls the code makes on its
  \<^verbatim>\<open>ExecEngine\<close> (it ignores what they return) are recorded in order in the field
  \<open>engine_calls\<close>.
\<close>

named_theorems preconf_simps "unfolding of the preconfirmation handlers"

section \<open>State\<close>

definition Option_Set :: "'a option \<Rightarrow> 'a \<Rightarrow> 'a option" where
  "Option_Set o' v = Some v"

definition IsSet :: "'a option \<Rightarrow> bool" where
  "IsSet o' \<longleftrightarrow> o' \<noteq> None"

definition IsEqual :: "'a option \<Rightarrow> 'a \<Rightarrow> bool" where
  "IsEqual o' v \<longleftrightarrow> o' = Some v"

record FragIndex =
  fi_BlockNumber :: u64
  fi_Sequence :: u64

definition index :: "NewFrag \<Rightarrow> FragIndex" where
  "index f = \<lparr>fi_BlockNumber = frag_BlockNumber f, fi_Sequence = frag_Seq f\<rparr>"

definition prev :: "FragIndex \<Rightarrow> FragIndex" where
  "prev fi = \<lparr>fi_BlockNumber = fi_BlockNumber fi, fi_Sequence = fi_Sequence fi - 1\<rparr>"

definition next_idx :: "FragIndex \<Rightarrow> FragIndex" where
  "next_idx fi = \<lparr>fi_BlockNumber = fi_BlockNumber fi, fi_Sequence = fi_Sequence fi + 1\<rparr>"

datatype PreconfMsg =
  EnvMsg SignedEnv
| FragMsg SignedNewFrag
| SealMsg SignedSeal

record PreconfState =
  lastEnvSent :: "u64 option"
  lastFragSent :: "FragIndex option"
  lastSealSent :: "u64 option"
  lastL2BlockSent :: "u64 option"
  lastBlockWithAllFrags :: "u64 option"
  lastBlockPruned :: u64
  pendingEnvs :: "(u64, SignedEnv) gomap"
  pendingFrags :: "(FragIndex, SignedNewFrag) gomap"
  pendingSeals :: "(u64, SignedSeal) gomap"
  engine_calls :: "PreconfMsg list"

definition NewPreconfState :: PreconfState where
  "NewPreconfState =
     \<lparr>lastEnvSent = None, lastFragSent = None, lastSealSent = None, lastL2BlockSent = None,
      lastBlockWithAllFrags = None, lastBlockPruned = 0,
      pendingEnvs = [], pendingFrags = [], pendingSeals = [], engine_calls = []\<rparr>"

definition engine_Env :: "PreconfState \<Rightarrow> SignedEnv \<Rightarrow> PreconfState" where
  "engine_Env s e = s\<lparr>engine_calls := engine_calls s @ [EnvMsg e]\<rparr>"

definition engine_NewFrag :: "PreconfState \<Rightarrow> SignedNewFrag \<Rightarrow> PreconfState" where
  "engine_NewFrag s f = s\<lparr>engine_calls := engine_calls s @ [FragMsg f]\<rparr>"

definition engine_SealFrag :: "PreconfState \<Rightarrow> SignedSeal \<Rightarrow> PreconfState" where
  "engine_SealFrag s l = s\<lparr>engine_calls := engine_calls s @ [SealMsg l]\<rparr>"

section \<open>Pruning\<close>

definition PruneSafeWindow :: u64 where
  "PruneSafeWindow = 2"

definition prune :: "PreconfState \<Rightarrow> u64 \<Rightarrow> PreconfState" where
  "prune s currentBlock =
     (if currentBlock - lastBlockPruned s < 2 * PruneSafeWindow then s
      else let latestBlock = currentBlock - PruneSafeWindow in
        s\<lparr>pendingEnvs := gm_keep (\<lambda>k. \<not> k < latestBlock) (pendingEnvs s),
          pendingSeals := gm_keep (\<lambda>k. \<not> k < latestBlock) (pendingSeals s),
          pendingFrags := gm_keep (\<lambda>k. \<not> fi_BlockNumber k < latestBlock) (pendingFrags s),
          lastBlockPruned := latestBlock\<rparr>)"

definition pending_size :: "PreconfState \<Rightarrow> nat" where
  "pending_size s = length (pendingEnvs s) + length (pendingFrags s) + length (pendingSeals s)"

lemma pending_size_prune: "pending_size (prune s n) \<le> pending_size s"
  by (auto simp: prune_def pending_size_def Let_def intro!: add_mono)

section \<open>The three handlers\<close>

text \<open>
  The handlers call each other along the chain env, frags, seal, next env. Every call takes one
  message out of a pending map first, so the number of held messages bounds the recursion.
\<close>

function (sequential)
  putEnv :: "PreconfState \<Rightarrow> SignedEnv \<Rightarrow> PreconfState" and
  putFrag :: "PreconfState \<Rightarrow> SignedNewFrag \<Rightarrow> PreconfState" and
  putSeal :: "PreconfState \<Rightarrow> SignedSeal \<Rightarrow> PreconfState"
where
  "putEnv s sEnv =
     (let env = se_Env sEnv in
      if \<not> IsSet (lastSealSent s) \<or> IsEqual (lastSealSent s) (env_Number env - 1)
         \<or> IsEqual (lastL2BlockSent s) (env_Number env)
      then
        let s1 = s\<lparr>lastEnvSent := Option_Set (lastEnvSent s) (env_Number env)\<rparr>;
            s2 = engine_Env s1 sEnv;
            s3 = prune s2 (env_Number env);
            nextIndex = \<lparr>fi_BlockNumber = env_Number env, fi_Sequence = 0\<rparr>
        in case gm_get (pendingFrags s3) nextIndex of
             Some nextFrag \<Rightarrow>
               putFrag (s3\<lparr>pendingFrags := gm_del nextIndex (pendingFrags s3)\<rparr>) nextFrag
           | None \<Rightarrow> s3
      else if env_Number env \<ge> lastBlockPruned s
      then s\<lparr>pendingEnvs := gm_put (env_Number env) sEnv (pendingEnvs s)\<rparr>
      else s)"
| "putFrag s sFrag =
     (let frag = sf_Frag sFrag;
          idx = index frag;
          isFirst = (frag_Seq frag = 0 \<and> IsEqual (lastEnvSent s) (frag_BlockNumber frag));
          previousSent = IsEqual (lastFragSent s) (prev idx)
      in if isFirst \<or> previousSent
      then
        let s1 = s\<lparr>lastFragSent := Option_Set (lastFragSent s) idx\<rparr>;
            s2 = engine_NewFrag s1 sFrag
        in if frag_IsLast frag
           then let s3 = s2\<lparr>lastBlockWithAllFrags :=
                           Option_Set (lastBlockWithAllFrags s2) (fi_BlockNumber idx)\<rparr>
                in case gm_get (pendingSeals s3) (fi_BlockNumber idx) of
                     Some nextSeal \<Rightarrow>
                       putSeal (s3\<lparr>pendingSeals := gm_del (fi_BlockNumber idx) (pendingSeals s3)\<rparr>)
                         nextSeal
                   | None \<Rightarrow> s3
           else (case gm_get (pendingFrags s2) (next_idx idx) of
                   Some nextFrag \<Rightarrow>
                     putFrag (s2\<lparr>pendingFrags := gm_del (next_idx idx) (pendingFrags s2)\<rparr>) nextFrag
                 | None \<Rightarrow> s2)
      else if fi_BlockNumber idx \<ge> lastBlockPruned s
      then s\<lparr>pendingFrags := gm_put idx sFrag (pendingFrags s)\<rparr>
      else s)"
| "putSeal s sSeal =
     (let seal = ss_Seal sSeal in
      if IsEqual (lastBlockWithAllFrags s) (seal_BlockNumber seal)
      then
        let s1 = s\<lparr>lastSealSent := Option_Set (lastSealSent s) (seal_BlockNumber seal)\<rparr>;
            s2 = engine_SealFrag s1 sSeal
        in case gm_get (pendingEnvs s2) (seal_BlockNumber seal + 1) of
             Some nextEnv \<Rightarrow>
               putEnv (s2\<lparr>pendingEnvs := gm_del (seal_BlockNumber seal + 1) (pendingEnvs s2)\<rparr>) nextEnv
           | None \<Rightarrow> s2
      else if seal_BlockNumber seal \<ge> lastBlockPruned s
      then s\<lparr>pendingSeals := gm_put (seal_BlockNumber seal) sSeal (pendingSeals s)\<rparr>
      else s)"
  by pat_completeness auto
termination
proof (relation "measure (\<lambda>x. case x of Inl (s, e) \<Rightarrow> pending_size s
                          | Inr (Inl (s, f)) \<Rightarrow> pending_size s
                          | Inr (Inr (s, l)) \<Rightarrow> pending_size s)", goal_cases)
  case 1
  then show ?case by simp
next
  case (2 s sEnv env s1 s2 s3 nextIndex nextFrag)
  have "pending_size s3 \<le> pending_size s2" using 2 by (simp add: pending_size_prune)
  also have "pending_size s2 = pending_size s"
    using 2 by (simp add: pending_size_def engine_Env_def)
  finally show ?case
    using length_gm_del_less [OF 2(7)] by (simp add: pending_size_def)
qed (auto simp: pending_size_def engine_NewFrag_def engine_SealFrag_def dest!: length_gm_del_less)

declare putEnv.simps [simp del] putFrag.simps [simp del] putSeal.simps [simp del]

definition putL2Block :: "PreconfState \<Rightarrow> L2BlockRef \<Rightarrow> PreconfState" where
  "putL2Block s block =
     (let s1 = s\<lparr>lastL2BlockSent := Option_Set (lastL2BlockSent s) (l2_Number block)\<rparr>;
          s2 = (case gm_get (pendingEnvs s1) (l2_Number block) of
                  Some nextEnv \<Rightarrow>
                    putEnv (s1\<lparr>pendingEnvs := gm_del (l2_Number block) (pendingEnvs s1)\<rparr>) nextEnv
                | None \<Rightarrow> s1)
      in prune s2 (l2_Number block))"

section \<open>The handler loop\<close>

text \<open>
  \<^verbatim>\<open>preconfHandler\<close> receives one value at a time from four channels, in an order the
  \<^verbatim>\<open>select\<close> does not fix; a run of it is any sequence of the four kinds of input.
\<close>

datatype PreconfInput =
  Msg PreconfMsg
| L2Block L2BlockRef

fun put :: "PreconfState \<Rightarrow> PreconfMsg \<Rightarrow> PreconfState" where
  "put s (EnvMsg e) = putEnv s e"
| "put s (FragMsg f) = putFrag s f"
| "put s (SealMsg l) = putSeal s l"

fun handle :: "PreconfState \<Rightarrow> PreconfInput \<Rightarrow> PreconfState" where
  "handle s (Msg m) = put s m"
| "handle s (L2Block b) = putL2Block s b"

definition preconfHandler :: "PreconfInput list \<Rightarrow> PreconfState" where
  "preconfHandler inputs = foldl handle NewPreconfState inputs"

end
