(* ===== verification/Preconf_Proofs.thy ===== *)
theory Preconf_Proofs
  imports Preconf
begin

text \<open>
  What the preconfirmation state guarantees. The three mutually recursive handlers are first shown to
  be one function on messages (send the message if its predecessor was sent, then go on with the
  held successor); invariants, the contract of the emitted call sequence and in-order delivery are
  proved over that view.
\<close>

section \<open>One view of the three handlers\<close>

datatype PreconfKey = EnvKey u64 | FragKey FragIndex | SealKey u64

fun block_of :: "PreconfMsg \<Rightarrow> u64" where
  "block_of (EnvMsg e) = env_Number (se_Env e)"
| "block_of (FragMsg f) = frag_BlockNumber (sf_Frag f)"
| "block_of (SealMsg l) = seal_BlockNumber (ss_Seal l)"

fun key_of :: "PreconfMsg \<Rightarrow> PreconfKey" where
  "key_of (EnvMsg e) = EnvKey (env_Number (se_Env e))"
| "key_of (FragMsg f) = FragKey (index (sf_Frag f))"
| "key_of (SealMsg l) = SealKey (seal_BlockNumber (ss_Seal l))"

text \<open>The key of the message that comes after a message in the canonical order.\<close>

fun succ_key :: "PreconfMsg \<Rightarrow> PreconfKey" where
  "succ_key (EnvMsg e) = FragKey \<lparr>fi_BlockNumber = env_Number (se_Env e), fi_Sequence = 0\<rparr>"
| "succ_key (FragMsg f) =
     (if frag_IsLast (sf_Frag f) then SealKey (frag_BlockNumber (sf_Frag f))
      else FragKey (next_idx (index (sf_Frag f))))"
| "succ_key (SealMsg l) = EnvKey (seal_BlockNumber (ss_Seal l) + 1)"

fun lookup :: "PreconfState \<Rightarrow> PreconfKey \<Rightarrow> PreconfMsg option" where
  "lookup s (EnvKey n) = map_option EnvMsg (gm_get (pendingEnvs s) n)"
| "lookup s (FragKey i) = map_option FragMsg (gm_get (pendingFrags s) i)"
| "lookup s (SealKey n) = map_option SealMsg (gm_get (pendingSeals s) n)"

fun remove :: "PreconfState \<Rightarrow> PreconfKey \<Rightarrow> PreconfState" where
  "remove s (EnvKey n) = s\<lparr>pendingEnvs := gm_del n (pendingEnvs s)\<rparr>"
| "remove s (FragKey i) = s\<lparr>pendingFrags := gm_del i (pendingFrags s)\<rparr>"
| "remove s (SealKey n) = s\<lparr>pendingSeals := gm_del n (pendingSeals s)\<rparr>"

fun hold :: "PreconfState \<Rightarrow> PreconfMsg \<Rightarrow> PreconfState" where
  "hold s (EnvMsg e) = s\<lparr>pendingEnvs := gm_put (env_Number (se_Env e)) e (pendingEnvs s)\<rparr>"
| "hold s (FragMsg f) = s\<lparr>pendingFrags := gm_put (index (sf_Frag f)) f (pendingFrags s)\<rparr>"
| "hold s (SealMsg l) = s\<lparr>pendingSeals := gm_put (seal_BlockNumber (ss_Seal l)) l (pendingSeals s)\<rparr>"

fun ready :: "PreconfState \<Rightarrow> PreconfMsg \<Rightarrow> bool" where
  "ready s (EnvMsg e) \<longleftrightarrow> lastSealSent s = None \<or> lastSealSent s = Some (env_Number (se_Env e) - 1)
     \<or> lastL2BlockSent s = Some (env_Number (se_Env e))"
| "ready s (FragMsg f) \<longleftrightarrow>
     frag_Seq (sf_Frag f) = 0 \<and> lastEnvSent s = Some (frag_BlockNumber (sf_Frag f))
     \<or> lastFragSent s = Some (prev (index (sf_Frag f)))"
| "ready s (SealMsg l) \<longleftrightarrow> lastBlockWithAllFrags s = Some (seal_BlockNumber (ss_Seal l))"

fun send :: "PreconfState \<Rightarrow> PreconfMsg \<Rightarrow> PreconfState" where
  "send s (EnvMsg e) =
     s\<lparr>lastEnvSent := Some (env_Number (se_Env e)), engine_calls := engine_calls s @ [EnvMsg e]\<rparr>"
| "send s (FragMsg f) =
     (let s' = s\<lparr>lastFragSent := Some (index (sf_Frag f)), engine_calls := engine_calls s @ [FragMsg f]\<rparr>
      in if frag_IsLast (sf_Frag f)
         then s'\<lparr>lastBlockWithAllFrags := Some (frag_BlockNumber (sf_Frag f))\<rparr> else s')"
| "send s (SealMsg l) =
     s\<lparr>lastSealSent := Some (seal_BlockNumber (ss_Seal l)), engine_calls := engine_calls s @ [SealMsg l]\<rparr>"

fun emit :: "PreconfState \<Rightarrow> PreconfMsg \<Rightarrow> PreconfState" where
  "emit s (EnvMsg e) = prune (send s (EnvMsg e)) (env_Number (se_Env e))"
| "emit s m = send s m"

lemmas preconf_unfold = Option_Set_def IsSet_def IsEqual_def engine_Env_def engine_NewFrag_def
  engine_SealFrag_def

lemma fi_BlockNumber_index [simp]: "fi_BlockNumber (index f) = frag_BlockNumber f"
  by (simp add: index_def)

lemma put_eq:
  "put s m =
     (if ready s m
      then case lookup (emit s m) (succ_key m) of
             Some m' \<Rightarrow> put (remove (emit s m) (succ_key m)) m'
           | None \<Rightarrow> emit s m
      else if lastBlockPruned s \<le> block_of m then hold s m else s)"
proof (cases m)
  case (EnvMsg e)
  then show ?thesis
    by (simp add: putEnv.simps [of s e] preconf_unfold Let_def split: option.split)
next
  case (FragMsg f)
  then show ?thesis
    by (simp add: putFrag.simps [of s f] preconf_unfold Let_def split: option.split)
next
  case (SealMsg l)
  then show ?thesis
    by (simp add: putSeal.simps [of s l] preconf_unfold Let_def split: option.split)
qed

lemma pending_size_emit: "pending_size (emit s m) \<le> pending_size s"
proof (cases m)
  case (EnvMsg e)
  have "pending_size (prune (send s m) n) \<le> pending_size (send s m)" for n
    by (rule pending_size_prune)
  with EnvMsg show ?thesis by (simp add: pending_size_def)
qed (simp_all add: pending_size_def Let_def)

lemma pending_size_remove: "lookup s k = Some m \<Longrightarrow> pending_size (remove s k) < pending_size s"
  by (cases k) (auto simp: pending_size_def dest!: length_gm_del_less)

lemma lookup_key: "lookup s k = Some m \<Longrightarrow> (case k of EnvKey n \<Rightarrow> \<exists>e. m = EnvMsg e
    | FragKey i \<Rightarrow> \<exists>f. m = FragMsg f | SealKey n \<Rightarrow> \<exists>l. m = SealMsg l)"
  by (cases k) auto

text \<open>Induction along the chain of held successors.\<close>

lemma put_induct [case_names step]:
  assumes "\<And>s m. (\<And>m'. ready s m \<Longrightarrow> lookup (emit s m) (succ_key m) = Some m' \<Longrightarrow>
             P (remove (emit s m) (succ_key m)) m') \<Longrightarrow> P s m"
  shows "P s m"
proof (induction "pending_size s" arbitrary: s m rule: less_induct)
  case (less s m)
  show ?case
  proof (rule assms)
    fix m'
    assume "ready s m" and l: "lookup (emit s m) (succ_key m) = Some m'"
    from l have "pending_size (remove (emit s m) (succ_key m)) < pending_size (emit s m)"
      by (rule pending_size_remove)
    with pending_size_emit [of s m] have "pending_size (remove (emit s m) (succ_key m)) < pending_size s"
      by simp
    then show "P (remove (emit s m) (succ_key m)) m'" by (rule less.hyps)
  qed
qed

section \<open>Invariants of the handler loop\<close>

text \<open>
  An invariant of the state is shown once per elementary move (send, hold, take out of a map, prune,
  note an L2 block) and then holds after every sequence of inputs that satisfy \<open>Q\<close>.
\<close>

locale preconf_invariant =
  fixes I :: "PreconfState \<Rightarrow> bool" and Q :: "PreconfInput \<Rightarrow> bool"
  assumes I_init: "I NewPreconfState"
    and I_send: "I s \<Longrightarrow> Q (Msg m) \<Longrightarrow> ready s m \<Longrightarrow> I (send s m)"
    and I_hold: "I s \<Longrightarrow> Q (Msg m) \<Longrightarrow> lastBlockPruned s \<le> block_of m \<Longrightarrow> I (hold s m)"
    and I_remove: "I s \<Longrightarrow> I (remove s k)"
    and I_prune: "I s \<Longrightarrow> I (prune s n)"
    and I_l2: "I s \<Longrightarrow> Q (L2Block b) \<Longrightarrow> I (s\<lparr>lastL2BlockSent := Some (l2_Number b)\<rparr>)"
    and Q_lookup: "I s \<Longrightarrow> lookup s k = Some m \<Longrightarrow> Q (Msg m)"
begin

lemma I_emit: "I s \<Longrightarrow> Q (Msg m) \<Longrightarrow> ready s m \<Longrightarrow> I (emit s m)"
  using I_send [of s m] by (cases m) (auto intro: I_prune)

lemma I_put: "I s \<Longrightarrow> Q (Msg m) \<Longrightarrow> I (put s m)"
proof (induction s m rule: put_induct)
  case (step s m)
  show ?case
  proof (cases "ready s m")
    case True
    then have e: "I (emit s m)" using step.prems by (intro I_emit)
    show ?thesis
    proof (cases "lookup (emit s m) (succ_key m)")
      case None
      with True e show ?thesis by (simp add: put_eq [of s m])
    next
      case (Some m')
      from e Some have "Q (Msg m')" by (rule Q_lookup)
      with True Some e step.IH have "I (put (remove (emit s m) (succ_key m)) m')"
        by (blast intro: I_remove)
      with True Some show ?thesis by (simp add: put_eq [of s m])
    qed
  next
    case False
    with step.prems show ?thesis by (auto simp: put_eq [of s m] intro: I_hold)
  qed
qed

lemma I_handle: "I s \<Longrightarrow> Q i \<Longrightarrow> I (handle s i)"
proof (cases i)
  case (Msg m)
  assume "I s" "Q i"
  with Msg show ?thesis by (simp add: I_put)
next
  case (L2Block b)
  assume "I s" "Q i"
  with L2Block have l: "I (s\<lparr>lastL2BlockSent := Some (l2_Number b)\<rparr>)" (is "I ?s") by (simp add: I_l2)
  show ?thesis
  proof (cases "gm_get (pendingEnvs s) (l2_Number b)")
    case None
    with l L2Block show ?thesis by (simp add: putL2Block_def Option_Set_def I_prune)
  next
    case (Some e)
    have "lookup ?s (EnvKey (l2_Number b)) = Some (EnvMsg e)" using Some by simp
    with l have "Q (Msg (EnvMsg e))" by (rule Q_lookup)
    with I_put [OF I_remove [OF l, of "EnvKey (l2_Number b)"], of "EnvMsg e"] L2Block Some
    show ?thesis by (simp add: putL2Block_def Option_Set_def I_prune)
  qed
qed

lemma I_preconfHandler: "(\<And>i. i \<in> set inputs \<Longrightarrow> Q i) \<Longrightarrow> I (preconfHandler inputs)"
proof -
  assume "\<And>i. i \<in> set inputs \<Longrightarrow> Q i"
  then have "I s \<Longrightarrow> I (foldl handle s inputs)" for s
    by (induction inputs arbitrary: s) (auto intro: I_handle)
  then show ?thesis by (simp add: preconfHandler_def I_init)
qed

end


section \<open>What the elementary moves do to the pending maps\<close>

fun block_of_key :: "PreconfKey \<Rightarrow> u64" where
  "block_of_key (EnvKey n) = n"
| "block_of_key (FragKey i) = fi_BlockNumber i"
| "block_of_key (SealKey n) = n"

lemma block_of_key_of [simp]: "block_of_key (key_of m) = block_of m"
  by (cases m) auto

lemma lookup_send [simp]: "lookup (send s m) k = lookup s k"
  by (cases m; cases k) (auto simp: Let_def)

lemma lookup_hold: "lookup (hold s m) k = (if k = key_of m then Some m else lookup s k)"
  by (cases m; cases k) (auto simp: gomap_simps)

lemma lookup_remove: "lookup (remove s k) k' = (if k' = k then None else lookup s k')"
  by (cases k; cases k') (auto simp: gomap_simps)

definition prunes :: "PreconfState \<Rightarrow> u64 \<Rightarrow> bool" where
  "prunes s n \<longleftrightarrow> \<not> n - lastBlockPruned s < 4"

lemma lookup_prune: "lookup (prune s n) k =
    (if prunes s n \<and> block_of_key k < n - 2 then None else lookup s k)"
  by (cases k) (auto simp: prune_def prunes_def PruneSafeWindow_def Let_def gomap_simps)

lemma lookup_l2 [simp]: "lookup (s\<lparr>lastL2BlockSent := x\<rparr>) k = lookup s k"
  by (cases k) auto

lemma lastBlockPruned_prune: "lastBlockPruned (prune s n) = (if prunes s n then n - 2 else lastBlockPruned s)"
  by (auto simp: prune_def prunes_def PruneSafeWindow_def Let_def)

lemma prune_fields [simp]:
  "lastEnvSent (prune s n) = lastEnvSent s" "lastFragSent (prune s n) = lastFragSent s"
  "lastSealSent (prune s n) = lastSealSent s" "lastL2BlockSent (prune s n) = lastL2BlockSent s"
  "lastBlockWithAllFrags (prune s n) = lastBlockWithAllFrags s"
  "engine_calls (prune s n) = engine_calls s"
  by (auto simp: prune_def Let_def)

lemma remove_fields [simp]:
  "lastEnvSent (remove s k) = lastEnvSent s" "lastFragSent (remove s k) = lastFragSent s"
  "lastSealSent (remove s k) = lastSealSent s" "lastL2BlockSent (remove s k) = lastL2BlockSent s"
  "lastBlockWithAllFrags (remove s k) = lastBlockWithAllFrags s"
  "lastBlockPruned (remove s k) = lastBlockPruned s" "engine_calls (remove s k) = engine_calls s"
  by (cases k; simp)+

lemma hold_fields [simp]:
  "lastEnvSent (hold s m) = lastEnvSent s" "lastFragSent (hold s m) = lastFragSent s"
  "lastSealSent (hold s m) = lastSealSent s" "lastL2BlockSent (hold s m) = lastL2BlockSent s"
  "lastBlockWithAllFrags (hold s m) = lastBlockWithAllFrags s"
  "lastBlockPruned (hold s m) = lastBlockPruned s" "engine_calls (hold s m) = engine_calls s"
  by (cases m; simp)+

lemma send_fields [simp]:
  "lastBlockPruned (send s m) = lastBlockPruned s" "engine_calls (send s m) = engine_calls s @ [m]"
  "lastL2BlockSent (send s m) = lastL2BlockSent s"
  by (cases m; simp add: Let_def)+

lemma emit_fields [simp]: "engine_calls (emit s m) = engine_calls s @ [m]"
  by (cases m) (auto simp: Let_def)

section \<open>Held messages stay inside the window\<close>

definition pending_ok :: "PreconfState \<Rightarrow> bool" where
  "pending_ok s \<longleftrightarrow> (\<forall>k m. lookup s k = Some m \<longrightarrow> key_of m = k \<and> lastBlockPruned s \<le> block_of m)"

lemma pending_ok_init: "pending_ok NewPreconfState"
  unfolding pending_ok_def
proof (intro allI impI)
  fix k m
  assume "lookup NewPreconfState k = Some m"
  then show "key_of m = k \<and> lastBlockPruned NewPreconfState \<le> block_of m"
    by (cases k) (auto simp: NewPreconfState_def)
qed

lemma pending_ok_prune: "pending_ok s \<Longrightarrow> pending_ok (prune s n)"
  unfolding pending_ok_def
proof (intro allI impI)
  fix k m
  assume *: "\<forall>k m. lookup s k = Some m \<longrightarrow> key_of m = k \<and> lastBlockPruned s \<le> block_of m"
    and l: "lookup (prune s n) k = Some m"
  from l have s: "lookup s k = Some m" and np: "\<not> (prunes s n \<and> block_of_key k < n - 2)"
    by (auto simp: lookup_prune split: if_splits)
  from * s have k: "key_of m = k" "lastBlockPruned s \<le> block_of m" by auto
  with np show "key_of m = k \<and> lastBlockPruned (prune s n) \<le> block_of m"
    by (auto simp: lastBlockPruned_prune simp flip: block_of_key_of)
qed

interpretation window: preconf_invariant pending_ok "\<lambda>_. True"
proof unfold_locales
  show "pending_ok NewPreconfState" by (rule pending_ok_init)
  show "pending_ok (prune s n)" if "pending_ok s" for s n using that by (rule pending_ok_prune)
qed (auto simp: pending_ok_def lookup_hold lookup_remove)

section \<open>Nothing is invented\<close>

definition from_inputs :: "PreconfMsg set \<Rightarrow> PreconfState \<Rightarrow> bool" where
  "from_inputs M s \<longleftrightarrow> set (engine_calls s) \<subseteq> M \<and> (\<forall>k m. lookup s k = Some m \<longrightarrow> m \<in> M)"

fun input_in :: "PreconfMsg set \<Rightarrow> PreconfInput \<Rightarrow> bool" where
  "input_in M (Msg m) \<longleftrightarrow> m \<in> M"
| "input_in M (L2Block b) \<longleftrightarrow> True"

lemma lookup_init [simp]: "lookup NewPreconfState k = None"
  by (cases k) (simp_all add: NewPreconfState_def)

interpretation provenance: preconf_invariant "from_inputs M" "input_in M" for M
proof unfold_locales
  show "from_inputs M NewPreconfState"
    by (simp add: from_inputs_def) (simp add: NewPreconfState_def)
qed (auto simp: from_inputs_def lookup_hold lookup_remove lookup_prune split: if_splits)

section \<open>The work of one input is bounded\<close>

lemma pending_size_hold: "pending_size (hold s m) \<le> Suc (pending_size s)"
  by (cases m) (simp_all add: pending_size_def gm.card_put)

lemma put_work:
  "length (engine_calls (put s m)) + pending_size (put s m) \<le> Suc (length (engine_calls s) + pending_size s)"
proof (induction s m rule: put_induct)
  case (step s m)
  show ?case
  proof (cases "ready s m")
    case True
    show ?thesis
    proof (cases "lookup (emit s m) (succ_key m)")
      case None
      with True show ?thesis
        using pending_size_emit [of s m] by (simp add: put_eq [of s m])
    next
      case (Some m')
      with True have "length (engine_calls (put s m)) + pending_size (put s m)
          \<le> Suc (length (engine_calls s @ [m]) + pending_size (remove (emit s m) (succ_key m)))"
        using step.IH [OF True Some] by (simp add: put_eq [of s m])
      with pending_size_remove [OF Some] pending_size_emit [of s m] show ?thesis by simp
    qed
  next
    case False
    then show ?thesis using pending_size_hold [of s m] by (simp add: put_eq [of s m])
  qed
qed


section \<open>The contract of the emitted call sequence\<close>

text \<open>
  What the engine sees is a list of calls. From that list alone one reads off the last env, frag,
  seal and closing frag sent; a call is in order with respect to the calls before it when its
  predecessor is the last one of its kind.
\<close>

fun upd_env :: "u64 option \<Rightarrow> PreconfMsg \<Rightarrow> u64 option" where
  "upd_env x (EnvMsg e) = Some (env_Number (se_Env e))"
| "upd_env x _ = x"

fun upd_frag :: "FragIndex option \<Rightarrow> PreconfMsg \<Rightarrow> FragIndex option" where
  "upd_frag x (FragMsg f) = Some (index (sf_Frag f))"
| "upd_frag x _ = x"

fun upd_closed :: "u64 option \<Rightarrow> PreconfMsg \<Rightarrow> u64 option" where
  "upd_closed x (FragMsg f) =
     (if frag_IsLast (sf_Frag f) then Some (frag_BlockNumber (sf_Frag f)) else x)"
| "upd_closed x _ = x"

fun upd_seal :: "u64 option \<Rightarrow> PreconfMsg \<Rightarrow> u64 option" where
  "upd_seal x (SealMsg l) = Some (seal_BlockNumber (ss_Seal l))"
| "upd_seal x _ = x"

fun call_ok :: "u64 set \<Rightarrow> PreconfMsg list \<Rightarrow> PreconfMsg \<Rightarrow> bool" where
  "call_ok L tr (EnvMsg e) \<longleftrightarrow>
     foldl upd_seal None tr = None \<or> foldl upd_seal None tr = Some (env_Number (se_Env e) - 1)
     \<or> env_Number (se_Env e) \<in> L"
| "call_ok L tr (FragMsg f) \<longleftrightarrow>
     frag_Seq (sf_Frag f) = 0 \<and> foldl upd_env None tr = Some (frag_BlockNumber (sf_Frag f))
     \<or> foldl upd_frag None tr = Some (prev (index (sf_Frag f)))"
| "call_ok L tr (SealMsg l) \<longleftrightarrow> foldl upd_closed None tr = Some (seal_BlockNumber (ss_Seal l))"

definition trace_ok :: "u64 set \<Rightarrow> PreconfMsg list \<Rightarrow> bool" where
  "trace_ok L tr \<longleftrightarrow> (\<forall>i < length tr. call_ok L (take i tr) (tr ! i))"

lemma trace_ok_Nil [simp]: "trace_ok L []"
  by (simp add: trace_ok_def)

lemma trace_ok_snoc: "trace_ok L (tr @ [m]) \<longleftrightarrow> trace_ok L tr \<and> call_ok L tr m"
  by (auto simp: trace_ok_def nth_append less_Suc_eq)

definition trace_inv :: "u64 set \<Rightarrow> PreconfState \<Rightarrow> bool" where
  "trace_inv L s \<longleftrightarrow>
     lastEnvSent s = foldl upd_env None (engine_calls s) \<and>
     lastFragSent s = foldl upd_frag None (engine_calls s) \<and>
     lastBlockWithAllFrags s = foldl upd_closed None (engine_calls s) \<and>
     lastSealSent s = foldl upd_seal None (engine_calls s) \<and>
     (\<forall>n. lastL2BlockSent s = Some n \<longrightarrow> n \<in> L) \<and> trace_ok L (engine_calls s)"

fun l2_in :: "u64 set \<Rightarrow> PreconfInput \<Rightarrow> bool" where
  "l2_in L (Msg m) \<longleftrightarrow> True"
| "l2_in L (L2Block b) \<longleftrightarrow> l2_Number b \<in> L"

lemma trace_inv_send: "trace_inv L s \<Longrightarrow> ready s m \<Longrightarrow> trace_inv L (send s m)"
  by (cases m) (auto simp: trace_inv_def trace_ok_snoc Let_def)

interpretation trace: preconf_invariant "trace_inv L" "l2_in L" for L
proof unfold_locales
  show "trace_inv L NewPreconfState" by (simp add: trace_inv_def NewPreconfState_def)
  show "trace_inv L (send s m)" if "trace_inv L s" "ready s m" for s m
    using that by (rule trace_inv_send)
qed (auto simp: trace_inv_def)

section \<open>In-order delivery\<close>

text \<open>
  The interface of an in-order buffer: \<open>C\<close> is the canonical sequence, \<open>at s k H\<close> says that in state
  \<open>s\<close> the first \<open>k\<close> elements of \<open>C\<close> are out, and that of the others exactly those in \<open>H\<close> are held
  (the next one is not). Receiving an element that is not next holds it; receiving the next one
  sends it and goes on with its held successor.
\<close>

locale in_order_buffer =
  fixes C :: "'m list"
    and at :: "'s \<Rightarrow> nat \<Rightarrow> 'm set \<Rightarrow> bool"
    and rcv :: "'s \<Rightarrow> 'm \<Rightarrow> 's"
    and out :: "'s \<Rightarrow> 'm list"
  assumes distinct_C: "at s k H \<Longrightarrow> distinct C"
    and at_held: "at s k H \<Longrightarrow> H \<subseteq> set (drop (Suc k) C)"
    and rcv_later: "at s k H \<Longrightarrow> k < j \<Longrightarrow> j < length C \<Longrightarrow>
       at (rcv s (C ! j)) k (insert (C ! j) H) \<and> out (rcv s (C ! j)) = out s"
    and rcv_next_held: "at s k H \<Longrightarrow> Suc k < length C \<Longrightarrow> C ! Suc k \<in> H \<Longrightarrow>
       \<exists>s'. rcv s (C ! k) = rcv s' (C ! Suc k) \<and> at s' (Suc k) (H - {C ! Suc k}) \<and> out s' = out s @ [C ! k]"
    and rcv_next_missing: "at s k H \<Longrightarrow> k < length C \<Longrightarrow> Suc k < length C \<longrightarrow> C ! Suc k \<notin> H \<Longrightarrow>
       at (rcv s (C ! k)) (Suc k) H \<and> out (rcv s (C ! k)) = out s @ [C ! k]"
begin

lemma rcv_next:
  assumes "at s k H" "k < length C"
  shows "\<exists>k' H'. k < k' \<and> k' \<le> length C \<and> at (rcv s (C ! k)) k' H'
           \<and> out (rcv s (C ! k)) @ drop k' C = out s @ drop k C
           \<and> set (drop k' C) - H' = set (drop k C) - H - {C ! k}"
  using assms
proof (induction "length C - k" arbitrary: s k H)
  case 0
  then show ?case by simp
next
  case (Suc n k s H)
  note d = distinct_C [OF Suc.prems(1)]
  have dk: "drop k C = C ! k # drop (Suc k) C" using Suc.prems(2) by (simp add: Cons_nth_drop_Suc)
  then have nk: "C ! k \<notin> set (drop (Suc k) C)" using d distinct_drop [of C k] by auto
  show ?case
  proof (cases "Suc k < length C \<and> C ! Suc k \<in> H")
    case True
    with rcv_next_held [OF Suc.prems(1)] obtain s' where
      s': "rcv s (C ! k) = rcv s' (C ! Suc k)" "at s' (Suc k) (H - {C ! Suc k})" "out s' = out s @ [C ! k]"
      by blast
    have "n = length C - Suc k" using Suc.hyps(2) by simp
    from Suc.hyps(1) [OF this s'(2)] True obtain k' H' where
      k': "Suc k < k'" "k' \<le> length C" "at (rcv s' (C ! Suc k)) k' H'"
        "out (rcv s' (C ! Suc k)) @ drop k' C = out s' @ drop (Suc k) C"
        "set (drop k' C) - H' = set (drop (Suc k) C) - (H - {C ! Suc k}) - {C ! Suc k}"
      by blast
    have "set (drop k' C) - H' = set (drop k C) - H - {C ! k}"
      using k'(5) nk True unfolding dk by auto
    with k' s' dk show ?thesis by (intro exI [of _ k'] exI [of _ H']) auto
  next
    case False
    then have "at (rcv s (C ! k)) (Suc k) H \<and> out (rcv s (C ! k)) = out s @ [C ! k]"
      using rcv_next_missing [OF Suc.prems] by blast
    moreover have "set (drop (Suc k) C) - H = set (drop k C) - H - {C ! k}"
      using nk unfolding dk by auto
    ultimately show ?thesis using Suc.prems(2) dk by (intro exI [of _ "Suc k"] exI [of _ H]) auto
  qed
qed

lemma delivers:
  assumes "at s k H" "k \<le> length C" "distinct ms" "set ms = set (drop k C) - H"
  shows "out (foldl rcv s ms) = out s @ drop k C"
  using assms
proof (induction ms arbitrary: s k H)
  case Nil
  from at_held [OF Nil.prems(1)] Nil.prems(4) have "k = length C \<or> C ! k \<in> set (drop (Suc k) C)"
    using Nil.prems(2) by (cases "k < length C") (auto simp: Cons_nth_drop_Suc [symmetric])
  moreover have "k < length C \<Longrightarrow> C ! k \<notin> set (drop (Suc k) C)"
    using distinct_drop [OF distinct_C [OF Nil.prems(1)], of k] by (simp add: Cons_nth_drop_Suc [symmetric])
  ultimately have "k = length C" using Nil.prems(2) by (cases "k < length C") auto
  then show ?case by simp
next
  case (Cons m ms)
  then have m: "m \<in> set (drop k C)" "m \<notin> H" and ms: "set ms = set (drop k C) - H - {m}"
    by auto
  from m obtain j where j: "k \<le> j" "j < length C" "m = C ! j"
    by (metis Cons.prems(2) in_set_conv_nth le_add1 length_drop less_diff_conv add.commute nth_drop)
  show ?case
  proof (cases "j = k")
    case True
    with rcv_next [OF Cons.prems(1)] j obtain k' H' where
      k': "k < k'" "k' \<le> length C" "at (rcv s m) k' H'" "out (rcv s m) @ drop k' C = out s @ drop k C"
        "set (drop k' C) - H' = set (drop k C) - H - {m}"
      by blast
    have "out (foldl rcv (rcv s m) ms) = out (rcv s m) @ drop k' C"
      using k' Cons.prems(3) ms by (intro Cons.IH [of _ k' H']) auto
    then show ?thesis using k'(4) by simp
  next
    case False
    with rcv_later [OF Cons.prems(1), of j] j
    have r: "at (rcv s m) k (insert m H)" "out (rcv s m) = out s" by auto
    have "out (foldl rcv (rcv s m) ms) = out (rcv s m) @ drop k C"
      using r Cons.prems(2,3) ms by (intro Cons.IH [of _ k "insert m H"]) auto
    then show ?thesis using r by simp
  qed
qed

end


subsection \<open>The preconfirmation state is an in-order buffer\<close>

definition canonical :: "PreconfMsg list \<Rightarrow> bool" where
  "canonical C \<longleftrightarrow> C \<noteq> [] \<and> successively (\<lambda>m m'. key_of m' = succ_key m) C
     \<and> distinct (map key_of C @ [succ_key (last C)]) \<and> sorted (map (\<lambda>m. unat (block_of m)) C)"

definition buffered :: "PreconfMsg list \<Rightarrow> PreconfState \<Rightarrow> nat \<Rightarrow> PreconfMsg set \<Rightarrow> bool" where
  "buffered C s k H \<longleftrightarrow> canonical C \<and> H \<subseteq> set (drop (Suc k) C) \<and> lookup s (succ_key (last C)) = None
     \<and> (\<forall>j. k \<le> j \<and> j < length C \<longrightarrow>
          lookup s (key_of (C ! j)) = (if C ! j \<in> H then Some (C ! j) else None)
          \<and> (ready s (C ! j) \<longleftrightarrow> j = k) \<and> lastBlockPruned s \<le> block_of (C ! j))"

lemma canonical_succ: "canonical C \<Longrightarrow> Suc k < length C \<Longrightarrow> key_of (C ! Suc k) = succ_key (C ! k)"
  by (auto simp: canonical_def successively_conv_nth)

lemma canonical_key_inj:
  "canonical C \<Longrightarrow> i < length C \<Longrightarrow> j < length C \<Longrightarrow> key_of (C ! i) = key_of (C ! j) \<longleftrightarrow> i = j"
  using nth_eq_iff_index_eq [of "map key_of C" i j] by (simp add: canonical_def)

lemma canonical_distinct: "canonical C \<Longrightarrow> distinct C"
  by (auto simp: canonical_def distinct_map)

lemma canonical_mono:
  "canonical C \<Longrightarrow> i \<le> j \<Longrightarrow> j < length C \<Longrightarrow> block_of (C ! i) \<le> block_of (C ! j)"
  using sorted_nth_mono [of "map (\<lambda>m. unat (block_of m)) C" i j]
  by (simp add: canonical_def word_le_nat_alt)

lemma canonical_last: "canonical C \<Longrightarrow> j < length C \<Longrightarrow> key_of (C ! j) \<noteq> succ_key (last C)"
proof
  assume "canonical C" "j < length C" and e: "key_of (C ! j) = succ_key (last C)"
  moreover from \<open>j < length C\<close> have "key_of (C ! j) \<in> key_of ` set C" by simp
  ultimately show False unfolding e by (simp add: canonical_def)
qed

lemma ready_hold [simp]: "ready (hold s m) m' = ready s m'"
  by (cases m') auto

lemma ready_remove [simp]: "ready (remove s k) m' = ready s m'"
  by (cases m') auto

lemma ready_emit_send: "ready (emit s m) m' = ready (send s m) m'"
  by (cases m; cases m') auto

lemma prev_eq_iff: "i = prev i' \<longleftrightarrow> i' = next_idx i"
  by (auto simp: prev_def next_idx_def)

lemma index_iff: "index f = \<lparr>fi_BlockNumber = n, fi_Sequence = q\<rparr> \<longleftrightarrow> frag_BlockNumber f = n \<and> frag_Seq f = q"
  by (auto simp: index_def)

lemma ready_send:
  assumes "\<not> ready s m'"
    and "\<And>f. m = FragMsg f \<Longrightarrow> frag_IsLast (sf_Frag f) \<Longrightarrow> key_of m' \<noteq> FragKey (next_idx (index (sf_Frag f)))"
  shows "ready (send s m) m' \<longleftrightarrow> key_of m' = succ_key m"
  using assms
  by (cases m; cases m') (auto simp: Let_def index_iff prev_eq_iff [symmetric] eq_diff_eq)

lemma sub2_le: "lbp \<le> n \<Longrightarrow> \<not> n - lbp < 4 \<Longrightarrow> n - 2 \<le> (n :: u64)"
  by (simp add: word_le_nat_alt word_less_nat_alt unat_sub_if')

lemma emit_pruned: "lastBlockPruned s \<le> block_of m \<Longrightarrow> lastBlockPruned (emit s m) \<le> block_of m"
  by (cases m) (auto simp: lastBlockPruned_prune prunes_def sub2_le Let_def)

lemma emit_lookup: "lastBlockPruned s \<le> block_of m \<Longrightarrow> block_of m \<le> block_of_key k \<Longrightarrow>
    lookup (emit s m) k = lookup s k"
proof (cases m)
  case (EnvMsg e)
  assume *: "lastBlockPruned s \<le> block_of m" "block_of m \<le> block_of_key k"
  { assume "prunes (send s m) (block_of m)"
    then have "block_of m - 2 \<le> block_of m" using * by (intro sub2_le) (auto simp: prunes_def)
    with * have "\<not> block_of_key k < block_of m - 2" by (meson leD order_trans) }
  with EnvMsg show ?thesis by (auto simp: lookup_prune simp del: send.simps)
qed (simp_all del: send.simps)

lemma emit_lookup_None: "lookup s k = None \<Longrightarrow> lookup (emit s m) k = None"
  by (cases m) (auto simp: lookup_prune simp del: send.simps)

text \<open>After the closing frag of a block no further frag of that block is due.\<close>

lemma canonical_no_frag_after_last:
  assumes C: "canonical C" and k: "k < length C" "C ! k = FragMsg f" "frag_IsLast (sf_Frag f)"
    and j: "k < j" "j < length C"
  shows "key_of (C ! j) \<noteq> FragKey (next_idx (index (sf_Frag f)))"
proof
  assume e: "key_of (C ! j) = FragKey (next_idx (index (sf_Frag f)))"
  let ?n = "frag_BlockNumber (sf_Frag f)"
  from canonical_succ [OF C, of k] k j have s1: "key_of (C ! Suc k) = SealKey ?n" by simp
  with e j have "Suc (Suc k) \<le> j" by (cases "j = Suc k") auto
  with j have k2: "Suc (Suc k) < length C" "Suc (Suc k) \<le> j" by auto
  from s1 obtain l where l: "C ! Suc k = SealMsg l" "seal_BlockNumber (ss_Seal l) = ?n"
    by (cases "C ! Suc k") auto
  with canonical_succ [OF C, of "Suc k"] k2 have s2: "key_of (C ! Suc (Suc k)) = EnvKey (?n + 1)" by simp
  then have b2: "block_of (C ! Suc (Suc k)) = ?n + 1" by (metis block_of_key.simps(1) block_of_key_of)
  have "?n \<le> ?n + 1"
    using canonical_mono [OF C, of "Suc k" "Suc (Suc k)"] k2 l b2 by simp
  moreover have "block_of (C ! j) = ?n"
    using e by (metis block_of_key.simps(2) block_of_key_of fi_BlockNumber_index next_idx_def FragIndex.select_convs(1))
  then have "?n + 1 \<le> ?n"
    using canonical_mono [OF C k2(2) j(2)] b2 by simp
  ultimately show False by simp
qed

lemma buffered_emit:
  assumes b: "buffered C s k H" and k: "k < length C"
  defines "t \<equiv> emit s (C ! k)"
  shows "\<forall>j. k < j \<and> j < length C \<longrightarrow>
          lookup t (key_of (C ! j)) = (if C ! j \<in> H then Some (C ! j) else None)
          \<and> (ready t (C ! j) \<longleftrightarrow> j = Suc k) \<and> lastBlockPruned t \<le> block_of (C ! j)"
    and "lookup t (succ_key (last C)) = None"
proof -
  from b have C: "canonical C" by (simp add: buffered_def)
  from b k have p: "lastBlockPruned s \<le> block_of (C ! k)" by (simp add: buffered_def)
  from b show "lookup t (succ_key (last C)) = None"
    by (simp add: t_def buffered_def emit_lookup_None)
  show "\<forall>j. k < j \<and> j < length C \<longrightarrow>
          lookup t (key_of (C ! j)) = (if C ! j \<in> H then Some (C ! j) else None)
          \<and> (ready t (C ! j) \<longleftrightarrow> j = Suc k) \<and> lastBlockPruned t \<le> block_of (C ! j)"
  proof (intro allI impI)
    fix j
    assume j: "k < j \<and> j < length C"
    then have mono: "block_of (C ! k) \<le> block_of (C ! j)" using canonical_mono [OF C] by simp
    have "\<not> ready s (C ! j)" using b j by (auto simp: buffered_def)
    then have "ready t (C ! j) \<longleftrightarrow> key_of (C ! j) = succ_key (C ! k)"
      unfolding t_def ready_emit_send
      using canonical_no_frag_after_last [OF C k] j by (intro ready_send) auto
    also have "\<dots> \<longleftrightarrow> j = Suc k"
    proof
      assume e: "key_of (C ! j) = succ_key (C ! k)"
      have "Suc k < length C" using j by simp
      with e canonical_succ [OF C] have "key_of (C ! j) = key_of (C ! Suc k)" by simp
      with canonical_key_inj [OF C] j show "j = Suc k" by simp
    qed (use canonical_succ [OF C, of k] j in simp)
    finally have r: "ready t (C ! j) \<longleftrightarrow> j = Suc k" .
    moreover have "lookup t (key_of (C ! j)) = lookup s (key_of (C ! j))"
      unfolding t_def using p mono by (intro emit_lookup) simp_all
    moreover have "lastBlockPruned t \<le> block_of (C ! j)"
      using emit_pruned [OF p] mono by (simp add: t_def)
    ultimately show "lookup t (key_of (C ! j)) = (if C ! j \<in> H then Some (C ! j) else None)
          \<and> (ready t (C ! j) \<longleftrightarrow> j = Suc k) \<and> lastBlockPruned t \<le> block_of (C ! j)"
      using b j by (auto simp: buffered_def)
  qed
qed

interpretation preconf_buffer: in_order_buffer C "buffered C" put engine_calls for C
proof unfold_locales
  fix s k H
  assume b: "buffered C s k H"
  then have C: "canonical C" by (simp add: buffered_def)
  show "distinct C" using C by (rule canonical_distinct)
  show "H \<subseteq> set (drop (Suc k) C)" using b by (simp add: buffered_def)
  { fix j
    assume j: "k < j" "j < length C"
    have "put s (C ! j) = hold s (C ! j)"
      using b j by (auto simp: put_eq [of s] buffered_def)
    moreover have "C ! j \<in> set (drop (Suc k) C)"
      using j by (auto simp: in_set_conv_nth intro!: exI [of _ "j - Suc k"])
    ultimately show "buffered C (put s (C ! j)) k (insert (C ! j) H) \<and> engine_calls (put s (C ! j)) = engine_calls s"
      using b j C canonical_last [OF C j(2)] nth_eq_iff_index_eq [OF canonical_distinct [OF C]]
      by (auto simp: buffered_def lookup_hold canonical_key_inj) }
  { assume k: "Suc k < length C" and h: "C ! Suc k \<in> H"
    let ?t = "remove (emit s (C ! k)) (succ_key (C ! k))"
    from buffered_emit [OF b] k have e:
      "\<And>j. k < j \<Longrightarrow> j < length C \<Longrightarrow>
          lookup (emit s (C ! k)) (key_of (C ! j)) = (if C ! j \<in> H then Some (C ! j) else None)
          \<and> (ready (emit s (C ! k)) (C ! j) \<longleftrightarrow> j = Suc k) \<and> lastBlockPruned (emit s (C ! k)) \<le> block_of (C ! j)"
      "lookup (emit s (C ! k)) (succ_key (last C)) = None" by auto
    have sk: "succ_key (C ! k) = key_of (C ! Suc k)" using canonical_succ [OF C k] by simp
    have "ready s (C ! k)" using b k by (auto simp: buffered_def)
    moreover have "lookup (emit s (C ! k)) (succ_key (C ! k)) = Some (C ! Suc k)"
      using e(1) [of "Suc k"] k h sk by simp
    ultimately have "put s (C ! k) = put ?t (C ! Suc k)" by (simp add: put_eq [of s])
    moreover have "H - {C ! Suc k} \<subseteq> set (drop (Suc (Suc k)) C)"
      using b k by (auto simp: buffered_def Cons_nth_drop_Suc [symmetric])
    then have "buffered C ?t (Suc k) (H - {C ! Suc k})"
      using C e k sk nth_eq_iff_index_eq [OF canonical_distinct [OF C]]
      by (auto simp: buffered_def lookup_remove canonical_key_inj)
    ultimately show "\<exists>s'. put s (C ! k) = put s' (C ! Suc k) \<and> buffered C s' (Suc k) (H - {C ! Suc k})
        \<and> engine_calls s' = engine_calls s @ [C ! k]"
      by (intro exI [of _ ?t]) simp }
  { assume k: "k < length C" and h: "Suc k < length C \<longrightarrow> C ! Suc k \<notin> H"
    let ?t = "emit s (C ! k)"
    note e = buffered_emit [OF b k]
    have "lookup ?t (succ_key (C ! k)) = None"
    proof (cases "Suc k < length C")
      case True
      then show ?thesis using e(1) h canonical_succ [OF C True] by (metis lessI)
    next
      case False
      with k have "last C = C ! k" by (metis Suc_lessI diff_Suc_1 last_conv_nth length_0_conv not_less0)
      with e(2) show ?thesis by simp
    qed
    moreover have "ready s (C ! k)" using b k by (auto simp: buffered_def)
    ultimately have "put s (C ! k) = ?t" by (simp add: put_eq [of s])
    moreover have "H \<subseteq> set (drop (Suc (Suc k)) C)"
    proof (cases "Suc k < length C")
      case True
      with b h show ?thesis by (auto simp: buffered_def Cons_nth_drop_Suc [symmetric])
    qed (use b in \<open>auto simp: buffered_def\<close>)
    ultimately show "buffered C (put s (C ! k)) (Suc k) H \<and> engine_calls (put s (C ! k)) = engine_calls s @ [C ! k]"
      using C e by (auto simp: buffered_def) }
qed


section \<open>Properties\<close>

lemma buffered_start:
  assumes "canonical C" "\<forall>j < length C. ready s (C ! j) \<longleftrightarrow> j = 0"
    "\<forall>k \<in> key_of ` set C \<union> {succ_key (last C)}. lookup s k = None"
    "\<forall>m \<in> set C. lastBlockPruned s \<le> block_of m"
  shows "buffered C s 0 {}"
  using assms by (auto simp: buffered_def)

lemma in_order_delivery:
  assumes "canonical C"
    and "\<forall>j < length C. ready s (C ! j) \<longleftrightarrow> j = 0"
    and "\<forall>k \<in> key_of ` set C \<union> {succ_key (last C)}. lookup s k = None"
    and "\<forall>m \<in> set C. lastBlockPruned s \<le> block_of m"
    and "mset ms = mset C"
  shows "engine_calls (foldl put s ms) = engine_calls s @ C"
proof -
  have b: "buffered C s 0 {}" using assms(1-4) by (rule buffered_start)
  have "distinct C" using assms(1) by (rule canonical_distinct)
  then have "distinct ms" using mset_eq_imp_distinct_iff [OF assms(5)] by blast
  moreover have "set ms = set C" using assms(5) by (rule mset_eq_setD)
  ultimately show ?thesis using preconf_buffer.delivers [OF b, of ms] by simp
qed

text \<open>C3. In-order delivery. Let \<open>C\<close> be a canonical run of messages: each one is the successor of the
  one before (env, frags by sequence number, seal, env of the next block). If only its first message
  may be sent now, nothing of it is held and it lies inside the window, then whatever order its
  messages arrive in, the engine receives exactly \<open>C\<close>, each message once and in canonical order.\<close>

theorem preconf_in_order_delivery:
  assumes "canonical C"
    and "\<forall>j < length C. ready s (C ! j) \<longleftrightarrow> j = 0"
    and "\<forall>k \<in> key_of ` set C \<union> {succ_key (last C)}. lookup s k = None"
    and "\<forall>m \<in> set C. lastBlockPruned s \<le> block_of m"
    and "mset ms = mset C"
  shows "engine_calls (foldl put s ms) = engine_calls s @ C"
  by (rule in_order_delivery [OF assms])

definition ex_env :: "u64 \<Rightarrow> PreconfMsg" where
  "ex_env n = EnvMsg \<lparr>se_Signature = [], se_Env =
     \<lparr>env_Number = n, env_ParentHash = [], env_Beneficiary = [], env_Timestamp = 0, env_GasLimit = 0,
      env_Basefee = 0, env_Difficulty = 0, env_Prevrandao = [], env_ExtraData = [],
      env_ParentBeaconBlockRoot = []\<rparr>\<rparr>"

definition ex_frag :: "u64 \<Rightarrow> u64 \<Rightarrow> bool \<Rightarrow> PreconfMsg" where
  "ex_frag n q l = FragMsg \<lparr>sf_Signature = [], sf_Frag =
     \<lparr>frag_BlockNumber = n, frag_Seq = q, frag_IsLast = l, frag_Txs = []\<rparr>\<rparr>"

definition ex_seal :: "u64 \<Rightarrow> PreconfMsg" where
  "ex_seal n = SealMsg \<lparr>ss_Signature = [], ss_Seal =
     \<lparr>seal_TotalFrags = 0, seal_BlockNumber = n, seal_GasUsed = 0, seal_GasLimit = 0,
      seal_ParentHash = [], seal_TransactionsRoot = [], seal_ReceiptsRoot = [],
      seal_StateRoot = [], seal_BlockHash = []\<rparr>\<rparr>"

lemmas ex_msgs = ex_env_def ex_frag_def ex_seal_def

definition ex_run :: "PreconfMsg list" where
  "ex_run = [ex_env 7, ex_frag 7 0 False, ex_frag 7 1 True, ex_seal 7, ex_env 8, ex_frag 8 0 True, ex_seal 8]"

definition ex_arrivals :: "PreconfMsg list" where
  "ex_arrivals = [ex_seal 8, ex_env 8, ex_frag 7 1 True, ex_frag 8 0 True, ex_seal 7, ex_env 7, ex_frag 7 0 False]"

theorem preconf_in_order_delivery_witness:
  "engine_calls (foldl put (NewPreconfState\<lparr>lastSealSent := Some 6\<rparr>) ex_arrivals)
     = engine_calls (NewPreconfState\<lparr>lastSealSent := Some 6\<rparr>) @ ex_run"
proof (rule preconf_in_order_delivery)
  show "canonical ex_run"
    by (simp add: canonical_def ex_run_def ex_msgs index_def next_idx_def)
  show "\<forall>j < length ex_run. ready (NewPreconfState\<lparr>lastSealSent := Some 6\<rparr>) (ex_run ! j) \<longleftrightarrow> j = 0"
    by (simp add: ex_run_def ex_msgs index_def NewPreconfState_def All_less_Suc)
  show "\<forall>k \<in> key_of ` set ex_run \<union> {succ_key (last ex_run)}. lookup (NewPreconfState\<lparr>lastSealSent := Some 6\<rparr>) k = None"
    by (simp add: ex_run_def ex_msgs index_def NewPreconfState_def)
  show "\<forall>m \<in> set ex_run. lastBlockPruned (NewPreconfState\<lparr>lastSealSent := Some 6\<rparr>) \<le> block_of m"
    by (simp add: NewPreconfState_def)
  show "mset ex_arrivals = mset ex_run"
    by (simp add: ex_arrivals_def ex_run_def add_mset_commute)
qed

text \<open>C27. The call sequence contract. After any sequence of inputs, in any order and with any content,
  every call the engine received was in order with respect to the calls before it: a frag follows
  the frag with the previous sequence number of its block (or, with sequence number 0, the env of
  its block), a seal follows the closing frag of its block, and once a seal was sent an env follows
  the seal of the previous block or belongs to an L2 block the node was told of.\<close>

theorem preconf_call_contract:
  "trace_ok {l2_Number b | b. L2Block b \<in> set inputs} (engine_calls (preconfHandler inputs))"
proof -
  let ?L = "{l2_Number b | b. L2Block b \<in> set inputs}"
  have "trace_inv ?L (preconfHandler inputs)"
  proof (rule trace.I_preconfHandler)
    fix i assume "i \<in> set inputs"
    then show "l2_in ?L i" by (cases i rule: PreconfInput.exhaust) auto
  qed
  then show ?thesis by (simp add: trace_inv_def)
qed

text \<open>No invention. Every message handed to the engine, and every message still held, is one that
  was received; the handler never makes up or alters a message.\<close>

theorem preconf_no_invention:
  "from_inputs {m. Msg m \<in> set inputs} (preconfHandler inputs)"
proof (rule provenance.I_preconfHandler)
  fix i assume "i \<in> set inputs"
  then show "input_in {m. Msg m \<in> set inputs} i" by (cases i rule: PreconfInput.exhaust) auto
qed

text \<open>C28. The pending maps. After any sequence of inputs every held message is filed under its own key
  and belongs to a block not below the prune mark, so pruned blocks leave nothing behind.\<close>

theorem preconf_pending_window: "pending_ok (preconfHandler inputs)"
  by (rule window.I_preconfHandler) simp

lemma putL2Block_work:
  "length (engine_calls (putL2Block s b)) + pending_size (putL2Block s b)
     \<le> length (engine_calls s) + pending_size s"
proof (cases "gm_get (pendingEnvs s) (l2_Number b)")
  case None
  then show ?thesis
    using pending_size_prune [of "s\<lparr>lastL2BlockSent := Some (l2_Number b)\<rparr>" "l2_Number b"]
    by (simp add: putL2Block_def Option_Set_def pending_size_def)
next
  case (Some e)
  let ?s = "s\<lparr>lastL2BlockSent := Some (l2_Number b), pendingEnvs := gm_del (l2_Number b) (pendingEnvs s)\<rparr>"
  have "length (engine_calls (putEnv ?s e)) + pending_size (putEnv ?s e) \<le> Suc (length (engine_calls ?s) + pending_size ?s)"
    using put_work [of ?s "EnvMsg e"] by simp
  moreover have "pending_size ?s < pending_size s"
    using length_gm_del_less [OF Some] by (simp add: pending_size_def)
  ultimately show ?thesis
    using Some pending_size_prune [of "putEnv ?s e" "l2_Number b"]
    by (simp add: putL2Block_def Option_Set_def)
qed

text \<open>Bounded work. The mutual recursion of the three handlers ends, and one input grows the calls
  made plus the messages held by at most one: an input can release held messages, but the engine
  calls it causes number at most one more than the messages it takes out of the pending maps.\<close>

theorem preconf_bounded_work:
  "length (engine_calls (handle s i)) + pending_size (handle s i)
     \<le> Suc (length (engine_calls s) + pending_size s)"
proof (cases i)
  case (Msg m)
  then show ?thesis by (simp add: put_work)
next
  case (L2Block b)
  then show ?thesis using putL2Block_work [of s b] by simp
qed

text \<open>The prune mark can move back. The distance to the prune mark is computed in 64-bit wrap-around
  arithmetic, so a block number below the mark does not count as close to it: \<^verbatim>\<open>prune\<close> runs and sets
  the mark to two below that older block.\<close>

theorem prune_mark_moves_back:
  assumes "2 \<le> n" and "n < lastBlockPruned s" and "lastBlockPruned s - n \<le> 2 ^ 63"
  shows "lastBlockPruned (prune s n) = n - 2 \<and> lastBlockPruned (prune s n) < lastBlockPruned s"
proof -
  have "prunes s n"
    using assms by (auto simp: prunes_def word_le_nat_alt word_less_nat_alt unat_sub_if')
  then have "lastBlockPruned (prune s n) = n - 2" by (simp add: lastBlockPruned_prune)
  with assms(1,2) show ?thesis by (simp add: word_le_nat_alt word_less_nat_alt unat_sub_if')
qed

theorem prune_mark_moves_back_witness:
  "lastBlockPruned (prune (NewPreconfState\<lparr>lastBlockPruned := 10\<rparr>) 5) = 3
   \<and> lastBlockPruned (prune (NewPreconfState\<lparr>lastBlockPruned := 10\<rparr>) 5) < 10"
  using prune_mark_moves_back [of 5 "NewPreconfState\<lparr>lastBlockPruned := 10\<rparr>"] by simp

end
