(* ===== verification/Unsealed.thy ===== *)
theory Unsealed
  imports Eth_Types
begin

text \<open>
  The unsealed block of op-geth: \<^verbatim>\<open>core/types/unsealed_block.go\<close>, its place in the block chain
  (\<^verbatim>\<open>core/blockchain.go\<close>, \<^verbatim>\<open>core/blockchain_insert.go\<close>), the per-frag execution loop
  (\<^verbatim>\<open>core/state_processor.go\<close>), sealing (\<^verbatim>\<open>beacon/engine/types.go\<close>) and the three engine API
  handlers (\<^verbatim>\<open>eth/catalyst/api.go\<close>). The EVM, the state database, the trie hashes and the block
  validation they call are parameters, collected in the record \<open>Ops\<close>.
\<close>

section \<open>Data\<close>

type_synonym Transaction = bytes
type_synonym Log = bytes
type_synonym Request = bytes

record Frag =
  gf_BlockNumber :: u64
  gf_Seq :: u64
  gf_IsLast :: bool
  gf_Txs :: "Transaction list"

text \<open>
  The fields of a receipt that execution fills in. The effective gas price and the L1 fee fields are
  left unset by \<^verbatim>\<open>MakeReceipt\<close>; a log is its consensus encoding.
\<close>

record Receipt =
  rc_Type :: u8
  rc_PostState :: bytes
  rc_Status :: u64
  rc_CumulativeGasUsed :: u64
  rc_Bloom :: bytes
  rc_Logs :: "Log list"
  rc_TxHash :: Hash
  rc_ContractAddress :: Address
  rc_GasUsed :: u64
  rc_BlobGasUsed :: u64
  rc_BlobGasPrice :: "nat option"
  rc_DepositNonce :: "u64 option"
  rc_DepositReceiptVersion :: "u64 option"
  rc_BlockHash :: Hash
  rc_BlockNumber :: nat
  rc_TransactionIndex :: nat

record UnsealedBlock =
  ub_Env :: Env
  ub_Frags :: "Frag list"
  ub_LastSequenceNumber :: "u64 option"
  ub_Hash :: Hash
  ub_Receipts :: "Receipt list"
  ub_Logs :: "Log list"
  ub_Requests :: "Request list"
  ub_CumulativeGasUsed :: u64
  ub_CumulativeBlobGasUsed :: u64

definition NewUnsealedBlock :: "Env \<Rightarrow> UnsealedBlock" where
  "NewUnsealedBlock e =
     \<lparr>ub_Env = e, ub_Frags = [], ub_LastSequenceNumber = None, ub_Hash = replicate 32 0,
      ub_Receipts = [], ub_Logs = [], ub_Requests = [],
      ub_CumulativeGasUsed = 0, ub_CumulativeBlobGasUsed = 0\<rparr>"

definition IsOpened :: "UnsealedBlock option \<Rightarrow> bool" where
  "IsOpened ub \<longleftrightarrow> ub \<noteq> None"

definition IsEmpty :: "UnsealedBlock \<Rightarrow> bool" where
  "IsEmpty ub \<longleftrightarrow> length (ub_Frags ub) = 0"

definition IsFirst :: "Frag \<Rightarrow> bool" where
  "IsFirst f \<longleftrightarrow> gf_Seq f = 0"

text \<open>\<open>None\<close> is the index-out-of-range panic of \<^verbatim>\<open>ub.Frags[*ub.LastSequenceNumber]\<close>.\<close>

definition IsNextFrag :: "UnsealedBlock \<Rightarrow> Frag \<Rightarrow> bool option" where
  "IsNextFrag ub f =
     (case ub_LastSequenceNumber ub of
        None \<Rightarrow> Some (IsFirst f)
      | Some lastSeq \<Rightarrow>
          if unat lastSeq < length (ub_Frags ub)
          then let lastKnownFrag = ub_Frags ub ! unat lastSeq in
               Some (if gf_IsLast lastKnownFrag then False else gf_Seq lastKnownFrag + 1 = gf_Seq f)
          else None)"

text \<open>
  \<^verbatim>\<open>Frag.UnmarshalJSON\<close> after the JSON decoder has filled the intermediate struct, which has the fields
  of \<open>NewFrag\<close>; \<open>unmarshal\<close> is \<^verbatim>\<open>Transaction.UnmarshalBinary\<close>.
\<close>

fun unmarshal_txs :: "(bytes \<Rightarrow> string + Transaction) \<Rightarrow> bytes list \<Rightarrow> string + Transaction list" where
  "unmarshal_txs unmarshal [] = Inr []"
| "unmarshal_txs unmarshal (d # ds) =
     (case unmarshal d of
        Inl e \<Rightarrow> Inl e
      | Inr tx \<Rightarrow> (case unmarshal_txs unmarshal ds of Inl e \<Rightarrow> Inl e | Inr txs \<Rightarrow> Inr (tx # txs)))"

definition Frag_UnmarshalJSON :: "(bytes \<Rightarrow> string + Transaction) \<Rightarrow> NewFrag \<Rightarrow> string + Frag" where
  "Frag_UnmarshalJSON unmarshal frag =
     (case unmarshal_txs unmarshal (frag_Txs frag) of
        Inl e \<Rightarrow> Inl e
      | Inr txs \<Rightarrow> Inr \<lparr>gf_BlockNumber = frag_BlockNumber frag, gf_Seq = frag_Seq frag,
                       gf_IsLast = frag_IsLast frag, gf_Txs = txs\<rparr>)"

definition ub_Transactions :: "UnsealedBlock \<Rightarrow> Transaction list" where
  "ub_Transactions ub = concat (map gf_Txs (ub_Frags ub))"

record Header =
  h_ParentHash :: Hash
  h_UncleHash :: Hash
  h_Coinbase :: Address
  h_Root :: Hash
  h_TxHash :: Hash
  h_ReceiptHash :: Hash
  h_Bloom :: bytes
  h_Difficulty :: nat
  h_Number :: nat
  h_GasLimit :: u64
  h_GasUsed :: u64
  h_Time :: u64
  h_Extra :: bytes
  h_MixDigest :: Hash
  h_Nonce :: u64
  h_BaseFee :: "nat option"
  h_WithdrawalsHash :: "Hash option"
  h_BlobGasUsed :: "u64 option"
  h_ExcessBlobGas :: "u64 option"
  h_ParentBeaconRoot :: "Hash option"
  h_RequestsHash :: "Hash option"

record Block =
  b_Header :: Header
  b_Transactions :: "Transaction list"
  b_Requests :: "Request list"

definition TempHeader :: "UnsealedBlock \<Rightarrow> Header" where
  "TempHeader ub =
     \<lparr>h_ParentHash = env_ParentHash (ub_Env ub), h_UncleHash = replicate 32 0,
      h_Coinbase = replicate 20 0, h_Root = replicate 32 0, h_TxHash = replicate 32 0,
      h_ReceiptHash = replicate 32 0, h_Bloom = replicate 256 0,
      h_Difficulty = unat (env_Difficulty (ub_Env ub)), h_Number = unat (env_Number (ub_Env ub)),
      h_GasLimit = env_GasLimit (ub_Env ub), h_GasUsed = 0, h_Time = env_Timestamp (ub_Env ub),
      h_Extra = env_ExtraData (ub_Env ub), h_MixDigest = replicate 32 0, h_Nonce = 0,
      h_BaseFee = Some (unat (env_Basefee (ub_Env ub))), h_WithdrawalsHash = None,
      h_BlobGasUsed = None, h_ExcessBlobGas = None,
      h_ParentBeaconRoot = Some (env_ParentBeaconBlockRoot (ub_Env ub)), h_RequestsHash = None\<rparr>"

section \<open>The chain and the code the unsealed block relies on\<close>

record 'st BlockChain =
  bc_blocks :: "(Hash \<times> u64, Block) gomap"
  bc_numbers :: "(Hash, u64) gomap"
  bc_blockCache :: "(Hash, Block) gomap"
  bc_currentBlock :: Block
  currentUnsealedBlock :: "UnsealedBlock option"
  unsealedBlockDbState :: "'st option"

text \<open>
  What the unsealed block relies on. \<open>verify_block\<close> is what \<^verbatim>\<open>insertChain\<close> checks of a block against
  the chain it is inserted in, the presence of its parent included; \<open>set_canonical_ok\<close> is that
  \<^verbatim>\<open>SetCanonical\<close> succeeds. \<open>apply_msg header i tx st gp\<close> is signer recovery and \<^verbatim>\<open>ApplyMessage\<close> followed by the state
  finalisation of \<^verbatim>\<open>ApplyTransactionWithEVM\<close>: on success the new state, the remaining gas pool and
  the execution result. \<open>pre_block\<close> is what \<^verbatim>\<open>ProcessWithCumulativeGas\<close> does to the
  state before the first transaction, \<open>finalize\<close> the consensus engine's \<^verbatim>\<open>Finalize\<close>.
\<close>

datatype EngineErr =
  NoUnsealedBlockOpened
| FragBlockNumberMismatch u64 u64
| FragNotNext u64 u64
| UnsealedStateNotSet
| ProcessFailed string
| InsertFailed string
| PreSealedNotFound u64
| NoUnsealedInProgress
| BlockHashMismatch | ParentHashMismatch | StateRootMismatch | TransactionsRootMismatch
| ReceiptsRootMismatch | GasUsedMismatch | GasLimitMismatch | TotalFragsMismatch
| CannotUpdateCanonical
| NoParentBlock
| UnsealedAlreadyInProgress
| EnvNumberMismatch u64 u64
| EnvTimestampTooLow u64 u64
| ParentNotFound
| StateUnavailable string

record ExecutionResult =
  er_UsedGas :: u64
  er_Failed :: bool
  er_Logs :: "Log list"

record 'st Ops =
  StateAt :: "'st BlockChain \<Rightarrow> Hash \<Rightarrow> string + 'st"
  pre_block :: "Header \<Rightarrow> 'st \<Rightarrow> 'st"
  apply_msg :: "Header \<Rightarrow> nat \<Rightarrow> Transaction \<Rightarrow> 'st \<Rightarrow> u64 \<Rightarrow> (string \<times> 'st) + ('st \<times> u64 \<times> ExecutionResult)"
  tx_type :: "Transaction \<Rightarrow> u8"
  tx_hash :: "Transaction \<Rightarrow> Hash"
  tx_Nonce :: "Transaction \<Rightarrow> u64"
  tx_To :: "Transaction \<Rightarrow> Address option"
  blob_hashes :: "Transaction \<Rightarrow> Hash list"
  Sender :: "nat \<Rightarrow> u64 \<Rightarrow> Transaction \<Rightarrow> Address"
  GetNonce :: "'st \<Rightarrow> Address \<Rightarrow> u64"
  IsOptimismRegolith :: "u64 \<Rightarrow> bool"
  IsOptimismCanyon :: "u64 \<Rightarrow> bool"
  CreateAddress :: "Address \<Rightarrow> u64 \<Rightarrow> Address"
  CalcBlobFee :: "u64 \<Rightarrow> nat"
  parse_requests :: "Header \<Rightarrow> Log list \<Rightarrow> string + Request list"
  finalize :: "Block \<Rightarrow> 'st \<Rightarrow> 'st"
  IntermediateRoot :: "'st \<Rightarrow> Hash \<times> 'st"
  DeriveShaTxs :: "Transaction list \<Rightarrow> Hash"
  DeriveShaReceipts :: "Receipt list \<Rightarrow> Hash"
  CreateBloom :: "Receipt list \<Rightarrow> bytes"
  header_hash :: "Header \<Rightarrow> Hash"
  EmptyUncleHash :: Hash
  EmptyWithdrawalsHash :: Hash
  verify_block :: "'st BlockChain \<Rightarrow> Block \<Rightarrow> string option"
  set_canonical_ok :: "'st BlockChain \<Rightarrow> Block \<Rightarrow> bool"
  cache_keeps :: "(Hash, Block) gomap \<Rightarrow> Hash \<Rightarrow> bool"

definition block_hash :: "'st Ops \<Rightarrow> Block \<Rightarrow> Hash" where
  "block_hash ops b = header_hash ops (b_Header b)"

text \<open>
  \<^verbatim>\<open>GetBlock\<close> answers from the block cache by hash alone and reads the database by hash and number
  only on a miss, adding what it found to the cache; \<open>cache_keeps\<close> is the eviction of the LRU cache.
\<close>

definition blockCache_Add :: "'st Ops \<Rightarrow> Hash \<Rightarrow> Block \<Rightarrow> (Hash, Block) gomap \<Rightarrow> (Hash, Block) gomap" where
  "blockCache_Add ops h b c = gm_put h b (gm_keep (cache_keeps ops c) c)"

definition GetBlock :: "'st Ops \<Rightarrow> 'st BlockChain \<Rightarrow> Hash \<Rightarrow> u64 \<Rightarrow> Block option \<times> 'st BlockChain" where
  "GetBlock ops bc hash number =
     (case gm_get (bc_blockCache bc) hash of
        Some block \<Rightarrow> (Some block, bc)
      | None \<Rightarrow>
          (case gm_get (bc_blocks bc) (hash, number) of
             None \<Rightarrow> (None, bc)
           | Some block \<Rightarrow>
               (Some block,
                bc\<lparr>bc_blockCache := blockCache_Add ops (block_hash ops block) block (bc_blockCache bc)\<rparr>)))"

definition GetBlockByHash :: "'st Ops \<Rightarrow> 'st BlockChain \<Rightarrow> Hash \<Rightarrow> Block option \<times> 'st BlockChain" where
  "GetBlockByHash ops bc hash =
     (case gm_get (bc_numbers bc) hash of
        None \<Rightarrow> (None, bc)
      | Some number \<Rightarrow> GetBlock ops bc hash number)"

definition ResetCurrentUnsealedBlock :: "'st BlockChain \<Rightarrow> 'st BlockChain" where
  "ResetCurrentUnsealedBlock bc = bc\<lparr>currentUnsealedBlock := None, unsealedBlockDbState := None\<rparr>"

definition SetCurrentUnsealedBlock ::
    "'st Ops \<Rightarrow> 'st BlockChain \<Rightarrow> UnsealedBlock \<Rightarrow> EngineErr option \<times> 'st BlockChain" where
  "SetCurrentUnsealedBlock ops bc block =
     (let (parentBlock, bc1) = GetBlockByHash ops bc (env_ParentHash (ub_Env block)) in
      case parentBlock of
        None \<Rightarrow> (Some ParentNotFound, bc1)
      | Some p \<Rightarrow>
          (case StateAt ops bc1 (h_Root (b_Header p)) of
             Inl e \<Rightarrow> (Some (StateUnavailable e), bc1)
           | Inr newState \<Rightarrow>
               (None, bc1\<lparr>unsealedBlockDbState := Some newState, currentUnsealedBlock := Some block\<rparr>)))"

section \<open>Executing the transactions of a frag\<close>

definition IsDepositTx :: "'st Ops \<Rightarrow> Transaction \<Rightarrow> bool" where
  "IsDepositTx ops tx \<longleftrightarrow> tx_type ops tx = 0x7E"

text \<open>
  \<^verbatim>\<open>MakeReceipt\<close> for a block of header \<open>header\<close>: its number, hash and time, the sender of the
  transaction and the blob base fee of the EVM context come from there. The index is the one given to
  \<^verbatim>\<open>SetTxContext\<close>. Every chain of the OP Stack has Byzantium from genesis, so the post state \<open>root\<close>
  is empty.
\<close>

definition MakeReceipt ::
    "'st Ops \<Rightarrow> Header \<Rightarrow> ExecutionResult \<Rightarrow> nat \<Rightarrow> Transaction \<Rightarrow> u64 \<Rightarrow> bytes \<Rightarrow> u64 \<Rightarrow> Receipt" where
  "MakeReceipt ops header result txIndex tx usedGas root nonce =
     (let regolith = IsDepositTx ops tx \<and> IsOptimismRegolith ops (h_Time header);
          blob = tx_type ops tx = 3;
          receipt =
            \<lparr>rc_Type = tx_type ops tx, rc_PostState = root, rc_Status = (if er_Failed result then 0 else 1),
             rc_CumulativeGasUsed = usedGas, rc_Bloom = replicate 256 0, rc_Logs = er_Logs result,
             rc_TxHash = tx_hash ops tx,
             rc_ContractAddress =
               (if tx_To ops tx = None
                then CreateAddress ops (Sender ops (h_Number header) (h_Time header) tx) nonce
                else replicate 20 0),
             rc_GasUsed = er_UsedGas result,
             rc_BlobGasUsed = (if blob then of_nat (length (blob_hashes ops tx) * 131072) else 0),
             rc_BlobGasPrice = (if blob then map_option (CalcBlobFee ops) (h_ExcessBlobGas header) else None),
             rc_DepositNonce = (if regolith then Some nonce else None),
             rc_DepositReceiptVersion =
               (if regolith \<and> IsOptimismCanyon ops (h_Time header) then Some 1 else None),
             rc_BlockHash = replicate 32 0, rc_BlockNumber = 0, rc_TransactionIndex = 0\<rparr>
      in receipt\<lparr>rc_Bloom := CreateBloom ops [receipt], rc_BlockHash := header_hash ops header,
           rc_BlockNumber := h_Number header, rc_TransactionIndex := txIndex\<rparr>)"

text \<open>The nonce a receipt is made with: for a deposit from Regolith on that of the sender in the state.\<close>

definition receipt_nonce :: "'st Ops \<Rightarrow> Header \<Rightarrow> Transaction \<Rightarrow> 'st \<Rightarrow> u64" where
  "receipt_nonce ops header tx st =
     (if IsDepositTx ops tx \<and> IsOptimismRegolith ops (h_Time header)
      then GetNonce ops st (Sender ops (h_Number header) (h_Time header) tx)
      else tx_Nonce ops tx)"

text \<open>The error with the state it leaves, or the receipt, the state, the gas pool and the gas counter.\<close>

definition ApplyTransactionWithEVM :: "'st Ops \<Rightarrow> Header \<Rightarrow> nat \<Rightarrow> Transaction \<Rightarrow> 'st \<Rightarrow> u64 \<Rightarrow> u64 \<Rightarrow>
    (string \<times> 'st) + (Receipt \<times> 'st \<times> u64 \<times> u64)" where
  "ApplyTransactionWithEVM ops header i tx st gp usedGas =
     (let nonce = receipt_nonce ops header tx st
      in case apply_msg ops header i tx st gp of
           Inl e \<Rightarrow> Inl e
         | Inr (st', gp', result) \<Rightarrow>
             (let usedGas' = usedGas + er_UsedGas result in
              Inr (MakeReceipt ops header result i tx usedGas' [] nonce, st', gp', usedGas')))"

text \<open>
  The loop over the transactions of a block. The gas counter is a pointer in the code, so also a
  failing run leaves the counter and the state where the failing transaction found them: the result
  is the error or the receipts, with the state and the counter reached.
\<close>

fun process_txs :: "'st Ops \<Rightarrow> Header \<Rightarrow> nat \<Rightarrow> Transaction list \<Rightarrow> 'st \<Rightarrow> u64 \<Rightarrow> u64 \<Rightarrow>
    (string + Receipt list) \<times> 'st \<times> u64" where
  "process_txs ops header i [] st gp usedGas = (Inr [], st, usedGas)"
| "process_txs ops header i (tx # txs) st gp usedGas =
     (case ApplyTransactionWithEVM ops header i tx st gp usedGas of
        Inl (e, st') \<Rightarrow> (Inl e, st', usedGas)
      | Inr (receipt, st', gp', usedGas') \<Rightarrow>
          (case process_txs ops header (Suc i) txs st' gp' usedGas' of
             (Inl e, r) \<Rightarrow> (Inl e, r)
           | (Inr receipts, r) \<Rightarrow> (Inr (receipt # receipts), r)))"

record ProcessResult =
  pr_Receipts :: "Receipt list"
  pr_Requests :: "Request list"
  pr_Logs :: "Log list"
  pr_GasUsed :: u64

definition ProcessWithCumulativeGas ::
    "'st Ops \<Rightarrow> Block \<Rightarrow> 'st \<Rightarrow> u64 \<Rightarrow> (string + ProcessResult) \<times> 'st \<times> u64" where
  "ProcessWithCumulativeGas ops block st cumulativeGas =
     (let header = b_Header block;
          gp = h_GasLimit header;
          st1 = pre_block ops header st
      in case process_txs ops header 0 (b_Transactions block) st1 gp cumulativeGas of
           (Inl e, st2, usedGas) \<Rightarrow> (Inl e, st2, usedGas)
         | (Inr receipts, st2, usedGas) \<Rightarrow>
             (let allLogs = concat (map rc_Logs receipts) in
              case parse_requests ops header allLogs of
                Inl e \<Rightarrow> (Inl e, st2, usedGas)
              | Inr requests \<Rightarrow>
                  (Inr \<lparr>pr_Receipts = receipts, pr_Requests = requests, pr_Logs = allLogs,
                        pr_GasUsed = usedGas\<rparr>,
                   finalize ops block st2, usedGas)))"

definition frag_block :: "'st Ops \<Rightarrow> UnsealedBlock \<Rightarrow> Frag \<Rightarrow> Block" where
  "frag_block ops ub frag =
     \<lparr>b_Header =
        \<lparr>h_ParentHash = env_ParentHash (ub_Env ub), h_UncleHash = EmptyUncleHash ops,
         h_Coinbase = env_Beneficiary (ub_Env ub), h_Root = replicate 32 0,
         h_TxHash = replicate 32 0, h_ReceiptHash = replicate 32 0, h_Bloom = replicate 256 0,
         h_Difficulty = unat (env_Difficulty (ub_Env ub)), h_Number = unat (gf_BlockNumber frag),
         h_GasLimit = env_GasLimit (ub_Env ub), h_GasUsed = ub_CumulativeGasUsed ub,
         h_Time = env_Timestamp (ub_Env ub), h_Extra = env_ExtraData (ub_Env ub),
         h_MixDigest = env_Prevrandao (ub_Env ub), h_Nonce = 0,
         h_BaseFee = Some (unat (env_Basefee (ub_Env ub))),
         h_WithdrawalsHash = Some (EmptyWithdrawalsHash ops),
         h_BlobGasUsed = Some 0, h_ExcessBlobGas = Some 0,
         h_ParentBeaconRoot = Some (env_ParentBeaconBlockRoot (ub_Env ub)), h_RequestsHash = None\<rparr>,
      b_Transactions = gf_Txs frag, b_Requests = []\<rparr>"

text \<open>\<open>None\<close> is the nil dereference of an unsealed block that is not there while its state is.\<close>

definition InsertNewFrag :: "'st Ops \<Rightarrow> 'st BlockChain \<Rightarrow> Frag \<Rightarrow> (EngineErr option \<times> 'st BlockChain) option" where
  "InsertNewFrag ops bc frag =
     (case unsealedBlockDbState bc of
        None \<Rightarrow> Some (Some UnsealedStateNotSet, bc)
      | Some st \<Rightarrow>
          (case currentUnsealedBlock bc of
             None \<Rightarrow> None
           | Some ub \<Rightarrow>
               (case ProcessWithCumulativeGas ops (frag_block ops ub frag) st (ub_CumulativeGasUsed ub) of
                  (Inl e, st', gas) \<Rightarrow>
                    Some (Some (ProcessFailed e),
                      bc\<lparr>unsealedBlockDbState := Some st',
                         currentUnsealedBlock := Some (ub\<lparr>ub_CumulativeGasUsed := gas\<rparr>)\<rparr>)
                | (Inr res, st', gas) \<Rightarrow>
                    Some (None,
                      bc\<lparr>unsealedBlockDbState := Some st',
                         currentUnsealedBlock := Some (ub\<lparr>
                           ub_CumulativeBlobGasUsed :=
                             foldl (\<lambda>a r. a + rc_BlobGasUsed r) (ub_CumulativeBlobGasUsed ub) (pr_Receipts res),
                           ub_Frags := ub_Frags ub @ [frag],
                           ub_LastSequenceNumber := Some (gf_Seq frag),
                           ub_Receipts := ub_Receipts ub @ pr_Receipts res,
                           ub_Logs := ub_Logs ub @ pr_Logs res,
                           ub_Requests := ub_Requests ub @ pr_Requests res,
                           ub_CumulativeGasUsed := pr_GasUsed res\<rparr>)\<rparr>))))"

section \<open>Sealing\<close>

definition sealed_block :: "'st Ops \<Rightarrow> UnsealedBlock \<Rightarrow> Hash \<Rightarrow> Block" where
  "sealed_block ops ub root =
     \<lparr>b_Header =
        \<lparr>h_ParentHash = env_ParentHash (ub_Env ub), h_UncleHash = EmptyUncleHash ops,
         h_Coinbase = env_Beneficiary (ub_Env ub), h_Root = root,
         h_TxHash = DeriveShaTxs ops (ub_Transactions ub),
         h_ReceiptHash = DeriveShaReceipts ops (ub_Receipts ub),
         h_Bloom = CreateBloom ops (ub_Receipts ub),
         h_Difficulty = unat (env_Difficulty (ub_Env ub)), h_Number = unat (env_Number (ub_Env ub)),
         h_GasLimit = env_GasLimit (ub_Env ub), h_GasUsed = ub_CumulativeGasUsed ub,
         h_Time = env_Timestamp (ub_Env ub), h_Extra = env_ExtraData (ub_Env ub),
         h_MixDigest = env_Prevrandao (ub_Env ub), h_Nonce = 0,
         h_BaseFee = Some (unat (env_Basefee (ub_Env ub))),
         h_WithdrawalsHash = Some (EmptyWithdrawalsHash ops),
         h_BlobGasUsed = Some 0, h_ExcessBlobGas = Some 0,
         h_ParentBeaconRoot = Some (env_ParentBeaconBlockRoot (ub_Env ub)), h_RequestsHash = None\<rparr>,
      b_Transactions = ub_Transactions ub, b_Requests = ub_Requests ub\<rparr>"

text \<open>\<^verbatim>\<open>InsertBlockWithoutSetHead\<close> verifies a block and persists it without changing the head.\<close>

definition InsertBlockWithoutSetHead :: "'st Ops \<Rightarrow> 'st BlockChain \<Rightarrow> Block \<Rightarrow> EngineErr option \<times> 'st BlockChain" where
  "InsertBlockWithoutSetHead ops bc block =
     (case verify_block ops bc block of
        Some e \<Rightarrow> (Some (InsertFailed e), bc)
      | None \<Rightarrow>
          (let h = block_hash ops block; n = of_nat (h_Number (b_Header block)) in
           (None, bc\<lparr>bc_blocks := gm_put (h, n) block (bc_blocks bc),
                     bc_numbers := gm_put h n (bc_numbers bc)\<rparr>)))"

definition SealBlock :: "'st Ops \<Rightarrow> 'st BlockChain \<Rightarrow> UnsealedBlock \<Rightarrow> (EngineErr + Block) \<times> 'st BlockChain" where
  "SealBlock ops bc ub =
     (case unsealedBlockDbState bc of
        None \<Rightarrow> (Inl UnsealedStateNotSet, bc)
      | Some st \<Rightarrow>
          (let (root, st') = IntermediateRoot ops st;
               block = sealed_block ops ub root;
               bc1 = bc\<lparr>unsealedBlockDbState := Some st'\<rparr>
           in case InsertBlockWithoutSetHead ops bc1 block of
                (Some e, bc2) \<Rightarrow> (Inl e, bc2)
              | (None, bc2) \<Rightarrow> (Inr block, bc2)))"

section \<open>The engine API handlers\<close>

datatype Status = VALID | INVALID

definition ValidateNewFragV0 :: "Frag \<Rightarrow> UnsealedBlock option \<Rightarrow> EngineErr option option" where
  "ValidateNewFragV0 frag cub =
     (case cub of
        None \<Rightarrow> Some (Some NoUnsealedBlockOpened)
      | Some ub \<Rightarrow>
          if gf_BlockNumber frag \<noteq> env_Number (ub_Env ub)
          then Some (Some (FragBlockNumberMismatch (env_Number (ub_Env ub)) (gf_BlockNumber frag)))
          else (case IsNextFrag ub frag of
                  None \<Rightarrow> None
                | Some True \<Rightarrow> Some None
                | Some False \<Rightarrow>
                    Some (Some (FragNotNext
                      (case ub_LastSequenceNumber ub of None \<Rightarrow> 0 | Some l \<Rightarrow> l + 1) (gf_Seq frag)))))"

definition newFragV0 :: "'st Ops \<Rightarrow> 'st BlockChain \<Rightarrow> Frag \<Rightarrow> (Status \<times> EngineErr option \<times> 'st BlockChain) option" where
  "newFragV0 ops bc f =
     (case ValidateNewFragV0 f (currentUnsealedBlock bc) of
        None \<Rightarrow> None
      | Some (Some e) \<Rightarrow> Some (INVALID, Some e, bc)
      | Some None \<Rightarrow>
          (case InsertNewFrag ops bc f of
             None \<Rightarrow> None
           | Some (Some e, bc1) \<Rightarrow> Some (INVALID, Some e, bc1)
           | Some (None, bc1) \<Rightarrow>
               if gf_IsLast f
               then (case currentUnsealedBlock bc1 of
                       None \<Rightarrow> None
                     | Some ub \<Rightarrow>
                         (case SealBlock ops bc1 ub of
                            (Inl e, bc2) \<Rightarrow> Some (INVALID, Some e, bc2)
                          | (Inr _, bc2) \<Rightarrow> Some (VALID, None, bc2)))
               else Some (VALID, None, bc1)))"

text \<open>The exported handlers drop the unsealed block on every error.\<close>

definition reset_on_error :: "Status \<times> EngineErr option \<times> 'st BlockChain \<Rightarrow> Status \<times> EngineErr option \<times> 'st BlockChain" where
  "reset_on_error r = (case r of
     (st, None, bc) \<Rightarrow> (st, None, bc)
   | (st, Some e, bc) \<Rightarrow> (st, Some e, ResetCurrentUnsealedBlock bc))"

definition NewFragV0 :: "'st Ops \<Rightarrow> 'st BlockChain \<Rightarrow> Frag \<Rightarrow> (Status \<times> EngineErr option \<times> 'st BlockChain) option" where
  "NewFragV0 ops bc f = map_option reset_on_error (newFragV0 ops bc f)"

definition ValidateSealFragV0 :: "'st Ops \<Rightarrow> 'st BlockChain \<Rightarrow> Block \<Rightarrow> Seal \<Rightarrow> EngineErr option" where
  "ValidateSealFragV0 ops bc preSealedBlock seal =
     (let h = b_Header preSealedBlock in
      case currentUnsealedBlock bc of
        None \<Rightarrow> Some NoUnsealedInProgress
      | Some ub \<Rightarrow>
          if block_hash ops preSealedBlock \<noteq> seal_BlockHash seal then Some BlockHashMismatch
          else if h_ParentHash h \<noteq> seal_ParentHash seal then Some ParentHashMismatch
          else if h_Root h \<noteq> seal_StateRoot seal then Some StateRootMismatch
          else if h_TxHash h \<noteq> seal_TransactionsRoot seal then Some TransactionsRootMismatch
          else if h_ReceiptHash h \<noteq> seal_ReceiptsRoot seal then Some ReceiptsRootMismatch
          else if h_GasUsed h \<noteq> seal_GasUsed seal then Some GasUsedMismatch
          else if h_GasLimit h \<noteq> seal_GasLimit seal then Some GasLimitMismatch
          else if int (length (ub_Frags ub)) \<noteq> sint (seal_TotalFrags seal) then Some TotalFragsMismatch
          else None)"

definition sealFragV0 :: "'st Ops \<Rightarrow> 'st BlockChain \<Rightarrow> Seal \<Rightarrow> Status \<times> EngineErr option \<times> 'st BlockChain" where
  "sealFragV0 ops bc seal =
     (let (preSealed, bc1) = GetBlock ops bc (seal_BlockHash seal) (seal_BlockNumber seal) in
      case preSealed of
        None \<Rightarrow> (INVALID, Some (PreSealedNotFound (seal_BlockNumber seal)), bc1)
      | Some b \<Rightarrow>
          (case ValidateSealFragV0 ops bc1 b seal of
             Some e \<Rightarrow> (INVALID, Some e, bc1)
           | None \<Rightarrow>
               if set_canonical_ok ops bc1 b
               then (VALID, None, ResetCurrentUnsealedBlock (bc1\<lparr>bc_currentBlock := b\<rparr>))
               else (INVALID, Some CannotUpdateCanonical, bc1)))"

definition SealFragV0 :: "'st Ops \<Rightarrow> 'st BlockChain \<Rightarrow> Seal \<Rightarrow> Status \<times> EngineErr option \<times> 'st BlockChain" where
  "SealFragV0 ops bc seal = reset_on_error (sealFragV0 ops bc seal)"

definition ValidateEnvV0 :: "'st Ops \<Rightarrow> 'st BlockChain \<Rightarrow> Env \<Rightarrow> EngineErr option \<times> 'st BlockChain" where
  "ValidateEnvV0 ops bc env =
     (let (parent, bc1) = GetBlockByHash ops bc (env_ParentHash env) in
      case parent of
        None \<Rightarrow> (Some NoParentBlock, bc1)
      | Some p \<Rightarrow>
          (let parentHeader = b_Header p;
               expectedBlockNumber = (of_nat (h_Number parentHeader) :: u64) + 1
           in if currentUnsealedBlock bc1 \<noteq> None then (Some UnsealedAlreadyInProgress, bc1)
              else if env_Number env \<noteq> expectedBlockNumber
              then (Some (EnvNumberMismatch expectedBlockNumber (env_Number env)), bc1)
              else if env_Timestamp env < h_Time parentHeader
              then (Some (EnvTimestampTooLow (h_Time parentHeader) (env_Timestamp env)), bc1)
              else (None, bc1)))"

definition envV0 :: "'st Ops \<Rightarrow> 'st BlockChain \<Rightarrow> Env \<Rightarrow> Status \<times> EngineErr option \<times> 'st BlockChain" where
  "envV0 ops bc env =
     (case ValidateEnvV0 ops bc env of
        (Some e, bc1) \<Rightarrow> (INVALID, Some e, bc1)
      | (None, bc1) \<Rightarrow>
          (case SetCurrentUnsealedBlock ops bc1 (NewUnsealedBlock env) of
             (Some e, bc2) \<Rightarrow> (INVALID, Some e, bc2)
           | (None, bc2) \<Rightarrow> (VALID, None, bc2)))"

definition EnvV0 :: "'st Ops \<Rightarrow> 'st BlockChain \<Rightarrow> Env \<Rightarrow> Status \<times> EngineErr option \<times> 'st BlockChain" where
  "EnvV0 ops bc env = reset_on_error (envV0 ops bc env)"

section \<open>Reads served from the unsealed block\<close>

text \<open>
  The RPC handlers take no lock: engine calls may run between two loads of one handler.

  The part of \<^verbatim>\<open>GetTransactionReceipt\<close> that answers from the unsealed block: the first receipt with
  the hash, together with the transaction at the same index of \<^verbatim>\<open>ub.Transactions()\<close>. The pointer
  \<^verbatim>\<open>ub\<close> is loaded once, but the object is read twice: \<open>cub\<close> is the block when its receipts are
  read, \<open>ub'\<close> the same object when its transactions are. The outer \<open>None\<close> is the index panic.
\<close>

fun find_receipt :: "Hash \<Rightarrow> nat \<Rightarrow> Receipt list \<Rightarrow> (nat \<times> Receipt) option" where
  "find_receipt h i [] = None"
| "find_receipt h i (r # rs) = (if rc_TxHash r = h then Some (i, r) else find_receipt h (Suc i) rs)"

definition unsealed_receipt ::
    "UnsealedBlock option \<Rightarrow> UnsealedBlock \<Rightarrow> Hash \<Rightarrow> (Receipt \<times> Transaction \<times> nat) option option" where
  "unsealed_receipt cub ub' h =
     (case cub of
        None \<Rightarrow> Some None
      | Some ub \<Rightarrow>
          (case find_receipt h 0 (ub_Receipts ub) of
             None \<Rightarrow> Some None
           | Some (i, r) \<Rightarrow>
               if i < length (ub_Transactions ub') then Some (Some (r, ub_Transactions ub' ! i, i)) else None))"

text \<open>
  \<^verbatim>\<open>StateAndHeaderByNumber\<close>: the miner's pending block and the header lookup are arguments. The state
  of the unsealed block is loaded from the chain \<open>bc\<close>, the block, or the state of a sealed block, from
  the chain \<open>bc'\<close> some time later. The outer \<open>None\<close> is the nil dereference of
  \<^verbatim>\<open>CurrentUnsealedBlock().TempHeader()\<close>.
\<close>

datatype RpcBlockNumber = PendingBlockNumber | LatestBlockNumber | OtherBlockNumber int

definition StateAndHeaderByNumber ::
    "'st Ops \<Rightarrow> ('st \<times> Header) option \<Rightarrow> (RpcBlockNumber \<Rightarrow> string + Header option) \<Rightarrow>
     'st BlockChain \<Rightarrow> 'st BlockChain \<Rightarrow> RpcBlockNumber \<Rightarrow> (string + 'st \<times> Header) option" where
  "StateAndHeaderByNumber ops pending headerByNumber bc bc' n =
     (case (n, pending) of
        (PendingBlockNumber, Some r) \<Rightarrow> Some (Inr r)
      | _ \<Rightarrow>
          (let number = (if n = PendingBlockNumber then LatestBlockNumber else n) in
           if number = LatestBlockNumber \<and> unsealedBlockDbState bc \<noteq> None
           then (case currentUnsealedBlock bc' of
                   None \<Rightarrow> None
                 | Some ub \<Rightarrow> Some (Inr (the (unsealedBlockDbState bc), TempHeader ub)))
           else (case headerByNumber number of
                   Inl e \<Rightarrow> Some (Inl e)
                 | Inr None \<Rightarrow> Some (Inl ''header not found'')
                 | Inr (Some header) \<Rightarrow>
                     (case StateAt ops bc' (h_Root header) of
                        Inl e \<Rightarrow> Some (Inl e)
                      | Inr st \<Rightarrow> Some (Inr (st, header))))))"

definition BlockNumber :: "'st BlockChain \<Rightarrow> u64" where
  "BlockNumber bc =
     (case currentUnsealedBlock bc of
        Some ub \<Rightarrow> env_Number (ub_Env ub)
      | None \<Rightarrow> of_nat (h_Number (b_Header (bc_currentBlock bc))))"

end
