(* ===== verification/Unsealed_Proofs.thy ===== *)
theory Unsealed_Proofs
  imports Unsealed "HOL-Library.Sublist"
begin

text \<open>
  What the unsealed block guarantees: the shape of the block under every sequence of engine calls, that
  no call panics, when a read does, which seals and environments are accepted, and that errors discard
  the block.
\<close>

section \<open>Sequences of engine calls\<close>

datatype EngineCall = CallEnv Env | CallFrag Frag | CallSeal Seal

fun engine_call :: "'st Ops \<Rightarrow> 'st BlockChain \<Rightarrow> EngineCall \<Rightarrow> (Status \<times> EngineErr option \<times> 'st BlockChain) option" where
  "engine_call ops bc (CallEnv e) = Some (EnvV0 ops bc e)"
| "engine_call ops bc (CallFrag f) = NewFragV0 ops bc f"
| "engine_call ops bc (CallSeal s) = Some (SealFragV0 ops bc s)"

text \<open>The node as a machine: \<open>None\<close> is a node that has panicked.\<close>

definition engine_step :: "'st Ops \<Rightarrow> 'st BlockChain option \<Rightarrow> EngineCall \<Rightarrow> 'st BlockChain option" where
  "engine_step ops s c =
     (case s of
        None \<Rightarrow> None
      | Some bc \<Rightarrow> (case engine_call ops bc c of None \<Rightarrow> None | Some (_, _, bc') \<Rightarrow> Some bc'))"

section \<open>Receipts\<close>

fun cumulative :: "u64 \<Rightarrow> Receipt list \<Rightarrow> bool" where
  "cumulative g [] = True"
| "cumulative g (r # rs) = (rc_CumulativeGasUsed r = g + rc_GasUsed r \<and> cumulative (rc_CumulativeGasUsed r) rs)"

definition gas_of :: "Receipt list \<Rightarrow> u64" where
  "gas_of rs = sum_list (map rc_GasUsed rs)"

lemma gas_of_simps [simp]: "gas_of [] = 0" "gas_of (r # rs) = rc_GasUsed r + gas_of rs"
  "gas_of (rs @ rs') = gas_of rs + gas_of rs'"
  by (simp_all add: gas_of_def)

lemma cumulative_append [simp]: "cumulative g (rs @ rs') \<longleftrightarrow> cumulative g rs \<and> cumulative (g + gas_of rs) rs'"
  by (induction g rs rule: cumulative.induct) (auto simp: ac_simps)

lemma cumulative_nth:
  "cumulative g rs \<Longrightarrow> i < length rs \<Longrightarrow> rc_CumulativeGasUsed (rs ! i) = g + gas_of (take (Suc i) rs)"
  by (induction g rs arbitrary: i rule: cumulative.induct) (auto simp: less_Suc_eq_0_disj ac_simps)

lemma MakeReceipt_simps [simp]:
  "rc_TxHash (MakeReceipt ops h r i tx g root nonce) = tx_hash ops tx"
  "rc_GasUsed (MakeReceipt ops h r i tx g root nonce) = er_UsedGas r"
  "rc_CumulativeGasUsed (MakeReceipt ops h r i tx g root nonce) = g"
  by (simp_all add: MakeReceipt_def Let_def)

lemma process_txs_ConsE:
  assumes "process_txs ops h i (tx # txs) st gp g = (Inr rs, st', g')"
  obtains st1 gp1 r rs' where "apply_msg ops h i tx st gp = Inr (st1, gp1, r)"
    "process_txs ops h (Suc i) txs st1 gp1 (g + er_UsedGas r) = (Inr rs', st', g')"
    "rs = MakeReceipt ops h r i tx (g + er_UsedGas r) [] (receipt_nonce ops h tx st) # rs'"
  using assms by (auto simp: ApplyTransactionWithEVM_def Let_def split: sum.splits prod.splits)

lemma process_txs_ConsI:
  assumes "apply_msg ops h i tx st gp = Inr (st1, gp1, r)"
    "process_txs ops h (Suc i) txs st1 gp1 (g + er_UsedGas r) = (Inr rs', st', g')"
  shows "process_txs ops h i (tx # txs) st gp g =
    (Inr (MakeReceipt ops h r i tx (g + er_UsedGas r) [] (receipt_nonce ops h tx st) # rs'), st', g')"
  using assms by (simp add: ApplyTransactionWithEVM_def Let_def)

lemma process_txs_receipts:
  assumes "process_txs ops h i txs st gp g = (Inr rs, st', g')"
  shows "map rc_TxHash rs = map (tx_hash ops) txs" "cumulative g rs" "g' = g + gas_of rs"
proof -
  have "map rc_TxHash rs = map (tx_hash ops) txs \<and> cumulative g rs \<and> g + gas_of rs = g'"
    using assms
  proof (induction txs arbitrary: i st gp g rs)
    case (Cons tx txs)
    from Cons.prems obtain st1 gp1 r rs' where
      p: "process_txs ops h (Suc i) txs st1 gp1 (g + er_UsedGas r) = (Inr rs', st', g')"
      and e: "rs = MakeReceipt ops h r i tx (g + er_UsedGas r) [] (receipt_nonce ops h tx st) # rs'"
      by (rule process_txs_ConsE)
    show ?case using Cons.IH [OF p] e by (auto simp: add.assoc)
  qed auto
  then show "map rc_TxHash rs = map (tx_hash ops) txs" "cumulative g rs" "g' = g + gas_of rs" by auto
qed

lemma blob_sum: "foldl (\<lambda>a r. a + rc_BlobGasUsed r) b rs = b + sum_list (map rc_BlobGasUsed rs)"
  by (induction rs arbitrary: b) (auto simp: ac_simps)

section \<open>The invariant\<close>

definition ub_wf :: "'st Ops \<Rightarrow> UnsealedBlock \<Rightarrow> bool" where
  "ub_wf ops ub \<longleftrightarrow>
     (\<forall>i < length (ub_Frags ub).
        gf_Seq (ub_Frags ub ! i) = of_nat i \<and> gf_BlockNumber (ub_Frags ub ! i) = env_Number (ub_Env ub)) \<and>
     ub_LastSequenceNumber ub =
       (if ub_Frags ub = [] then None else Some (of_nat (length (ub_Frags ub) - 1))) \<and>
     (length (ub_Frags ub) \<le> 2 ^ 64 \<longrightarrow> (\<forall>i. Suc i < length (ub_Frags ub) \<longrightarrow> \<not> gf_IsLast (ub_Frags ub ! i))) \<and>
     map rc_TxHash (ub_Receipts ub) = map (tx_hash ops) (ub_Transactions ub) \<and>
     cumulative 0 (ub_Receipts ub) \<and>
     ub_Logs ub = concat (map rc_Logs (ub_Receipts ub)) \<and>
     ub_CumulativeGasUsed ub = gas_of (ub_Receipts ub) \<and>
     ub_CumulativeBlobGasUsed ub = sum_list (map rc_BlobGasUsed (ub_Receipts ub))"

definition chain_inv :: "'st Ops \<Rightarrow> 'st BlockChain \<Rightarrow> bool" where
  "chain_inv ops bc \<longleftrightarrow>
     (currentUnsealedBlock bc = None \<longleftrightarrow> unsealedBlockDbState bc = None) \<and>
     (\<forall>ub. currentUnsealedBlock bc = Some ub \<longrightarrow> ub_wf ops ub)"

lemma ub_wf_New [simp]: "ub_wf ops (NewUnsealedBlock e)"
  by (simp add: ub_wf_def NewUnsealedBlock_def ub_Transactions_def)

lemma IsNextFrag_wf:
  assumes "ub_wf ops ub"
  shows "IsNextFrag ub f = Some
    ((ub_Frags ub \<noteq> [] \<longrightarrow> \<not> gf_IsLast (ub_Frags ub ! unat (of_nat (length (ub_Frags ub) - 1) :: u64))) \<and>
     gf_Seq f = of_nat (length (ub_Frags ub)))"
proof (cases "ub_Frags ub = []")
  case True
  then show ?thesis using assms by (simp add: ub_wf_def IsNextFrag_def IsFirst_def)
next
  case False
  then obtain n where n: "length (ub_Frags ub) = Suc n" by (cases "ub_Frags ub") auto
  let ?l = "of_nat n :: u64"
  have lst: "ub_LastSequenceNumber ub = Some ?l" using assms False n by (simp add: ub_wf_def)
  have lt: "unat ?l < length (ub_Frags ub)" using n by (simp add: unat_of_nat less_Suc_eq_le)
  then have "gf_Seq (ub_Frags ub ! unat ?l) = of_nat (unat ?l)" using assms unfolding ub_wf_def by blast
  then have "gf_Seq (ub_Frags ub ! unat ?l) + 1 = of_nat (Suc n)" by simp
  then show ?thesis using lst lt False n by (auto simp: IsNextFrag_def Let_def add.commute)
qed

lemma ub_wf_insert:
  assumes wf: "ub_wf ops ub"
    and num: "gf_BlockNumber f = env_Number (ub_Env ub)" and nxt: "IsNextFrag ub f = Some True"
    and ok: "ProcessWithCumulativeGas ops (frag_block ops ub f) st (ub_CumulativeGasUsed ub) = (Inr res, st', g)"
  shows "ub_wf ops (ub\<lparr>
     ub_CumulativeBlobGasUsed :=
       foldl (\<lambda>a r. a + rc_BlobGasUsed r) (ub_CumulativeBlobGasUsed ub) (pr_Receipts res),
     ub_Frags := ub_Frags ub @ [f], ub_LastSequenceNumber := Some (gf_Seq f),
     ub_Receipts := ub_Receipts ub @ pr_Receipts res, ub_Logs := ub_Logs ub @ pr_Logs res,
     ub_Requests := ub_Requests ub @ pr_Requests res, ub_CumulativeGasUsed := pr_GasUsed res\<rparr>)"
proof -
  let ?fs = "ub_Frags ub" and ?g = "ub_CumulativeGasUsed ub"
  obtain st2 where p: "process_txs ops (b_Header (frag_block ops ub f)) 0 (gf_Txs f)
      (pre_block ops (b_Header (frag_block ops ub f)) st) (h_GasLimit (b_Header (frag_block ops ub f))) ?g
        = (Inr (pr_Receipts res), st2, pr_GasUsed res)"
    and logs: "pr_Logs res = concat (map rc_Logs (pr_Receipts res))"
    using ok by (auto simp: ProcessWithCumulativeGas_def Let_def frag_block_def split: sum.splits prod.splits)
  note rs = process_txs_receipts [OF p]
  have seq: "gf_Seq f = of_nat (length ?fs)"
    and open_last: "?fs \<noteq> [] \<longrightarrow> \<not> gf_IsLast (?fs ! unat (of_nat (length ?fs - 1) :: u64))"
    using nxt IsNextFrag_wf [OF wf, of f] by auto
  have closed: "\<not> gf_IsLast (?fs ! i)" if "Suc i < Suc (length ?fs)" "Suc (length ?fs) \<le> 2 ^ 64" for i
  proof (cases "Suc i < length ?fs")
    case True then show ?thesis using wf that by (simp add: ub_wf_def)
  next
    case False
    then have i: "length ?fs = Suc i" "?fs \<noteq> []" using that by auto
    then have "unat (of_nat (length ?fs - 1) :: u64) = i" using that by (simp add: unat_of_nat)
    then show ?thesis using open_last i by simp
  qed
  show ?thesis
    using wf rs seq num logs closed
    by (auto simp: ub_wf_def nth_append less_Suc_eq ub_Transactions_def blob_sum)
qed

lemma Reset_inv [simp]: "chain_inv ops (ResetCurrentUnsealedBlock bc)"
  by (simp add: chain_inv_def ResetCurrentUnsealedBlock_def)

lemma reset_on_error_inv:
  assumes "reset_on_error r = (st, e, bc)" and "\<And>st' bc'. r = (st', None, bc') \<Longrightarrow> chain_inv ops bc'"
  shows "chain_inv ops bc"
  using assms by (auto simp: reset_on_error_def split: prod.splits option.splits)

lemma GetBlock_unsealed:
  assumes "GetBlock ops bc h n = (b, bc')"
  shows "currentUnsealedBlock bc' = currentUnsealedBlock bc" "unsealedBlockDbState bc' = unsealedBlockDbState bc"
    "bc_blocks bc' = bc_blocks bc" "bc_numbers bc' = bc_numbers bc" "bc_currentBlock bc' = bc_currentBlock bc"
  using assms by (auto simp: GetBlock_def split: option.splits)

lemma GetBlockByHash_unsealed:
  assumes "GetBlockByHash ops bc h = (b, bc')"
  shows "currentUnsealedBlock bc' = currentUnsealedBlock bc" "unsealedBlockDbState bc' = unsealedBlockDbState bc"
    "bc_blocks bc' = bc_blocks bc" "bc_numbers bc' = bc_numbers bc" "bc_currentBlock bc' = bc_currentBlock bc"
  using assms GetBlock_unsealed by (auto simp: GetBlockByHash_def split: option.splits)

lemma GetBlock_inv: "GetBlock ops bc h n = (b, bc') \<Longrightarrow> chain_inv ops bc' = chain_inv ops bc"
  by (simp add: chain_inv_def GetBlock_unsealed)

lemma GetBlockByHash_inv: "GetBlockByHash ops bc h = (b, bc') \<Longrightarrow> chain_inv ops bc' = chain_inv ops bc"
  by (simp add: chain_inv_def GetBlockByHash_unsealed)

lemma InsertNewFrag_inv:
  assumes inv: "chain_inv ops bc" and v: "ValidateNewFragV0 f (currentUnsealedBlock bc) = Some None"
    and r: "InsertNewFrag ops bc f = r"
  obtains e bc' where "r = Some (e, bc')" "e = None \<Longrightarrow> chain_inv ops bc' \<and> currentUnsealedBlock bc' \<noteq> None"
proof -
  obtain ub where ub: "currentUnsealedBlock bc = Some ub" and num: "gf_BlockNumber f = env_Number (ub_Env ub)"
    and nxt: "IsNextFrag ub f = Some True"
    using v by (auto simp: ValidateNewFragV0_def split: option.splits if_splits bool.splits)
  then obtain st where st: "unsealedBlockDbState bc = Some st" and wf: "ub_wf ops ub"
    using inv by (auto simp: chain_inv_def)
  show thesis
  proof (cases "ProcessWithCumulativeGas ops (frag_block ops ub f) st (ub_CumulativeGasUsed ub)" rule: prod_cases3)
    case (fields res st' g)
    show thesis
    proof (cases res)
      case (Inl e) with fields that r st ub show thesis by (auto simp: InsertNewFrag_def)
    next
      case (Inr res')
      then show thesis using fields that r st ub ub_wf_insert [OF wf num nxt, of st res' st' g]
        by (auto simp: InsertNewFrag_def chain_inv_def)
    qed
  qed
qed

lemma SealBlock_inv:
  "SealBlock ops bc ub = (r, bc') \<Longrightarrow> chain_inv ops bc \<Longrightarrow> chain_inv ops bc'"
  by (auto simp: SealBlock_def InsertBlockWithoutSetHead_def Let_def chain_inv_def
      split: option.splits prod.splits if_splits)

lemma ValidateNewFragV0_wf:
  assumes "chain_inv ops bc" shows "ValidateNewFragV0 f (currentUnsealedBlock bc) \<noteq> None"
  using assms IsNextFrag_wf [of ops]
  by (auto simp: ValidateNewFragV0_def chain_inv_def split: option.splits bool.splits)

lemma NewFragV0_inv:
  assumes inv: "chain_inv ops bc"
  obtains st e bc' where "NewFragV0 ops bc f = Some (st, e, bc')" "chain_inv ops bc'"
proof -
  obtain v where v: "ValidateNewFragV0 f (currentUnsealedBlock bc) = Some v"
    using ValidateNewFragV0_wf [OF inv] by blast
  have "\<exists>r. newFragV0 ops bc f = Some r \<and> (\<forall>st' bc'. r = (st', None, bc') \<longrightarrow> chain_inv ops bc')"
  proof (cases v)
    case (Some e) then show ?thesis using v by (simp add: newFragV0_def)
  next
    case None
    obtain e bc1 where i: "InsertNewFrag ops bc f = Some (e, bc1)"
      and k: "e = None \<Longrightarrow> chain_inv ops bc1 \<and> currentUnsealedBlock bc1 \<noteq> None"
      using InsertNewFrag_inv [OF inv, of f] v None by metis
    show ?thesis
    proof (cases e)
      case (Some e') then show ?thesis using v None i by (simp add: newFragV0_def)
    next
      case e: None
      with k obtain ub where ub: "currentUnsealedBlock bc1 = Some ub" "chain_inv ops bc1" by auto
      obtain r bc2 where s: "SealBlock ops bc1 ub = (r, bc2)" by (rule prod.exhaust)
      show ?thesis using v None i e ub s SealBlock_inv [OF s ub(2)]
        by (cases r) (auto simp: newFragV0_def)
    qed
  qed
  then obtain r where r: "newFragV0 ops bc f = Some r" and k: "\<And>st' bc'. r = (st', None, bc') \<Longrightarrow> chain_inv ops bc'"
    by blast
  obtain st e bc' where s: "reset_on_error r = (st, e, bc')" by (rule prod_cases3)
  show thesis using that r reset_on_error_inv [OF s k] s by (simp add: NewFragV0_def)
qed

lemma sealFragV0_None:
  assumes "sealFragV0 ops bc seal = (st, None, bc')"
  obtains b bc1 where "GetBlock ops bc (seal_BlockHash seal) (seal_BlockNumber seal) = (Some b, bc1)"
    "ValidateSealFragV0 ops bc1 b seal = None" "set_canonical_ok ops bc1 b" "st = VALID"
    "bc' = ResetCurrentUnsealedBlock (bc1\<lparr>bc_currentBlock := b\<rparr>)"
proof -
  obtain ob bc1 where g: "GetBlock ops bc (seal_BlockHash seal) (seal_BlockNumber seal) = (ob, bc1)"
    by (rule prod.exhaust)
  show thesis
  proof (cases ob)
    case None then show thesis using assms g by (simp add: sealFragV0_def)
  next
    case (Some b)
    then show thesis using assms g that [of b bc1]
      by (simp add: sealFragV0_def split: option.split_asm if_split_asm)
  qed
qed

lemma SealFragV0_inv: "chain_inv ops bc \<Longrightarrow> SealFragV0 ops bc s = (st, e, bc') \<Longrightarrow> chain_inv ops bc'"
  unfolding SealFragV0_def
  by (erule reset_on_error_inv) (auto elim: sealFragV0_None)

lemma SetCurrent_inv:
  assumes "SetCurrentUnsealedBlock ops bc (NewUnsealedBlock env) = (None, bc')"
  shows "chain_inv ops bc'"
  using assms by (auto simp: SetCurrentUnsealedBlock_def chain_inv_def split: prod.splits option.splits sum.splits)

lemma EnvV0_inv: "chain_inv ops bc \<Longrightarrow> EnvV0 ops bc env = (st, e, bc') \<Longrightarrow> chain_inv ops bc'"
  unfolding EnvV0_def
  by (erule reset_on_error_inv) (auto simp: envV0_def dest: SetCurrent_inv split: prod.splits option.splits)

lemma engine_call_inv:
  assumes "chain_inv ops bc"
  obtains st e bc' where "engine_call ops bc c = Some (st, e, bc')" "chain_inv ops bc'"
proof (cases c)
  case (CallEnv e)
  obtain st er bc' where "EnvV0 ops bc e = (st, er, bc')" by (rule prod_cases3)
  then show thesis using CallEnv that EnvV0_inv [OF assms] by simp
next
  case (CallFrag f)
  obtain st er bc' where "NewFragV0 ops bc f = Some (st, er, bc')" "chain_inv ops bc'"
    by (rule NewFragV0_inv [OF assms])
  then show thesis using CallFrag that by simp
next
  case (CallSeal s)
  obtain st er bc' where "SealFragV0 ops bc s = (st, er, bc')" by (rule prod_cases3)
  then show thesis using CallSeal that SealFragV0_inv [OF assms] by simp
qed

definition node_inv :: "'st Ops \<Rightarrow> 'st BlockChain option \<Rightarrow> bool" where
  "node_inv ops s \<longleftrightarrow> (\<exists>bc. s = Some bc \<and> chain_inv ops bc)"

interpretation engine: invariant_machine "engine_step ops" "node_inv ops" for ops
proof
  fix s c assume "node_inv ops s"
  then obtain bc where bc: "s = Some bc" "chain_inv ops bc" by (auto simp: node_inv_def)
  obtain st e bc' where "engine_call ops bc c = Some (st, e, bc')" "chain_inv ops bc'"
    by (rule engine_call_inv [OF bc(2)])
  then show "node_inv ops (engine_step ops s c)" using bc by (simp add: engine_step_def node_inv_def)
qed

section \<open>Answers and reads\<close>

lemma ub_wf_lists:
  assumes "ub_wf ops ub"
  shows "map gf_Seq (ub_Frags ub) = map of_nat [0..<length (ub_Frags ub)]"
    "\<forall>f \<in> set (ub_Frags ub). gf_BlockNumber f = env_Number (ub_Env ub)"
    "length (ub_Frags ub) \<le> 2 ^ 64 \<longrightarrow> (\<forall>f \<in> set (butlast (ub_Frags ub)). \<not> gf_IsLast f)"
    "map rc_TxHash (ub_Receipts ub) = map (tx_hash ops) (ub_Transactions ub)"
    "\<forall>i < length (ub_Receipts ub). rc_CumulativeGasUsed (ub_Receipts ub ! i) =
       sum_list (map rc_GasUsed (take (Suc i) (ub_Receipts ub)))"
    "ub_CumulativeGasUsed ub = sum_list (map rc_GasUsed (ub_Receipts ub))"
    "ub_CumulativeBlobGasUsed ub = sum_list (map rc_BlobGasUsed (ub_Receipts ub))"
    "ub_Logs ub = concat (map rc_Logs (ub_Receipts ub))"
proof -
  show "map gf_Seq (ub_Frags ub) = map of_nat [0..<length (ub_Frags ub)]"
    using assms by (intro nth_equalityI) (simp_all add: ub_wf_def)
  show "\<forall>f \<in> set (ub_Frags ub). gf_BlockNumber f = env_Number (ub_Env ub)"
    using assms by (auto simp: ub_wf_def in_set_conv_nth)
  show "length (ub_Frags ub) \<le> 2 ^ 64 \<longrightarrow> (\<forall>f \<in> set (butlast (ub_Frags ub)). \<not> gf_IsLast f)"
    using assms by (auto simp: ub_wf_def in_set_conv_nth nth_butlast)
  show "\<forall>i < length (ub_Receipts ub). rc_CumulativeGasUsed (ub_Receipts ub ! i) =
       sum_list (map rc_GasUsed (take (Suc i) (ub_Receipts ub)))"
    using assms cumulative_nth [of 0 "ub_Receipts ub"] by (auto simp: ub_wf_def gas_of_def)
qed (use assms in \<open>simp_all add: ub_wf_def gas_of_def\<close>)

lemma find_receipt_Some:
  "find_receipt h k rs = Some (i, r) \<Longrightarrow> k \<le> i \<and> i - k < length rs \<and> rs ! (i - k) = r \<and> rc_TxHash r = h"
  by (induction h k rs rule: find_receipt.induct)
     (auto simp: nth_Cons' Suc_diff_le le_Suc_eq Suc_le_eq split: if_splits)

lemma find_receipt_None: "find_receipt h k rs = None \<longleftrightarrow> h \<notin> rc_TxHash ` set rs"
  by (induction h k rs rule: find_receipt.induct) auto

lemma unsealed_receipt_ok:
  assumes "chain_inv ops bc"
    and later: "\<And>ub. currentUnsealedBlock bc = Some ub \<Longrightarrow> prefix (ub_Frags ub) (ub_Frags ub')"
  shows "\<exists>r. unsealed_receipt (currentUnsealedBlock bc) ub' h = Some r \<and>
      (\<forall>rc tx i. r = Some (rc, tx, i) \<longrightarrow> rc_TxHash rc = h \<and> tx_hash ops tx = h) \<and>
      (\<forall>ub tx. currentUnsealedBlock bc = Some ub \<and> tx \<in> set (ub_Transactions ub) \<and> tx_hash ops tx = h \<longrightarrow> r \<noteq> None)"
proof (cases "currentUnsealedBlock bc")
  case None then show ?thesis by (simp add: unsealed_receipt_def)
next
  case (Some ub)
  then have hs: "map rc_TxHash (ub_Receipts ub) = map (tx_hash ops) (ub_Transactions ub)"
    using assms(1) by (simp add: chain_inv_def ub_wf_def)
  then have len: "length (ub_Receipts ub) = length (ub_Transactions ub)" by (metis length_map)
  obtain ys where ys: "ub_Transactions ub' = ub_Transactions ub @ ys"
    using later [OF Some] by (auto simp: prefix_def ub_Transactions_def)
  show ?thesis
  proof (cases "find_receipt h 0 (ub_Receipts ub)")
    case None
    have "rc_TxHash ` set (ub_Receipts ub) = tx_hash ops ` set (ub_Transactions ub)"
      using hs by (metis list.set_map)
    then have "h \<notin> tx_hash ops ` set (ub_Transactions ub)" using None by (simp add: find_receipt_None)
    then show ?thesis using None Some by (intro exI [of _ None]) (auto simp: unsealed_receipt_def)
  next
    case (Some ir)
    obtain i r where ir: "ir = (i, r)" by (rule prod.exhaust)
    have f: "i < length (ub_Receipts ub)" "ub_Receipts ub ! i = r" "rc_TxHash r = h"
      using find_receipt_Some [of h 0] Some ir by auto
    have "tx_hash ops (ub_Transactions ub ! i) = h" using f len hs by (metis nth_map)
    then show ?thesis using f len Some ir ys \<open>currentUnsealedBlock bc = Some ub\<close>
      by (simp add: unsealed_receipt_def nth_append)
  qed
qed

text \<open>A state read is answered from the unsealed block when it asks for the latest state.\<close>

definition asks_latest :: "('st \<times> Header) option \<Rightarrow> RpcBlockNumber \<Rightarrow> bool" where
  "asks_latest pending n \<longleftrightarrow> n = LatestBlockNumber \<or> n = PendingBlockNumber \<and> pending = None"

lemma StateAndHeader_panics:
  "StateAndHeaderByNumber ops pending headerByNumber bc bc' n = None \<longleftrightarrow>
     asks_latest pending n \<and> unsealedBlockDbState bc \<noteq> None \<and> currentUnsealedBlock bc' = None"
  by (auto simp: StateAndHeaderByNumber_def asks_latest_def Let_def split: RpcBlockNumber.splits option.splits sum.splits)

lemma reset_on_error_VALID:
  assumes "\<forall>st e bc'. r = (st, e, bc') \<longrightarrow> (st = VALID \<longleftrightarrow> e = None)"
  shows "fst (reset_on_error r) = VALID \<longleftrightarrow> (\<exists>bc'. r = (VALID, None, bc') \<and> snd (snd (reset_on_error r)) = bc')"
  using assms by (auto simp: reset_on_error_def split: prod.splits option.splits)

lemma sealFragV0_status: "sealFragV0 ops bc seal = (st, e, bc') \<Longrightarrow> st = VALID \<longleftrightarrow> e = None"
  by (auto simp: sealFragV0_def split: prod.split_asm option.split_asm if_split_asm) metis

lemma ValidateSealFragV0_None:
  "ValidateSealFragV0 ops bc b seal = None \<longleftrightarrow> (\<exists>ub. currentUnsealedBlock bc = Some ub \<and>
      block_hash ops b = seal_BlockHash seal \<and> h_ParentHash (b_Header b) = seal_ParentHash seal \<and>
      h_Root (b_Header b) = seal_StateRoot seal \<and> h_TxHash (b_Header b) = seal_TransactionsRoot seal \<and>
      h_ReceiptHash (b_Header b) = seal_ReceiptsRoot seal \<and> h_GasUsed (b_Header b) = seal_GasUsed seal \<and>
      h_GasLimit (b_Header b) = seal_GasLimit seal \<and> int (length (ub_Frags ub)) = sint (seal_TotalFrags seal))"
  by (simp add: ValidateSealFragV0_def Let_def split: option.split)

lemma SealFragV0_VALID_iff:
  "fst (SealFragV0 ops bc seal) = VALID \<longleftrightarrow>
   (\<exists>b bc1 ub. GetBlock ops bc (seal_BlockHash seal) (seal_BlockNumber seal) = (Some b, bc1) \<and>
      currentUnsealedBlock bc = Some ub \<and>
      block_hash ops b = seal_BlockHash seal \<and> h_ParentHash (b_Header b) = seal_ParentHash seal \<and>
      h_Root (b_Header b) = seal_StateRoot seal \<and> h_TxHash (b_Header b) = seal_TransactionsRoot seal \<and>
      h_ReceiptHash (b_Header b) = seal_ReceiptsRoot seal \<and> h_GasUsed (b_Header b) = seal_GasUsed seal \<and>
      h_GasLimit (b_Header b) = seal_GasLimit seal \<and>
      int (length (ub_Frags ub)) = sint (seal_TotalFrags seal) \<and> set_canonical_ok ops bc1 b \<and>
      snd (snd (SealFragV0 ops bc seal)) = ResetCurrentUnsealedBlock (bc1\<lparr>bc_currentBlock := b\<rparr>))"
    (is "?v \<longleftrightarrow> ?c")
proof
  assume ?v
  then obtain bc' where s: "sealFragV0 ops bc seal = (VALID, None, bc')"
    and r: "snd (snd (SealFragV0 ops bc seal)) = bc'"
    unfolding SealFragV0_def using reset_on_error_VALID [of "sealFragV0 ops bc seal"] sealFragV0_status by blast
  from s obtain b bc1 where g: "GetBlock ops bc (seal_BlockHash seal) (seal_BlockNumber seal) = (Some b, bc1)"
    and v: "ValidateSealFragV0 ops bc1 b seal = None" and c: "set_canonical_ok ops bc1 b"
    and e: "bc' = ResetCurrentUnsealedBlock (bc1\<lparr>bc_currentBlock := b\<rparr>)" by (rule sealFragV0_None)
  show ?c using g v c e r GetBlock_unsealed(1) [OF g] by (auto simp: ValidateSealFragV0_None)
next
  assume ?c
  then obtain b bc1 where g: "GetBlock ops bc (seal_BlockHash seal) (seal_BlockNumber seal) = (Some b, bc1)"
    and v: "ValidateSealFragV0 ops bc1 b seal = None" and c: "set_canonical_ok ops bc1 b"
    using GetBlock_unsealed(1) by (fastforce simp: ValidateSealFragV0_None)
  then show ?v by (simp add: SealFragV0_def sealFragV0_def reset_on_error_def)
qed

lemma blockCache_AddD:
  "gm_get (blockCache_Add ops h b c) k = Some b' \<Longrightarrow> gm_get c k = Some b' \<or> k = h \<and> b' = b"
  by (auto simp: blockCache_Add_def gomap_simps split: if_splits)

lemma GetBlock_again:
  assumes "GetBlock ops bc h n = (Some p, bc1)"
  obtains bc2 where "GetBlock ops bc1 h n = (Some p, bc2)"
proof (cases "gm_get (bc_blockCache bc) h")
  case None
  then have db: "gm_get (bc_blocks bc) (h, n) = Some p"
    and bc1: "bc1 = bc\<lparr>bc_blockCache := blockCache_Add ops (block_hash ops p) p (bc_blockCache bc)\<rparr>"
    using assms by (auto simp: GetBlock_def split: option.splits)
  have "gm_get (bc_blockCache bc1) h = None \<or> gm_get (bc_blockCache bc1) h = Some p"
    using None by (simp add: bc1 blockCache_Add_def gomap_simps)
  then show thesis using db that by (auto simp: GetBlock_def bc1)
next
  case (Some b) then show thesis using assms that by (auto simp: GetBlock_def)
qed

lemma GetBlockByHash_twice:
  assumes "GetBlockByHash ops bc h = (Some p, bc1)"
  obtains n bc2 where "GetBlock ops bc h n = (Some p, bc1)" "GetBlock ops bc1 h n = (Some p, bc2)"
    "GetBlockByHash ops bc1 h = (Some p, bc2)"
proof -
  obtain n where n: "gm_get (bc_numbers bc) h = Some n" and g: "GetBlock ops bc h n = (Some p, bc1)"
    using assms by (auto simp: GetBlockByHash_def split: option.splits)
  obtain bc2 where g2: "GetBlock ops bc1 h n = (Some p, bc2)" by (rule GetBlock_again [OF g])
  have "gm_get (bc_numbers bc1) h = Some n" using n GetBlock_unsealed(4) [OF g] by simp
  then show thesis using that g g2 by (simp add: GetBlockByHash_def)
qed

lemma envV0_status: "envV0 ops bc e = (st, er, bc') \<Longrightarrow> st = VALID \<longleftrightarrow> er = None"
  by (auto simp: envV0_def split: prod.splits option.splits)

lemma ValidateEnvV0_None:
  "ValidateEnvV0 ops bc e = (None, bc1) \<longleftrightarrow> (\<exists>p. GetBlockByHash ops bc (env_ParentHash e) = (Some p, bc1) \<and>
     currentUnsealedBlock bc = None \<and> env_Number e = of_nat (h_Number (b_Header p)) + 1 \<and>
     h_Time (b_Header p) \<le> env_Timestamp e)"
proof -
  obtain op bc0 where g: "GetBlockByHash ops bc (env_ParentHash e) = (op, bc0)" by (rule prod.exhaust)
  show ?thesis using g GetBlockByHash_unsealed(1) [OF g]
    by (cases op) (auto simp: ValidateEnvV0_def Let_def not_less)
qed

lemma EnvV0_VALID_iff:
  "fst (EnvV0 ops bc e) = VALID \<longleftrightarrow>
   (\<exists>p bc1 bc2 st. GetBlockByHash ops bc (env_ParentHash e) = (Some p, bc1) \<and>
      GetBlockByHash ops bc1 (env_ParentHash e) = (Some p, bc2) \<and>
      currentUnsealedBlock bc = None \<and> env_Number e = of_nat (h_Number (b_Header p)) + 1 \<and>
      h_Time (b_Header p) \<le> env_Timestamp e \<and> StateAt ops bc2 (h_Root (b_Header p)) = Inr st \<and>
      snd (snd (EnvV0 ops bc e)) =
        bc2\<lparr>unsealedBlockDbState := Some st, currentUnsealedBlock := Some (NewUnsealedBlock e)\<rparr>)"
    (is "?v \<longleftrightarrow> ?c")
proof
  assume ?v
  then obtain bc' where s: "envV0 ops bc e = (VALID, None, bc')" and r: "snd (snd (EnvV0 ops bc e)) = bc'"
    unfolding EnvV0_def using reset_on_error_VALID [of "envV0 ops bc e"] envV0_status by blast
  then obtain bc1 where v: "ValidateEnvV0 ops bc e = (None, bc1)"
    and c: "SetCurrentUnsealedBlock ops bc1 (NewUnsealedBlock e) = (None, bc')"
    by (auto simp: envV0_def split: prod.splits option.splits)
  from v obtain p where p: "GetBlockByHash ops bc (env_ParentHash e) = (Some p, bc1)" "currentUnsealedBlock bc = None"
    "env_Number e = of_nat (h_Number (b_Header p)) + 1" "h_Time (b_Header p) \<le> env_Timestamp e"
    by (auto simp: ValidateEnvV0_None)
  obtain bc2 where g: "GetBlockByHash ops bc1 (env_ParentHash e) = (Some p, bc2)"
    by (rule GetBlockByHash_twice [OF p(1)])
  show ?c using c g p r by (auto simp: SetCurrentUnsealedBlock_def NewUnsealedBlock_def split: sum.splits)
next
  assume ?c
  then obtain p bc1 bc2 st where p: "GetBlockByHash ops bc (env_ParentHash e) = (Some p, bc1)"
      "GetBlockByHash ops bc1 (env_ParentHash e) = (Some p, bc2)"
      "currentUnsealedBlock bc = None" "env_Number e = of_nat (h_Number (b_Header p)) + 1"
      "h_Time (b_Header p) \<le> env_Timestamp e" "StateAt ops bc2 (h_Root (b_Header p)) = Inr st" by blast
  then have "ValidateEnvV0 ops bc e = (None, bc1)" by (auto simp: ValidateEnvV0_None)
  then show ?v using p by (simp add: EnvV0_def envV0_def SetCurrentUnsealedBlock_def NewUnsealedBlock_def reset_on_error_def)
qed

lemma newFragV0_status: "newFragV0 ops bc f = Some (st, er, bc') \<Longrightarrow> st = VALID \<longleftrightarrow> er = None"
  by (auto simp: newFragV0_def split: prod.splits option.splits sum.splits if_splits)

lemma reset_on_error_eq:
  "reset_on_error (st, er, bc) = (st, er, if er = None then bc else ResetCurrentUnsealedBlock bc)"
  by (simp add: reset_on_error_def split: option.splits)

lemma engine_call_cases:
  assumes "engine_call ops bc c = Some (status, err, bc')"
  shows "\<exists>bc0. bc' = (if err = None then bc0 else ResetCurrentUnsealedBlock bc0) \<and>
    (case c of
       CallEnv e \<Rightarrow> envV0 ops bc e = (status, err, bc0)
     | CallFrag f \<Rightarrow> newFragV0 ops bc f = Some (status, err, bc0)
     | CallSeal s \<Rightarrow> sealFragV0 ops bc s = (status, err, bc0))"
proof (cases c)
  case (CallEnv e)
  obtain a b d where "envV0 ops bc e = (a, b, d)" by (rule prod_cases3)
  then show ?thesis using assms CallEnv by (auto simp: EnvV0_def reset_on_error_eq)
next
  case (CallFrag f)
  then obtain a b d where "newFragV0 ops bc f = Some (a, b, d)" "reset_on_error (a, b, d) = (status, err, bc')"
    using assms by (auto simp: NewFragV0_def)
  then show ?thesis using CallFrag by (auto simp: reset_on_error_eq)
next
  case (CallSeal s)
  obtain a b d where "sealFragV0 ops bc s = (a, b, d)" by (rule prod_cases3)
  then show ?thesis using assms CallSeal by (auto simp: SealFragV0_def reset_on_error_eq)
qed

lemma engine_call_status:
  assumes "engine_call ops bc c = Some (status, err, bc')"
  shows "status = (if err = None then VALID else INVALID)"
proof -
  have "status = VALID \<longleftrightarrow> err = None" using engine_call_cases [OF assms]
    by (cases c) (auto dest: envV0_status newFragV0_status sealFragV0_status)
  then show ?thesis by (cases status) auto
qed

lemma envV0_head: "envV0 ops bc e = (st, er, bc') \<Longrightarrow> bc_currentBlock bc' = bc_currentBlock bc"
  by (auto simp: envV0_def ValidateEnvV0_def SetCurrentUnsealedBlock_def Let_def
      dest!: GetBlockByHash_unsealed(5) split: prod.splits option.splits if_splits sum.splits)

lemma newFragV0_head: "newFragV0 ops bc f = Some (st, er, bc') \<Longrightarrow> bc_currentBlock bc' = bc_currentBlock bc"
  by (auto simp: newFragV0_def InsertNewFrag_def SealBlock_def InsertBlockWithoutSetHead_def Let_def
      split: prod.splits option.splits if_splits sum.splits)

lemma sealFragV0_head: "sealFragV0 ops bc s = (st, Some er, bc') \<Longrightarrow> bc_currentBlock bc' = bc_currentBlock bc"
  by (auto simp: sealFragV0_def dest!: GetBlock_unsealed(5) split: prod.split_asm option.split_asm if_split_asm)

lemma engine_call_error:
  assumes "engine_call ops bc c = Some (status, err, bc')" "err \<noteq> None"
  shows "currentUnsealedBlock bc' = None \<and> unsealedBlockDbState bc' = None \<and> bc_currentBlock bc' = bc_currentBlock bc"
proof -
  obtain er where "err = Some er" using assms(2) by blast
  then show ?thesis using engine_call_cases [OF assms(1)]
    by (cases c) (auto simp: ResetCurrentUnsealedBlock_def dest: envV0_head newFragV0_head sealFragV0_head)
qed

end
