(* ===== verification/Unsealed_Stream.thy ===== *)
theory Unsealed_Stream
  imports Unsealed_Proofs
begin

text \<open>
  Streaming a block in frags against executing it in one go, under what the code relies on of the EVM
  and the state database.
\<close>

section \<open>What execution promises\<close>

text \<open>
  The laws of transaction execution: a transaction that runs with some gas pool runs to the same
  result with a larger one, and neither its position nor the gas counter of the header matters
  (\<open>Log\<close> is the consensus encoding of a log, which has no position). The system calls before the first
  transaction depend on the header only, establish \<open>Q\<close> and change nothing once it holds; transactions
  keep it. Without withdrawals \<^verbatim>\<open>Finalize\<close> leaves the state alone, and before Prague there are no
  requests. The receipt hash and the bloom filter of a block do not depend on the inclusion fields of
  the receipts: the hash and the number of the block they were executed in and their index there.
\<close>

definition no_gas :: "Header \<Rightarrow> Header" where
  "no_gas h = h\<lparr>h_GasUsed := 0\<rparr>"

definition msg_law :: "'st Ops \<Rightarrow> (Header \<Rightarrow> 'st \<Rightarrow> bool) \<Rightarrow> Header \<Rightarrow> nat \<Rightarrow> Transaction \<Rightarrow> 'st \<Rightarrow> u64 \<Rightarrow> bool" where
  "msg_law ops Q h i tx st gp \<longleftrightarrow>
     (case apply_msg ops h i tx st gp of
        Inl _ \<Rightarrow> True
      | Inr (st', gp', r) \<Rightarrow>
          gp' \<le> gp \<and> (Q (no_gas h) st \<longrightarrow> Q (no_gas h) st') \<and>
          (\<forall>h2 j gp2. no_gas h2 = no_gas h \<longrightarrow> gp \<le> gp2 \<longrightarrow>
             (\<exists>gp2'. gp' \<le> gp2' \<and> apply_msg ops h2 j tx st gp2 = Inr (st', gp2', r))))"

definition consensus :: "Receipt \<Rightarrow> Receipt" where
  "consensus r = r\<lparr>rc_BlockHash := [], rc_BlockNumber := 0, rc_TransactionIndex := 0\<rparr>"

definition evm_laws :: "'st Ops \<Rightarrow> (Header \<Rightarrow> 'st \<Rightarrow> bool) \<Rightarrow> bool" where
  "evm_laws ops Q \<longleftrightarrow>
     (\<forall>h i tx st gp. msg_law ops Q h i tx st gp) \<and>
     (\<forall>h st. Q (no_gas h) (pre_block ops h st)) \<and>
     (\<forall>h st. Q (no_gas h) st \<longrightarrow> pre_block ops h st = st) \<and>
     (\<forall>h h2 st. no_gas h = no_gas h2 \<longrightarrow> pre_block ops h st = pre_block ops h2 st) \<and>
     (\<forall>b st. finalize ops b st = st) \<and>
     (\<forall>h logs. parse_requests ops h logs = Inr []) \<and>
     (\<forall>rs rs'. map consensus rs = map consensus rs' \<longrightarrow>
        DeriveShaReceipts ops rs = DeriveShaReceipts ops rs' \<and> CreateBloom ops rs = CreateBloom ops rs')"

lemma evm_lawsD:
  assumes "evm_laws ops Q"
  shows "apply_msg ops h i tx st gp = Inr (st', gp', r) \<Longrightarrow> gp' \<le> gp"
    and "apply_msg ops h i tx st gp = Inr (st', gp', r) \<Longrightarrow> Q (no_gas h) st \<Longrightarrow> Q (no_gas h) st'"
    and "apply_msg ops h i tx st gp = Inr (st', gp', r) \<Longrightarrow> no_gas h2 = no_gas h \<Longrightarrow> gp \<le> gp2 \<Longrightarrow>
      \<exists>gp2'. gp' \<le> gp2' \<and> apply_msg ops h2 j tx st gp2 = Inr (st', gp2', r)"
    and "Q (no_gas h) (pre_block ops h st)"
    and "Q (no_gas h) st \<Longrightarrow> pre_block ops h st = st"
    and "no_gas h = no_gas h2 \<Longrightarrow> pre_block ops h st = pre_block ops h2 st"
    and "finalize ops b st = st"
    and "parse_requests ops h ls = Inr []"
    and "map consensus rs = map consensus rs' \<Longrightarrow> DeriveShaReceipts ops rs = DeriveShaReceipts ops rs'"
    and "map consensus rs = map consensus rs' \<Longrightarrow> CreateBloom ops rs = CreateBloom ops rs'"
proof -
  have A: "msg_law ops Q h i tx st gp" using assms unfolding evm_laws_def by blast
  show "apply_msg ops h i tx st gp = Inr (st', gp', r) \<Longrightarrow> gp' \<le> gp"
    "apply_msg ops h i tx st gp = Inr (st', gp', r) \<Longrightarrow> Q (no_gas h) st \<Longrightarrow> Q (no_gas h) st'"
    "apply_msg ops h i tx st gp = Inr (st', gp', r) \<Longrightarrow> no_gas h2 = no_gas h \<Longrightarrow> gp \<le> gp2 \<Longrightarrow>
      \<exists>gp2'. gp' \<le> gp2' \<and> apply_msg ops h2 j tx st gp2 = Inr (st', gp2', r)"
    using A by (simp_all add: msg_law_def)
  show "no_gas h = no_gas h2 \<Longrightarrow> pre_block ops h st = pre_block ops h2 st"
    "Q (no_gas h) st \<Longrightarrow> pre_block ops h st = st" "Q (no_gas h) (pre_block ops h st)"
    using assms unfolding evm_laws_def by meson+
  show "finalize ops b st = st" "parse_requests ops h ls = Inr []"
    using assms unfolding evm_laws_def by metis+
  show "map consensus rs = map consensus rs' \<Longrightarrow> DeriveShaReceipts ops rs = DeriveShaReceipts ops rs'"
    "map consensus rs = map consensus rs' \<Longrightarrow> CreateBloom ops rs = CreateBloom ops rs'"
    using assms unfolding evm_laws_def by meson+
qed

lemma no_gas_fields:
  assumes "no_gas h2 = no_gas h"
  shows "h_Time h2 = h_Time h" "h_Number h2 = h_Number h" "h_ExcessBlobGas h2 = h_ExcessBlobGas h"
proof -
  have "h_Time (no_gas h2) = h_Time (no_gas h)" "h_Number (no_gas h2) = h_Number (no_gas h)"
    "h_ExcessBlobGas (no_gas h2) = h_ExcessBlobGas (no_gas h)" using assms by simp_all
  then show "h_Time h2 = h_Time h" "h_Number h2 = h_Number h" "h_ExcessBlobGas h2 = h_ExcessBlobGas h"
    by (simp_all add: no_gas_def)
qed

lemma consensus_MakeReceipt:
  "no_gas h2 = no_gas h \<Longrightarrow>
   consensus (MakeReceipt ops h2 r j tx g root nonce) = consensus (MakeReceipt ops h r i tx g root nonce)"
  by (simp add: consensus_def MakeReceipt_def Let_def no_gas_fields [of h2 h])

lemma receipt_nonce_no_gas: "no_gas h2 = no_gas h \<Longrightarrow> receipt_nonce ops h2 tx st = receipt_nonce ops h tx st"
  by (simp add: receipt_nonce_def no_gas_fields [of h2 h])

lemma process_txs_mono:
  assumes laws: "evm_laws ops Q"
    and "process_txs ops h i txs st gp g = (Inr rs, st', g')" "no_gas h2 = no_gas h" "gp \<le> gp2"
  shows "\<exists>rs2. process_txs ops h2 j txs st gp2 g = (Inr rs2, st', g') \<and> map consensus rs2 = map consensus rs"
  using assms(2-)
proof (induction txs arbitrary: i j st gp gp2 g rs)
  case (Cons tx txs)
  from Cons.prems(1) obtain st1 gp1 r rs' where
    a: "apply_msg ops h i tx st gp = Inr (st1, gp1, r)"
    and p: "process_txs ops h (Suc i) txs st1 gp1 (g + er_UsedGas r) = (Inr rs', st', g')"
    and e: "rs = MakeReceipt ops h r i tx (g + er_UsedGas r) [] (receipt_nonce ops h tx st) # rs'" by (rule process_txs_ConsE)
  obtain gp2' where gp2': "gp1 \<le> gp2'" and a2: "apply_msg ops h2 j tx st gp2 = Inr (st1, gp2', r)"
    using evm_lawsD(3) [OF laws a Cons.prems(2,3)] by blast
  obtain rs2 where p2: "process_txs ops h2 (Suc j) txs st1 gp2' (g + er_UsedGas r) = (Inr rs2, st', g')"
    and c: "map consensus rs2 = map consensus rs'" using Cons.IH [OF p Cons.prems(2) gp2'] by blast
  have "consensus (MakeReceipt ops h2 r j tx (g + er_UsedGas r) [] (receipt_nonce ops h2 tx st)) =
      consensus (MakeReceipt ops h r i tx (g + er_UsedGas r) [] (receipt_nonce ops h tx st))"
    unfolding receipt_nonce_no_gas [OF Cons.prems(2)] by (rule consensus_MakeReceipt [OF Cons.prems(2)])
  then show ?case using process_txs_ConsI [OF a2 p2] c e by auto
qed simp

lemma process_txs_append:
  assumes laws: "evm_laws ops Q" and "process_txs ops h i (xs @ ys) st gp g = (Inr rs, st', g')"
  obtains rs1 rs2 st1 g1 gp1 where "process_txs ops h i xs st gp g = (Inr rs1, st1, g1)" "gp1 \<le> gp"
    "process_txs ops h (i + length xs) ys st1 gp1 g1 = (Inr rs2, st', g')" "rs = rs1 @ rs2"
  using assms(2)
proof (induction xs arbitrary: i st gp g rs thesis)
  case Nil then show ?case by (simp add: Nil(1) [of "[]" st g gp rs])
next
  case (Cons tx xs)
  from Cons.prems(2) obtain st1 gp1 r rs' where
    a: "apply_msg ops h i tx st gp = Inr (st1, gp1, r)"
    and p: "process_txs ops h (Suc i) (xs @ ys) st1 gp1 (g + er_UsedGas r) = (Inr rs', st', g')"
    and e: "rs = MakeReceipt ops h r i tx (g + er_UsedGas r) [] (receipt_nonce ops h tx st) # rs'"
    unfolding append_Cons by (rule process_txs_ConsE)
  from Cons.IH [OF _ p] obtain rs1 rs2 st2 g2 gp2 where
    i: "process_txs ops h (Suc i) xs st1 gp1 (g + er_UsedGas r) = (Inr rs1, st2, g2)" "gp2 \<le> gp1"
      "process_txs ops h (Suc i + length xs) ys st2 gp2 g2 = (Inr rs2, st', g')" "rs' = rs1 @ rs2" by blast
  have "gp2 \<le> gp" using i(2) evm_lawsD(1) [OF laws a] by simp
  then show ?case using Cons.prems(1) [OF process_txs_ConsI [OF a i(1)], of gp2 rs2] i(3,4) e by simp
qed

lemma process_txs_keeps:
  assumes laws: "evm_laws ops Q" and "process_txs ops h i txs st gp g = (Inr rs, st', g')" "Q (no_gas h) st"
  shows "Q (no_gas h) st'"
  using assms(2-)
proof (induction txs arbitrary: i st gp g rs)
  case (Cons tx txs)
  from Cons.prems(1) show ?case
    by (rule process_txs_ConsE) (use Cons.IH evm_lawsD(2) [OF laws] Cons.prems(2) in blast)
qed simp

lemma no_gas_frag_block:
  "ub_Env ub = ub_Env ub' \<Longrightarrow> gf_BlockNumber f = gf_BlockNumber f' \<Longrightarrow>
   no_gas (b_Header (frag_block ops ub f)) = no_gas (b_Header (frag_block ops ub' f'))"
  by (simp add: no_gas_def frag_block_def)

section \<open>One frag of a stream\<close>

text \<open>
  The node in the middle of a stream: the frags \<open>ds\<close> are in, and running the transactions that remain
  from the present state would end in \<open>rs\<close>, \<open>st'\<close> and \<open>g'\<close>.
\<close>

definition streaming :: "'st Ops \<Rightarrow> Env \<Rightarrow> 'st BlockChain \<Rightarrow> Frag list \<Rightarrow> Transaction list \<Rightarrow>
    Receipt list \<Rightarrow> 'st \<Rightarrow> u64 \<Rightarrow> (Header \<Rightarrow> 'st \<Rightarrow> bool) \<Rightarrow> bool" where
  "streaming ops e bc ds txs rs st' g' Q \<longleftrightarrow>
     (\<exists>ub st h i gp rs2.
        currentUnsealedBlock bc = Some ub \<and> unsealedBlockDbState bc = Some st \<and> ub_wf ops ub \<and>
        ub_Env ub = e \<and> ub_Frags ub = ds \<and> ub_Requests ub = [] \<and>
        no_gas h = no_gas (b_Header (frag_block ops ub \<lparr>gf_BlockNumber = env_Number e, gf_Seq = 0, gf_IsLast = False, gf_Txs = []\<rparr>)) \<and>
        gp \<le> env_GasLimit e \<and> map consensus rs = map consensus (ub_Receipts ub @ rs2) \<and> (ds = [] \<or> Q (no_gas h) st) \<and>
        process_txs ops h i txs (pre_block ops h st) gp (ub_CumulativeGasUsed ub) = (Inr rs2, st', g'))"

lemma streaming_step:
  assumes laws: "evm_laws ops Q"
    and s: "streaming ops e bc ds (gf_Txs f @ txs) rs st' g' Q"
    and f: "gf_BlockNumber f = env_Number e" "gf_Seq f = of_nat (length ds)"
    and op: "ds \<noteq> [] \<longrightarrow> \<not> gf_IsLast (last ds)" and len: "length ds < 2 ^ 64"
  obtains bc1 where "ValidateNewFragV0 f (currentUnsealedBlock bc) = Some None"
    "InsertNewFrag ops bc f = Some (None, bc1)" "streaming ops e bc1 (ds @ [f]) txs rs st' g' Q"
    "\<exists>x y. bc1 = bc\<lparr>currentUnsealedBlock := x, unsealedBlockDbState := y\<rparr>"
proof -
  from s obtain ub st h i gp rs2 where
    ub: "currentUnsealedBlock bc = Some ub" "unsealedBlockDbState bc = Some st" "ub_wf ops ub"
      "ub_Env ub = e" "ub_Frags ub = ds" "ub_Requests ub = []"
    and h: "no_gas h = no_gas (b_Header (frag_block ops ub \<lparr>gf_BlockNumber = env_Number e, gf_Seq = 0, gf_IsLast = False, gf_Txs = []\<rparr>))"
    and gp: "gp \<le> env_GasLimit e" and rs: "map consensus rs = map consensus (ub_Receipts ub @ rs2)"
    and p: "process_txs ops h i (gf_Txs f @ txs) (pre_block ops h st) gp (ub_CumulativeGasUsed ub) = (Inr rs2, st', g')"
    unfolding streaming_def by (elim exE conjE) (rule that; assumption)
  let ?B = "frag_block ops ub f"
  have hB: "no_gas (b_Header ?B) = no_gas h" unfolding h by (rule no_gas_frag_block) (simp_all add: f)
  have pre: "pre_block ops (b_Header ?B) st = pre_block ops h st" by (rule evm_lawsD(6) [OF laws hB])
  obtain rsh rsr st1 g1 gp1 where
    p1: "process_txs ops h i (gf_Txs f) (pre_block ops h st) gp (ub_CumulativeGasUsed ub) = (Inr rsh, st1, g1)"
    and gp1: "gp1 \<le> gp"
    and p2: "process_txs ops h (i + length (gf_Txs f)) txs st1 gp1 g1 = (Inr rsr, st', g')"
    and rs2: "rs2 = rsh @ rsr" by (rule process_txs_append [OF laws p])
  have lim: "gp \<le> h_GasLimit (b_Header ?B)" using gp ub(4) by (simp add: frag_block_def)
  obtain rsf where pf: "process_txs ops (b_Header ?B) 0 (gf_Txs f) (pre_block ops h st) (h_GasLimit (b_Header ?B))
          (ub_CumulativeGasUsed ub) = (Inr rsf, st1, g1)" and cf: "map consensus rsf = map consensus rsh"
    using process_txs_mono [OF laws p1 hB lim] by blast
  have "b_Transactions ?B = gf_Txs f" by (simp add: frag_block_def)
  then have proc: "ProcessWithCumulativeGas ops ?B st (ub_CumulativeGasUsed ub) =
      (Inr \<lparr>pr_Receipts = rsf, pr_Requests = [], pr_Logs = concat (map rc_Logs rsf), pr_GasUsed = g1\<rparr>, st1, g1)"
    using pf by (simp add: ProcessWithCumulativeGas_def Let_def pre evm_lawsD(7,8) [OF laws])
  have q1: "Q (no_gas h) st1" by (rule process_txs_keeps [OF laws p1 evm_lawsD(4) [OF laws]])
  have keep: "pre_block ops h st1 = st1" by (rule evm_lawsD(5) [OF laws q1])
  have nxt: "IsNextFrag ub f = Some True"
  proof -
    have "unat (of_nat (length ds - 1) :: u64) = length ds - 1" using len by (intro unat_of_nat_u64) simp
    then show ?thesis using IsNextFrag_wf [OF ub(3), of f] f op ub(5) by (auto simp: last_conv_nth)
  qed
  have v: "ValidateNewFragV0 f (currentUnsealedBlock bc) = Some None"
    using nxt f ub by (simp add: ValidateNewFragV0_def)
  have num: "gf_BlockNumber f = env_Number (ub_Env ub)" using f ub(4) by simp
  define ub1 where "ub1 = ub\<lparr>
     ub_CumulativeBlobGasUsed := foldl (\<lambda>a r. a + rc_BlobGasUsed r) (ub_CumulativeBlobGasUsed ub) rsf,
     ub_Frags := ub_Frags ub @ [f], ub_LastSequenceNumber := Some (gf_Seq f),
     ub_Receipts := ub_Receipts ub @ rsf, ub_Logs := ub_Logs ub @ concat (map rc_Logs rsf),
     ub_Requests := ub_Requests ub @ [], ub_CumulativeGasUsed := g1\<rparr>"
  have wf1: "ub_wf ops ub1"
    using ub_wf_insert [OF ub(3) num nxt proc] unfolding ub1_def by (simp only: ProcessResult.simps)
  define bc1 where "bc1 = bc\<lparr>unsealedBlockDbState := Some st1, currentUnsealedBlock := Some ub1\<rparr>"
  have ins: "InsertNewFrag ops bc f = Some (None, bc1)"
    using ub(1,2) proc by (simp add: InsertNewFrag_def bc1_def ub1_def)
  have h1: "no_gas h = no_gas (b_Header (frag_block ops ub1 \<lparr>gf_BlockNumber = env_Number e, gf_Seq = 0, gf_IsLast = False, gf_Txs = []\<rparr>))"
    unfolding h by (rule no_gas_frag_block) (simp_all add: ub1_def)
  have "streaming ops e bc1 (ds @ [f]) txs rs st' g' Q"
    unfolding streaming_def
    by (rule exI [of _ ub1], rule exI [of _ st1], rule exI [of _ h],
        rule exI [of _ "i + length (gf_Txs f)"], rule exI [of _ gp1], rule exI [of _ rsr])
       (use h1 wf1 p2 keep q1 order_trans [OF gp1 gp] rs rs2 cf ub in \<open>simp add: bc1_def ub1_def\<close>)
  moreover have "bc1 = bc\<lparr>currentUnsealedBlock := Some ub1, unsealedBlockDbState := Some st1\<rparr>"
    by (simp add: bc1_def)
  ultimately show thesis using that v ins by blast
qed

section \<open>A whole stream\<close>

fun frag_seq :: "Env \<Rightarrow> nat \<Rightarrow> Frag list \<Rightarrow> bool" where
  "frag_seq e n [] = True"
| "frag_seq e n (f # fs) =
     (gf_BlockNumber f = env_Number e \<and> gf_Seq f = of_nat n \<and> gf_IsLast f = (fs = []) \<and> frag_seq e (Suc n) fs)"

text \<open>The unsealed block after one frag with all the transactions of a block.\<close>

definition one_frag :: "Env \<Rightarrow> Transaction list \<Rightarrow> Frag" where
  "one_frag e txs = \<lparr>gf_BlockNumber = env_Number e, gf_Seq = 0, gf_IsLast = True, gf_Txs = txs\<rparr>"

definition one_frag_block :: "'st Ops \<Rightarrow> Env \<Rightarrow> Transaction list \<Rightarrow> ProcessResult \<Rightarrow> 'st \<Rightarrow> Block" where
  "one_frag_block ops e txs res st =
     sealed_block ops ((NewUnsealedBlock e)\<lparr>ub_Frags := [one_frag e txs], ub_Receipts := pr_Receipts res,
       ub_CumulativeGasUsed := pr_GasUsed res\<rparr>) (fst (IntermediateRoot ops st))"

lemma sealed_block_cong:
  assumes laws: "evm_laws ops Q" and rs: "map consensus (ub_Receipts ub) = map consensus (ub_Receipts ub')"
    and "ub_Env ub = ub_Env ub'" "ub_Transactions ub = ub_Transactions ub'"
    and "ub_CumulativeGasUsed ub = ub_CumulativeGasUsed ub'" "ub_Requests ub = ub_Requests ub'"
  shows "sealed_block ops ub r = sealed_block ops ub' r"
  using assms(3-) evm_lawsD(9,10) [OF laws rs] by (simp add: sealed_block_def)

lemma streaming_done:
  assumes laws: "evm_laws ops Q" and s: "streaming ops e bc ds [] rs st' g' Q" and ne: "ds \<noteq> []"
  obtains ub where "currentUnsealedBlock bc = Some ub" "unsealedBlockDbState bc = Some st'"
    "ub_Env ub = e" "ub_Frags ub = ds" "ub_Requests ub = []" "map consensus (ub_Receipts ub) = map consensus rs"
    "ub_CumulativeGasUsed ub = g'"
proof -
  from s obtain ub st h i gp rs2 where
    ub: "currentUnsealedBlock bc = Some ub" "unsealedBlockDbState bc = Some st"
      "ub_Env ub = e" "ub_Frags ub = ds" "ub_Requests ub = []"
    and rs: "map consensus rs = map consensus (ub_Receipts ub @ rs2)" and q: "ds = [] \<or> Q (no_gas h) st"
    and p: "process_txs ops h i [] (pre_block ops h st) gp (ub_CumulativeGasUsed ub) = (Inr rs2, st', g')"
    unfolding streaming_def by (elim exE conjE) (rule that; assumption)
  have "Q (no_gas h) st" using q ne by simp
  then have "pre_block ops h st = st" by (rule evm_lawsD(5) [OF laws])
  then show thesis using that [of ub] ub rs p by simp
qed

text \<open>
  Two chains with the same database and head, whatever their block cache and unsealed block are: what
  the engine calls of a stream leave alone until the last frag. The last frag stores the block.
\<close>

definition same_db :: "'st BlockChain \<Rightarrow> 'st BlockChain \<Rightarrow> bool" where
  "same_db c d \<longleftrightarrow> bc_blocks c = bc_blocks d \<and> bc_numbers c = bc_numbers d \<and> bc_currentBlock c = bc_currentBlock d"

definition stored :: "'st Ops \<Rightarrow> Block \<Rightarrow> 'st BlockChain \<Rightarrow> 'st BlockChain" where
  "stored ops b bc =
     (let h = block_hash ops b; n = of_nat (h_Number (b_Header b)) in
      bc\<lparr>bc_blocks := gm_put (h, n) b (bc_blocks bc), bc_numbers := gm_put h n (bc_numbers bc)\<rparr>)"

lemma same_db_trans: "same_db c d \<Longrightarrow> same_db d e \<Longrightarrow> same_db c e"
  by (simp add: same_db_def)

lemma same_db_stored: "same_db c d \<Longrightarrow> same_db (stored ops b c) (stored ops b d)"
  by (simp add: same_db_def stored_def Let_def)

lemma SealBlock_ok:
  assumes "unsealedBlockDbState bc = Some st" "verify_block ops (bc\<lparr>unsealedBlockDbState := Some (snd (IntermediateRoot ops st))\<rparr>) B = None"
    "B = sealed_block ops ub (fst (IntermediateRoot ops st))"
  obtains bc' where "SealBlock ops bc ub = (Inr B, bc')" "same_db bc' (stored ops B bc)"
    "currentUnsealedBlock bc' = currentUnsealedBlock bc" "bc_blockCache bc' = bc_blockCache bc"
  using assms
  by (auto simp: SealBlock_def InsertBlockWithoutSetHead_def Let_def case_prod_beta same_db_def stored_def)

lemma stream_run:
  assumes laws: "evm_laws ops Q"
    and "streaming ops e bc ds (concat (map gf_Txs fs)) rs st' g' Q"
    and "frag_seq e (length ds) fs" "fs \<noteq> []" "ds \<noteq> [] \<longrightarrow> \<not> gf_IsLast (last ds)"
    and "length ds + length fs \<le> 2 ^ 64"
    and ver: "\<And>c. same_db c bc \<Longrightarrow> verify_block ops c B = None"
    and "B = one_frag_block ops e (concat (map gf_Txs (ds @ fs))) res st'"
    and res: "pr_Receipts res = rs" "pr_GasUsed res = g'"
  shows "\<exists>bc' ub. foldl (engine_step ops) (Some bc) (map CallFrag fs) = Some bc' \<and>
    currentUnsealedBlock bc' = Some ub \<and> ub_Frags ub = ds @ fs \<and> bc_blockCache bc' = bc_blockCache bc \<and>
    same_db bc' (stored ops B bc)"
  using assms(2-8)
proof (induction fs arbitrary: ds bc)
  case (Cons f fs)
  have s: "streaming ops e bc ds (gf_Txs f @ concat (map gf_Txs fs)) rs st' g' Q" using Cons.prems(1) by simp
  have f: "gf_BlockNumber f = env_Number e" "gf_Seq f = of_nat (length ds)" "gf_IsLast f = (fs = [])"
    and fs: "frag_seq e (Suc (length ds)) fs" using Cons.prems(2) by auto
  have len: "length ds < 2 ^ 64" using Cons.prems(5) by simp
  obtain bc1 where v: "ValidateNewFragV0 f (currentUnsealedBlock bc) = Some None"
    and ins: "InsertNewFrag ops bc f = Some (None, bc1)"
    and s1: "streaming ops e bc1 (ds @ [f]) (concat (map gf_Txs fs)) rs st' g' Q"
    and same: "\<exists>x y. bc1 = bc\<lparr>currentUnsealedBlock := x, unsealedBlockDbState := y\<rparr>"
    by (rule streaming_step [OF laws s f(1,2) Cons.prems(4) len])
  have cache: "bc_blockCache bc1 = bc_blockCache bc" and db: "same_db bc1 bc" using same by (auto simp: same_db_def)
  have ver: "verify_block ops c B = None" if "same_db c bc1" for c
    by (rule Cons.prems(6) [OF same_db_trans [OF that db]])
  show ?case
  proof (cases "fs = []")
    case False
    then have new: "engine_step ops (Some bc) (CallFrag f) = Some bc1"
      using v ins f(3) by (simp add: engine_step_def NewFragV0_def newFragV0_def reset_on_error_def)
    from Cons.IH [OF s1 _ False _ _ ver] f(3) fs Cons.prems(5,7) False obtain bc' ub where
      r: "foldl (engine_step ops) (Some bc1) (map CallFrag fs) = Some bc'" "currentUnsealedBlock bc' = Some ub"
        "ub_Frags ub = ds @ f # fs" "bc_blockCache bc' = bc_blockCache bc1" "same_db bc' (stored ops B bc1)" by auto
    then show ?thesis using new cache same_db_trans [OF r(5) same_db_stored [OF db]] by simp
  next
    case True
    obtain ub where ub: "currentUnsealedBlock bc1 = Some ub" "unsealedBlockDbState bc1 = Some st'"
      "ub_Env ub = e" "ub_Frags ub = ds @ [f]" "ub_Requests ub = []" "map consensus (ub_Receipts ub) = map consensus rs"
      "ub_CumulativeGasUsed ub = g'"
      by (rule streaming_done [OF laws s1 [unfolded True, simplified]]) simp
    have B: "B = sealed_block ops ub (fst (IntermediateRoot ops st'))"
      unfolding Cons.prems(7) one_frag_block_def
      by (rule sealed_block_cong [OF laws]) (use ub res True in \<open>simp_all add: ub_Transactions_def one_frag_def NewUnsealedBlock_def\<close>)
    have "verify_block ops (bc1\<lparr>unsealedBlockDbState := Some (snd (IntermediateRoot ops st'))\<rparr>) B = None"
      by (rule ver) (simp add: same_db_def)
    then obtain bc2 where seal: "SealBlock ops bc1 ub = (Inr B, bc2)" "same_db bc2 (stored ops B bc1)"
      "currentUnsealedBlock bc2 = currentUnsealedBlock bc1" "bc_blockCache bc2 = bc_blockCache bc1"
      by (rule SealBlock_ok [OF ub(2) _ B])
    have "engine_step ops (Some bc) (CallFrag f) = Some bc2"
      using v ins f(3) True ub(1) seal(1) by (simp add: engine_step_def NewFragV0_def newFragV0_def reset_on_error_def)
    then show ?thesis using True seal(3,4) ub cache same_db_trans [OF seal(2) same_db_stored [OF db]] by simp
  qed
qed simp

section \<open>Opening and sealing the block\<close>

lemma GetBlock_cache:
  assumes "GetBlock ops bc h n = (Some p, bc1)" "gm_get (bc_blockCache bc1) k = Some b"
  shows "gm_get (bc_blockCache bc) k = Some b \<or> k = block_hash ops p"
  using assms by (auto simp: GetBlock_def dest!: blockCache_AddD split: option.splits)

lemma GetBlockByHash_again:
  assumes "GetBlockByHash ops bc h = (Some p, bc1)"
  obtains bc2 where "GetBlockByHash ops bc1 h = (Some p, bc2)"
    "currentUnsealedBlock bc2 = currentUnsealedBlock bc" "same_db bc2 bc"
    "\<forall>k b. gm_get (bc_blockCache bc2) k = Some b \<longrightarrow> gm_get (bc_blockCache bc) k = Some b \<or> k = block_hash ops p"
proof -
  obtain n bc2 where g: "GetBlock ops bc h n = (Some p, bc1)" and g2: "GetBlock ops bc1 h n = (Some p, bc2)"
    and h2: "GetBlockByHash ops bc1 h = (Some p, bc2)" by (rule GetBlockByHash_twice [OF assms])
  show thesis
    using that h2 GetBlock_unsealed [OF g] GetBlock_unsealed [OF g2] GetBlock_cache [OF g] GetBlock_cache [OF g2]
    unfolding same_db_def by metis
qed

lemma EnvV0_ok:
  assumes par: "GetBlockByHash ops bc (env_ParentHash e) = (Some p, bc0)"
    and none: "currentUnsealedBlock bc = None"
    and num: "env_Number e = of_nat (h_Number (b_Header p)) + 1"
    and time: "h_Time (b_Header p) \<le> env_Timestamp e"
    and st: "\<And>c. same_db c bc \<Longrightarrow> StateAt ops c (h_Root (b_Header p)) = Inr st0"
  obtains bc' where "engine_step ops (Some bc) (CallEnv e) = Some bc'"
    "currentUnsealedBlock bc' = Some (NewUnsealedBlock e)" "unsealedBlockDbState bc' = Some st0"
    "same_db bc' bc" "\<forall>k b. gm_get (bc_blockCache bc') k = Some b \<longrightarrow> gm_get (bc_blockCache bc) k = Some b \<or> k = block_hash ops p"
proof -
  obtain bc2 where g: "GetBlockByHash ops bc0 (env_ParentHash e) = (Some p, bc2)"
    and db: "same_db bc2 bc"
    and cache: "\<forall>k b. gm_get (bc_blockCache bc2) k = Some b \<longrightarrow> gm_get (bc_blockCache bc) k = Some b \<or> k = block_hash ops p"
    by (rule GetBlockByHash_again [OF par])
  have "currentUnsealedBlock bc0 = None" using none GetBlockByHash_unsealed(1) [OF par] by simp
  then have "ValidateEnvV0 ops bc e = (None, bc0)"
    using par num time by (simp add: ValidateEnvV0_def Let_def not_less)
  moreover have "SetCurrentUnsealedBlock ops bc0 (NewUnsealedBlock e) =
      (None, bc2\<lparr>unsealedBlockDbState := Some st0, currentUnsealedBlock := Some (NewUnsealedBlock e)\<rparr>)"
    using g st [OF db] by (simp add: SetCurrentUnsealedBlock_def NewUnsealedBlock_def)
  ultimately have "engine_step ops (Some bc) (CallEnv e) =
      Some (bc2\<lparr>unsealedBlockDbState := Some st0, currentUnsealedBlock := Some (NewUnsealedBlock e)\<rparr>)"
    by (simp add: engine_step_def EnvV0_def envV0_def reset_on_error_def)
  then show thesis using that cache db by (simp add: same_db_def)
qed

lemma streaming_start:
  assumes laws: "evm_laws ops Q"
    and cur: "currentUnsealedBlock bc = Some (NewUnsealedBlock e)" "unsealedBlockDbState bc = Some st0"
    and ok: "ProcessWithCumulativeGas ops (frag_block ops (NewUnsealedBlock e) (one_frag e txs)) st0 0 = (Inr res, st', g')"
  shows "streaming ops e bc [] txs (pr_Receipts res) st' (pr_GasUsed res) Q"
proof -
  let ?h = "b_Header (frag_block ops (NewUnsealedBlock e) (one_frag e txs))"
  have lim: "h_GasLimit ?h = env_GasLimit e" by (simp add: frag_block_def NewUnsealedBlock_def)
  have "process_txs ops ?h 0 txs (pre_block ops ?h st0) (env_GasLimit e) 0 = (Inr (pr_Receipts res), st', pr_GasUsed res)"
  proof -
    have "b_Transactions (frag_block ops (NewUnsealedBlock e) (one_frag e txs)) = txs"
      by (simp add: frag_block_def one_frag_def)
    then show ?thesis
      using ok lim by (auto simp: ProcessWithCumulativeGas_def Let_def evm_lawsD(7,8) [OF laws] split: sum.splits prod.splits)
  qed
  moreover have "no_gas ?h = no_gas (b_Header (frag_block ops (NewUnsealedBlock e)
      \<lparr>gf_BlockNumber = env_Number e, gf_Seq = 0, gf_IsLast = False, gf_Txs = []\<rparr>))"
    by (rule no_gas_frag_block) (simp_all add: one_frag_def)
  moreover have "ub_Env (NewUnsealedBlock e) = e" "ub_Frags (NewUnsealedBlock e) = []"
    "ub_Requests (NewUnsealedBlock e) = []" "ub_Receipts (NewUnsealedBlock e) = []"
    "ub_CumulativeGasUsed (NewUnsealedBlock e) = 0" by (simp_all add: NewUnsealedBlock_def)
  ultimately show ?thesis using cur unfolding streaming_def by fastforce
qed

definition seal_of :: "'st Ops \<Rightarrow> Block \<Rightarrow> nat \<Rightarrow> Seal" where
  "seal_of ops b n =
     \<lparr>seal_TotalFrags = of_nat n, seal_BlockNumber = of_nat (h_Number (b_Header b)),
      seal_GasUsed = h_GasUsed (b_Header b), seal_GasLimit = h_GasLimit (b_Header b),
      seal_ParentHash = h_ParentHash (b_Header b), seal_TransactionsRoot = h_TxHash (b_Header b),
      seal_ReceiptsRoot = h_ReceiptHash (b_Header b), seal_StateRoot = h_Root (b_Header b),
      seal_BlockHash = block_hash ops b\<rparr>"

lemma SealFragV0_ok:
  assumes "currentUnsealedBlock bc = Some ub" "length (ub_Frags ub) < 2 ^ 63"
    and "gm_get (bc_blocks bc) (block_hash ops b, of_nat (h_Number (b_Header b))) = Some b"
    and "gm_get (bc_blockCache bc) (block_hash ops b) = None" and canon: "\<And>c. same_db c bc \<Longrightarrow> set_canonical_ok ops c b"
  obtains bc' where "engine_step ops (Some bc) (CallSeal (seal_of ops b (length (ub_Frags ub)))) = Some bc'"
    "bc_currentBlock bc' = b" "currentUnsealedBlock bc' = None" "unsealedBlockDbState bc' = None"
proof -
  have "sint (of_nat (length (ub_Frags ub)) :: u64) = int (length (ub_Frags ub))"
    using assms(2) by (simp add: signed_of_nat signed_take_bit_int_eq_self)
  moreover have "set_canonical_ok ops (bc\<lparr>bc_blockCache := c\<rparr>) b" for c by (rule canon) (simp add: same_db_def)
  ultimately show thesis
    using assms(1-4) that
    by (simp add: engine_step_def SealFragV0_def sealFragV0_def GetBlock_def seal_of_def ValidateSealFragV0_def
        Let_def reset_on_error_def ResetCurrentUnsealedBlock_def)
qed

lemma stream_to_head:
  assumes laws: "evm_laws ops Q"
    and par: "GetBlockByHash ops bc (env_ParentHash e) = (Some p, bc0)" and none: "currentUnsealedBlock bc = None"
    and num: "env_Number e = of_nat (h_Number (b_Header p)) + 1"
    and time: "h_Time (b_Header p) \<le> env_Timestamp e"
    and st: "\<And>c. same_db c bc \<Longrightarrow> StateAt ops c (h_Root (b_Header p)) = Inr st0"
    and seq: "frag_seq e 0 fs" "fs \<noteq> []" "length fs < 2 ^ 63"
    and ok: "ProcessWithCumulativeGas ops
        (frag_block ops (NewUnsealedBlock e) (one_frag e (concat (map gf_Txs fs)))) st0 0 = (Inr res, st', g')"
    and B: "B = one_frag_block ops e (concat (map gf_Txs fs)) res st'"
    and valid: "\<And>c. same_db c bc \<Longrightarrow> verify_block ops c B = None"
      "\<And>c. same_db c (stored ops B bc) \<Longrightarrow> set_canonical_ok ops c B"
    and fresh: "gm_get (bc_blockCache bc) (block_hash ops B) = None" "block_hash ops B \<noteq> block_hash ops p"
  shows "\<exists>bc'. foldl (engine_step ops) (Some bc) (CallEnv e # map CallFrag fs @ [CallSeal (seal_of ops B (length fs))]) = Some bc' \<and>
    bc_currentBlock bc' = B \<and> currentUnsealedBlock bc' = None \<and> unsealedBlockDbState bc' = None"
proof -
  obtain bc1 where e: "engine_step ops (Some bc) (CallEnv e) = Some bc1"
    and cur: "currentUnsealedBlock bc1 = Some (NewUnsealedBlock e)" "unsealedBlockDbState bc1 = Some st0"
    and db: "same_db bc1 bc"
    and cache: "\<forall>k b. gm_get (bc_blockCache bc1) k = Some b \<longrightarrow> gm_get (bc_blockCache bc) k = Some b \<or> k = block_hash ops p"
    by (rule EnvV0_ok [OF par none num time st])
  have len: "length fs \<le> 2 ^ 64" using seq(3) by simp
  obtain bc2 ub where f: "foldl (engine_step ops) (Some bc1) (map CallFrag fs) = Some bc2"
    "currentUnsealedBlock bc2 = Some ub" "ub_Frags ub = fs" "bc_blockCache bc2 = bc_blockCache bc1"
    "same_db bc2 (stored ops B bc1)"
    using stream_run [OF laws streaming_start [OF laws cur ok], where B = B and res = res] seq len
      valid(1) [OF same_db_trans [OF _ db]] B
    by auto
  have none2: "gm_get (bc_blockCache bc2) (block_hash ops B) = None"
    using cache fresh f(4) by (metis option.distinct(1) option.exhaust)
  have "length (ub_Frags ub) < 2 ^ 63" using f(3) seq(3) by simp
  moreover have db2: "same_db bc2 (stored ops B bc)" by (rule same_db_trans [OF f(5) same_db_stored [OF db]])
  then have "gm_get (bc_blocks bc2) (block_hash ops B, of_nat (h_Number (b_Header B))) = Some B"
    by (simp add: same_db_def stored_def Let_def gm.get_put)
  ultimately obtain bc3 where
    "engine_step ops (Some bc2) (CallSeal (seal_of ops B (length fs))) = Some bc3"
    "bc_currentBlock bc3 = B" "currentUnsealedBlock bc3 = None" "unsealedBlockDbState bc3 = None"
    using SealFragV0_ok [OF f(2) _ _ none2 valid(2) [OF same_db_trans [OF _ db2]]] f(3) by metis
  then show ?thesis using e f(1) by simp
qed

section \<open>Accepting environments\<close>

text \<open>The conditions \<^verbatim>\<open>docs/docs/architecture/execution.md\<close> puts on an environment; the previous block is the head.\<close>

definition documented_env :: "'st Ops \<Rightarrow> 'st BlockChain \<Rightarrow> Env \<Rightarrow> bool" where
  "documented_env ops bc e \<longleftrightarrow>
     currentUnsealedBlock bc = None \<and>
     env_Timestamp e > h_Time (b_Header (bc_currentBlock bc)) \<and>
     env_Number e = of_nat (h_Number (b_Header (bc_currentBlock bc))) + 1 \<and>
     env_ParentHash e = block_hash ops (bc_currentBlock bc)"

lemma EnvV0_documented:
  assumes doc: "documented_env ops bc e"
    and head: "GetBlockByHash ops bc (block_hash ops (bc_currentBlock bc)) = (Some (bc_currentBlock bc), c)"
    and st: "\<forall>c. same_db c bc \<longrightarrow> StateAt ops c (h_Root (b_Header (bc_currentBlock bc))) = Inr st"
  shows "fst (EnvV0 ops bc e) = VALID \<and> unsealedBlockDbState (snd (snd (EnvV0 ops bc e))) = Some st"
proof -
  let ?p = "bc_currentBlock bc"
  have g: "GetBlockByHash ops bc (env_ParentHash e) = (Some ?p, c)" using head doc by (simp add: documented_env_def)
  obtain c2 where g2: "GetBlockByHash ops c (env_ParentHash e) = (Some ?p, c2)" and db: "same_db c2 bc"
    by (rule GetBlockByHash_again [OF g])
  have d: "currentUnsealedBlock bc = None" "env_Number e = of_nat (h_Number (b_Header ?p)) + 1" "h_Time (b_Header ?p) \<le> env_Timestamp e"
    using doc by (auto simp: documented_env_def)
  then have v: "ValidateEnvV0 ops bc e = (None, c)" using g by (auto simp: ValidateEnvV0_None)
  have "StateAt ops c2 (h_Root (b_Header ?p)) = Inr st" using st db by blast
  then show ?thesis using v g2
    by (simp add: EnvV0_def envV0_def SetCurrentUnsealedBlock_def NewUnsealedBlock_def reset_on_error_def)
qed

lemma EnvV0_accepted:
  assumes "fst (EnvV0 ops bc e) = VALID"
  shows "currentUnsealedBlock bc = None"
    and "\<exists>p c c' st'. GetBlockByHash ops bc (env_ParentHash e) = (Some p, c) \<and>
        env_Number e = of_nat (h_Number (b_Header p)) + 1 \<and> h_Time (b_Header p) \<le> env_Timestamp e \<and>
        same_db c' bc \<and> StateAt ops c' (h_Root (b_Header p)) = Inr st' \<and>
        snd (snd (EnvV0 ops bc e)) =
          c'\<lparr>unsealedBlockDbState := Some st', currentUnsealedBlock := Some (NewUnsealedBlock e)\<rparr>"
proof -
  from assms obtain p c c' st where a: "GetBlockByHash ops bc (env_ParentHash e) = (Some p, c)"
    "GetBlockByHash ops c (env_ParentHash e) = (Some p, c')" "currentUnsealedBlock bc = None"
    "env_Number e = of_nat (h_Number (b_Header p)) + 1" "h_Time (b_Header p) \<le> env_Timestamp e"
    "StateAt ops c' (h_Root (b_Header p)) = Inr st"
    "snd (snd (EnvV0 ops bc e)) = c'\<lparr>unsealedBlockDbState := Some st, currentUnsealedBlock := Some (NewUnsealedBlock e)\<rparr>"
    unfolding EnvV0_VALID_iff by blast
  have "same_db c' bc" using GetBlockByHash_unsealed [OF a(1)] GetBlockByHash_unsealed [OF a(2)] by (simp add: same_db_def)
  then show "\<exists>p c c' st'. GetBlockByHash ops bc (env_ParentHash e) = (Some p, c) \<and>
        env_Number e = of_nat (h_Number (b_Header p)) + 1 \<and> h_Time (b_Header p) \<le> env_Timestamp e \<and>
        same_db c' bc \<and> StateAt ops c' (h_Root (b_Header p)) = Inr st' \<and>
        snd (snd (EnvV0 ops bc e)) =
          c'\<lparr>unsealedBlockDbState := Some st', currentUnsealedBlock := Some (NewUnsealedBlock e)\<rparr>" using a by blast
  show "currentUnsealedBlock bc = None" by (rule a(3))
qed

lemma EnvV0_refused: "fst (EnvV0 ops bc e) \<noteq> VALID \<Longrightarrow> currentUnsealedBlock (snd (snd (EnvV0 ops bc e))) = None"
proof -
  obtain st er bc' where r: "EnvV0 ops bc e = (st, er, bc')" by (rule prod_cases3)
  then have c: "engine_call ops bc (CallEnv e) = Some (st, er, bc')" by simp
  assume "fst (EnvV0 ops bc e) \<noteq> VALID"
  then have "er \<noteq> None" using engine_call_status [OF c] r by (cases er) auto
  then show ?thesis using engine_call_error [OF c] r by simp
qed

lemma GetBlock_Some_iff:
  "GetBlock ops bc h n = (Some b, bc1) \<longleftrightarrow>
     gm_get (bc_blockCache bc) h = Some b \<and> bc1 = bc \<or>
     gm_get (bc_blockCache bc) h = None \<and> gm_get (bc_blocks bc) (h, n) = Some b \<and>
     bc1 = bc\<lparr>bc_blockCache := blockCache_Add ops (block_hash ops b) b (bc_blockCache bc)\<rparr>"
  by (auto simp: GetBlock_def split: option.splits)

end
