(* ===== verification/Unsealed_Props.thy ===== *)
theory Unsealed_Props
  imports Unsealed_Stream
begin

text \<open>
  The properties of the unsealed block and of the engine calls that build it, each with a run on a small
  instance of the execution parameters where it has hypotheses.
\<close>

section \<open>A small instance\<close>

text \<open>
  Every transaction costs ten gas and adds one to the state; a header hashes to its number. The state of
  a root is there when a stored block has that root, a block is valid when its parent is stored, and can
  become the head when it is stored itself.
\<close>

definition ex_ops :: "nat Ops" where
  "ex_ops =
     \<lparr>StateAt = \<lambda>bc r. if r \<in> set (map (\<lambda>(_, b). h_Root (b_Header b)) (bc_blocks bc)) then Inr 0 else Inl ''missing trie node'',
      pre_block = \<lambda>h st. st,
      apply_msg = \<lambda>h i tx st gp. if gp < 10 then Inl (''gas limit reached'', st) else Inr (Suc st, gp - 10,
        \<lparr>er_UsedGas = 10, er_Failed = False, er_Logs = [tx]\<rparr>),
      tx_type = \<lambda>tx. 2, tx_hash = \<lambda>tx. tx, tx_Nonce = \<lambda>tx. 0, tx_To = \<lambda>tx. Some [1],
      blob_hashes = \<lambda>tx. [], Sender = \<lambda>n t tx. [2], GetNonce = \<lambda>st a. of_nat st, IsOptimismRegolith = \<lambda>t. True,
      IsOptimismCanyon = \<lambda>t. True, CreateAddress = \<lambda>a n. a, CalcBlobFee = \<lambda>g. 1, parse_requests = \<lambda>h logs. Inr [], finalize = \<lambda>b st. st,
      IntermediateRoot = \<lambda>st. ([of_nat st], st), DeriveShaTxs = concat,
      DeriveShaReceipts = \<lambda>rs. [of_nat (length rs)], CreateBloom = \<lambda>rs. [],
      header_hash = \<lambda>h. [of_nat (h_Number h)], EmptyUncleHash = [], EmptyWithdrawalsHash = [],
      verify_block = \<lambda>bc b. if gm_get (bc_numbers bc) (h_ParentHash (b_Header b)) = None then Some ''unknown ancestor'' else None,
      set_canonical_ok = \<lambda>bc b. gm_get (bc_blocks bc) ([of_nat (h_Number (b_Header b))], of_nat (h_Number (b_Header b))) = Some b,
      cache_keeps = \<lambda>c h. True\<rparr>"

definition ex_parent :: Block where
  "ex_parent = \<lparr>b_Header =
     \<lparr>h_ParentHash = [5], h_UncleHash = [], h_Coinbase = [], h_Root = [0], h_TxHash = [], h_ReceiptHash = [],
      h_Bloom = [], h_Difficulty = 0, h_Number = 6, h_GasLimit = 100, h_GasUsed = 0, h_Time = 100,
      h_Extra = [], h_MixDigest = [], h_Nonce = 0, h_BaseFee = None, h_WithdrawalsHash = None,
      h_BlobGasUsed = None, h_ExcessBlobGas = None, h_ParentBeaconRoot = None, h_RequestsHash = None\<rparr>,
     b_Transactions = [], b_Requests = []\<rparr>"

definition ex_chain :: "nat BlockChain" where
  "ex_chain = \<lparr>bc_blocks = [(([6], 6), ex_parent)], bc_numbers = [([6], 6)], bc_blockCache = [],
     bc_currentBlock = ex_parent, currentUnsealedBlock = None, unsealedBlockDbState = None\<rparr>"

definition ex_env7 :: Env where
  "ex_env7 = \<lparr>env_Number = 7, env_ParentHash = [6], env_Beneficiary = [], env_Timestamp = 102,
     env_GasLimit = 100, env_Basefee = 1, env_Difficulty = 0, env_Prevrandao = [], env_ExtraData = [],
     env_ParentBeaconBlockRoot = []\<rparr>"

definition ex_frags7 :: "Frag list" where
  "ex_frags7 = [\<lparr>gf_BlockNumber = 7, gf_Seq = 0, gf_IsLast = False, gf_Txs = [[1], [2]]\<rparr>,
     \<lparr>gf_BlockNumber = 7, gf_Seq = 1, gf_IsLast = True, gf_Txs = [[3]]\<rparr>]"

definition ex_receipt :: "nat \<Rightarrow> Transaction \<Rightarrow> u64 \<Rightarrow> Receipt" where
  "ex_receipt i tx g =
     \<lparr>rc_Type = 2, rc_PostState = [], rc_Status = 1, rc_CumulativeGasUsed = g, rc_Bloom = [], rc_Logs = [tx], rc_TxHash = tx,
      rc_ContractAddress = replicate 20 0, rc_GasUsed = 10, rc_BlobGasUsed = 0, rc_BlobGasPrice = None,
      rc_DepositNonce = None, rc_DepositReceiptVersion = None, rc_BlockHash = [7], rc_BlockNumber = 7, rc_TransactionIndex = i\<rparr>"

definition ex_result :: ProcessResult where
  "ex_result = \<lparr>pr_Receipts = [ex_receipt 0 [1] 10, ex_receipt 1 [2] 20, ex_receipt 2 [3] 30], pr_Requests = [],
     pr_Logs = [[1], [2], [3]], pr_GasUsed = 30\<rparr>"




lemmas ex_defs = ex_ops_def ex_parent_def ex_chain_def ex_env7_def ex_frags7_def ex_receipt_def ex_result_def

lemma ex_get_parent: "GetBlockByHash ex_ops ex_chain (env_ParentHash ex_env7) =
    (Some ex_parent, ex_chain\<lparr>bc_blockCache := [([6], ex_parent)]\<rparr>)"
  by (simp add: GetBlockByHash_def GetBlock_def blockCache_Add_def gm_get_def gm_put_def gm_keep_def
      block_hash_def ex_defs)



lemma ex_state: "same_db c ex_chain \<Longrightarrow> StateAt ex_ops c (h_Root (b_Header ex_parent)) = Inr 0"
  by (simp add: same_db_def ex_ops_def ex_chain_def)



lemma ex_parent_hash: "block_hash ex_ops ex_parent = [6]"
  by (simp add: block_hash_def ex_ops_def ex_parent_def)

section \<open>Properties\<close>







text \<open>C30. A seal is accepted exactly when an unsealed block is open, the block of its hash is found, the
  hash, parent hash, state root, transactions root, receipts root, gas used and gas limit of the seal are
  those of that block, its number of frags is that of the open block, and the head can move; then that
  block is the head and the unsealed block is gone. The block is found in the block cache by its hash
  alone and, when it is not there, in the database by hash and number: the number of the seal is compared
  with nothing and is not even looked at when the block is cached.
\<close>

theorem seal_accepted_iff:
  "fst (SealFragV0 ops bc seal) = VALID \<longleftrightarrow>
   (\<exists>b bc1 ub.
      (gm_get (bc_blockCache bc) (seal_BlockHash seal) = Some b \<and> bc1 = bc \<or>
       gm_get (bc_blockCache bc) (seal_BlockHash seal) = None \<and>
       gm_get (bc_blocks bc) (seal_BlockHash seal, seal_BlockNumber seal) = Some b \<and>
       bc1 = bc\<lparr>bc_blockCache := blockCache_Add ops (block_hash ops b) b (bc_blockCache bc)\<rparr>) \<and>
      currentUnsealedBlock bc = Some ub \<and>
      block_hash ops b = seal_BlockHash seal \<and> h_ParentHash (b_Header b) = seal_ParentHash seal \<and>
      h_Root (b_Header b) = seal_StateRoot seal \<and> h_TxHash (b_Header b) = seal_TransactionsRoot seal \<and>
      h_ReceiptHash (b_Header b) = seal_ReceiptsRoot seal \<and> h_GasUsed (b_Header b) = seal_GasUsed seal \<and>
      h_GasLimit (b_Header b) = seal_GasLimit seal \<and>
      int (length (ub_Frags ub)) = sint (seal_TotalFrags seal) \<and> set_canonical_ok ops bc1 b \<and>
      snd (snd (SealFragV0 ops bc seal)) = ResetCurrentUnsealedBlock (bc1\<lparr>bc_currentBlock := b\<rparr>))"
  unfolding SealFragV0_VALID_iff GetBlock_Some_iff ..

text \<open>C31. Opening a block. An environment the protocol documentation calls valid (no block is open, the
  parent is the head, the number is the head's plus one, the timestamp is above the head's) is accepted,
  provided the head and its state are in the database. Every accepted environment finds no block open,
  names a known parent, has the number of the parent plus one and a timestamp not below the parent's, and
  opens an empty block on the state of the parent. An environment that is refused leaves no block open.
\<close>

theorem env_opens_block:
  "(documented_env ops bc e \<and>
      (\<exists>c. GetBlockByHash ops bc (block_hash ops (bc_currentBlock bc)) = (Some (bc_currentBlock bc), c)) \<and>
      (\<forall>c. same_db c bc \<longrightarrow> StateAt ops c (h_Root (b_Header (bc_currentBlock bc))) = Inr st) \<longrightarrow>
      fst (EnvV0 ops bc e) = VALID \<and>
      unsealedBlockDbState (snd (snd (EnvV0 ops bc e))) = Some st) \<and>
   (fst (EnvV0 ops bc e) = VALID \<longrightarrow>
      currentUnsealedBlock bc = None \<and>
      (\<exists>p c c' st'. GetBlockByHash ops bc (env_ParentHash e) = (Some p, c) \<and>
        env_Number e = of_nat (h_Number (b_Header p)) + 1 \<and> h_Time (b_Header p) \<le> env_Timestamp e \<and>
        same_db c' bc \<and> StateAt ops c' (h_Root (b_Header p)) = Inr st' \<and>
        snd (snd (EnvV0 ops bc e)) =
          c'\<lparr>unsealedBlockDbState := Some st', currentUnsealedBlock := Some (NewUnsealedBlock e)\<rparr>)) \<and>
   (fst (EnvV0 ops bc e) \<noteq> VALID \<longrightarrow> currentUnsealedBlock (snd (snd (EnvV0 ops bc e))) = None)"
proof (intro conjI impI)
  assume a: "documented_env ops bc e \<and>
      (\<exists>c. GetBlockByHash ops bc (block_hash ops (bc_currentBlock bc)) = (Some (bc_currentBlock bc), c)) \<and>
      (\<forall>c. same_db c bc \<longrightarrow> StateAt ops c (h_Root (b_Header (bc_currentBlock bc))) = Inr st)"
  show "fst (EnvV0 ops bc e) = VALID" "unsealedBlockDbState (snd (snd (EnvV0 ops bc e))) = Some st"
    using EnvV0_documented [of ops bc e _ st] a by blast+
next
  assume "fst (EnvV0 ops bc e) = VALID"
  note v = EnvV0_accepted [OF this]
  show "currentUnsealedBlock bc = None" by (rule v(1))
  show "\<exists>p c c' st'. GetBlockByHash ops bc (env_ParentHash e) = (Some p, c) \<and>
        env_Number e = of_nat (h_Number (b_Header p)) + 1 \<and> h_Time (b_Header p) \<le> env_Timestamp e \<and>
        same_db c' bc \<and> StateAt ops c' (h_Root (b_Header p)) = Inr st' \<and>
        snd (snd (EnvV0 ops bc e)) =
          c'\<lparr>unsealedBlockDbState := Some st', currentUnsealedBlock := Some (NewUnsealedBlock e)\<rparr>" by (rule v(2))
next
  assume "fst (EnvV0 ops bc e) \<noteq> VALID"
  then show "currentUnsealedBlock (snd (snd (EnvV0 ops bc e))) = None" by (rule EnvV0_refused)
qed

theorem env_opens_block_witness:
  "fst (EnvV0 ex_ops ex_chain ex_env7) = VALID \<and> unsealedBlockDbState (snd (snd (EnvV0 ex_ops ex_chain ex_env7))) = Some 0"
proof -
  have head: "bc_currentBlock ex_chain = ex_parent" by (simp add: ex_chain_def)
  have "env_ParentHash ex_env7 = block_hash ex_ops ex_parent" by (simp add: ex_parent_hash ex_env7_def)
  then have "\<exists>c. GetBlockByHash ex_ops ex_chain (block_hash ex_ops (bc_currentBlock ex_chain)) = (Some (bc_currentBlock ex_chain), c)"
    and "documented_env ex_ops ex_chain ex_env7"
    using ex_get_parent by (simp_all add: documented_env_def head) (simp_all add: ex_chain_def ex_parent_def ex_env7_def)
  then show ?thesis using env_opens_block [of ex_ops ex_chain ex_env7 0] ex_state by (simp add: head)
qed

text \<open>C32. Every engine call that fails, a duplicate environment or an unexpected frag included, answers
  INVALID, discards the open unsealed block with its state and leaves the head alone; every other call
  answers VALID.
\<close>

theorem failed_call_discards_block:
  assumes "engine_call ops bc c = Some (status, err, bc')"
  shows "status = (if err = None then VALID else INVALID) \<and>
    (err \<noteq> None \<longrightarrow> currentUnsealedBlock bc' = None \<and> unsealedBlockDbState bc' = None \<and>
       bc_currentBlock bc' = bc_currentBlock bc)"
  by (intro conjI impI engine_call_status [OF assms] engine_call_error [OF assms])

theorem failed_call_discards_block_witness:
  "\<exists>status err bc'. engine_call ex_ops ex_chain (CallFrag (hd ex_frags7)) = Some (status, err, bc') \<and>
     status = INVALID \<and> currentUnsealedBlock bc' = None"
proof -
  have e: "engine_call ex_ops ex_chain (CallFrag (hd ex_frags7)) =
      Some (INVALID, Some NoUnsealedBlockOpened, ResetCurrentUnsealedBlock ex_chain)"
    by (simp add: NewFragV0_def newFragV0_def ValidateNewFragV0_def reset_on_error_def ex_chain_def)
  show ?thesis using failed_call_discards_block [OF e] e by auto
qed

end
