(* ===== verification/Pipeline.thy ===== *)
theory Pipeline
  imports Preconf_Proofs Unsealed_Props
begin





















end
