(* ===== verification/Rollup_Config.thy ===== *)
theory Rollup_Config
  imports Eth_Types
begin

text \<open>
  The rollup configuration of the op-node, \<^verbatim>\<open>op-node/rollup/types.go\<close> and \<^verbatim>\<open>chain_spec.go\<close>: hard-fork
  activation, the relation of block numbers and timestamps, the sanity check of a configuration and the
  fork-dependent protocol parameters.
\<close>

section \<open>Data\<close>

record SystemConfig =
  sc_BatcherAddr :: Address
  sc_Overhead :: bytes
  sc_Scalar :: bytes
  sc_GasLimit :: u64
  sc_EIP1559Params :: bytes

record Genesis =
  gen_L1 :: BlockID
  gen_L2 :: BlockID
  gen_L2Time :: u64
  gen_SystemConfig :: SystemConfig

record AltDAConfig =
  DAChallengeAddress :: Address
  da_CommitmentType :: string
  DAChallengeWindow :: u64
  DAResolveWindow :: u64

record Config =
  cfg_Genesis :: Genesis
  BlockTime :: u64
  cfg_MaxSequencerDrift :: u64
  SeqWindowSize :: u64
  ChannelTimeoutBedrock :: u64
  cfg_L1ChainID :: "int option"
  cfg_L2ChainID :: "int option"
  RegolithTime :: "u64 option"
  CanyonTime :: "u64 option"
  DeltaTime :: "u64 option"
  EcotoneTime :: "u64 option"
  FjordTime :: "u64 option"
  GraniteTime :: "u64 option"
  HoloceneTime :: "u64 option"
  InteropTime :: "u64 option"
  BatchInboxAddress :: Address
  DepositContractAddress :: Address
  L1SystemConfigAddress :: Address
  ProtocolVersionsAddress :: Address
  cfg_AltDAConfig :: "AltDAConfig option"

text \<open>\<open>ForkUnset\<close> is the empty string, \<open>ForkNone\<close> the constant \<^verbatim>\<open>None\<close>.\<close>

datatype ForkName =
  ForkUnset | Bedrock | Regolith | Canyon | Delta | Ecotone | Fjord | Granite | Holocene | Interop | ForkNone

fun fork_rank :: "ForkName \<Rightarrow> nat" where
  "fork_rank ForkUnset = 0"
| "fork_rank Bedrock = 1"
| "fork_rank Regolith = 2"
| "fork_rank Canyon = 3"
| "fork_rank Delta = 4"
| "fork_rank Ecotone = 5"
| "fork_rank Fjord = 6"
| "fork_rank Granite = 7"
| "fork_rank Holocene = 8"
| "fork_rank Interop = 9"
| "fork_rank ForkNone = 10"

lemma fork_rank_inj: "fork_rank f = fork_rank g \<longleftrightarrow> f = g"
  by (cases f; cases g) simp_all

instantiation ForkName :: linorder
begin

definition less_eq_ForkName :: "ForkName \<Rightarrow> ForkName \<Rightarrow> bool" where
  "f \<le> g \<longleftrightarrow> fork_rank f \<le> fork_rank g"

definition less_ForkName :: "ForkName \<Rightarrow> ForkName \<Rightarrow> bool" where
  "f < g \<longleftrightarrow> fork_rank f < fork_rank g"

instance
  by standard (auto simp: less_eq_ForkName_def less_ForkName_def fork_rank_inj)

end

definition AllForks :: "ForkName list" where
  "AllForks = [Bedrock, Regolith, Canyon, Delta, Ecotone, Fjord, Granite, Holocene, Interop]"

text \<open>\<open>None\<close> is the panic on a name that is not a fork.\<close>

definition ForksFrom :: "ForkName \<Rightarrow> ForkName list option" where
  "ForksFrom fork = (let rest = dropWhile (\<lambda>f. f \<noteq> fork) AllForks in if rest = [] then None else Some rest)"

fun next_forks :: "ForkName list \<Rightarrow> (ForkName, ForkName) gomap" where
  "next_forks [] = []"
| "next_forks [f] = [(f, ForkNone)]"
| "next_forks (f # g # fs) = gm_put f g (next_forks (g # fs))"

definition nextFork :: "(ForkName, ForkName) gomap" where
  "nextFork = next_forks AllForks"

definition IsValidFork :: "ForkName \<Rightarrow> bool" where
  "IsValidFork fork \<longleftrightarrow> gm_get nextFork fork \<noteq> None"

section \<open>Hard forks\<close>

definition active_at :: "u64 option \<Rightarrow> u64 \<Rightarrow> bool" where
  "active_at forkTime timestamp = (case forkTime of None \<Rightarrow> False | Some t \<Rightarrow> timestamp \<ge> t)"

definition IsRegolith :: "Config \<Rightarrow> u64 \<Rightarrow> bool" where
  "IsRegolith c timestamp = active_at (RegolithTime c) timestamp"

definition IsCanyon :: "Config \<Rightarrow> u64 \<Rightarrow> bool" where
  "IsCanyon c timestamp = active_at (CanyonTime c) timestamp"

definition IsDelta :: "Config \<Rightarrow> u64 \<Rightarrow> bool" where
  "IsDelta c timestamp = active_at (DeltaTime c) timestamp"

definition IsEcotone :: "Config \<Rightarrow> u64 \<Rightarrow> bool" where
  "IsEcotone c timestamp = active_at (EcotoneTime c) timestamp"

definition IsFjord :: "Config \<Rightarrow> u64 \<Rightarrow> bool" where
  "IsFjord c timestamp = active_at (FjordTime c) timestamp"

definition IsGranite :: "Config \<Rightarrow> u64 \<Rightarrow> bool" where
  "IsGranite c timestamp = active_at (GraniteTime c) timestamp"

definition IsHolocene :: "Config \<Rightarrow> u64 \<Rightarrow> bool" where
  "IsHolocene c timestamp = active_at (HoloceneTime c) timestamp"

definition IsInterop :: "Config \<Rightarrow> u64 \<Rightarrow> bool" where
  "IsInterop c timestamp = active_at (InteropTime c) timestamp"

definition activation_block :: "Config \<Rightarrow> (u64 \<Rightarrow> bool) \<Rightarrow> u64 \<Rightarrow> bool" where
  "activation_block c is_active l2BlockTime \<longleftrightarrow>
     is_active l2BlockTime \<and> l2BlockTime \<ge> BlockTime c \<and> \<not> is_active (l2BlockTime - BlockTime c)"

definition IsRegolithActivationBlock :: "Config \<Rightarrow> u64 \<Rightarrow> bool" where
  "IsRegolithActivationBlock c = activation_block c (IsRegolith c)"

definition IsCanyonActivationBlock :: "Config \<Rightarrow> u64 \<Rightarrow> bool" where
  "IsCanyonActivationBlock c = activation_block c (IsCanyon c)"

definition IsDeltaActivationBlock :: "Config \<Rightarrow> u64 \<Rightarrow> bool" where
  "IsDeltaActivationBlock c = activation_block c (IsDelta c)"

definition IsEcotoneActivationBlock :: "Config \<Rightarrow> u64 \<Rightarrow> bool" where
  "IsEcotoneActivationBlock c = activation_block c (IsEcotone c)"

definition IsFjordActivationBlock :: "Config \<Rightarrow> u64 \<Rightarrow> bool" where
  "IsFjordActivationBlock c = activation_block c (IsFjord c)"

definition IsGraniteActivationBlock :: "Config \<Rightarrow> u64 \<Rightarrow> bool" where
  "IsGraniteActivationBlock c = activation_block c (IsGranite c)"

definition IsHoloceneActivationBlock :: "Config \<Rightarrow> u64 \<Rightarrow> bool" where
  "IsHoloceneActivationBlock c = activation_block c (IsHolocene c)"

definition IsInteropActivationBlock :: "Config \<Rightarrow> u64 \<Rightarrow> bool" where
  "IsInteropActivationBlock c = activation_block c (IsInterop c)"

definition IsActivationBlock :: "Config \<Rightarrow> u64 \<Rightarrow> u64 \<Rightarrow> ForkName" where
  "IsActivationBlock c oldTime newTime =
     (if IsHolocene c newTime \<and> \<not> IsHolocene c oldTime then Holocene else ForkUnset)"

text \<open>The \<^verbatim>\<open>switch\<close> falls through from a fork to all the forks before it.\<close>

function ActivateAtGenesis :: "ForkName \<Rightarrow> Config \<Rightarrow> Config" where
  "ActivateAtGenesis Interop c = ActivateAtGenesis Holocene (c\<lparr>InteropTime := Some 0\<rparr>)"
| "ActivateAtGenesis Holocene c = ActivateAtGenesis Granite (c\<lparr>HoloceneTime := Some 0\<rparr>)"
| "ActivateAtGenesis Granite c = ActivateAtGenesis Fjord (c\<lparr>GraniteTime := Some 0\<rparr>)"
| "ActivateAtGenesis Fjord c = ActivateAtGenesis Ecotone (c\<lparr>FjordTime := Some 0\<rparr>)"
| "ActivateAtGenesis Ecotone c = ActivateAtGenesis Delta (c\<lparr>EcotoneTime := Some 0\<rparr>)"
| "ActivateAtGenesis Delta c = ActivateAtGenesis Canyon (c\<lparr>DeltaTime := Some 0\<rparr>)"
| "ActivateAtGenesis Canyon c = ActivateAtGenesis Regolith (c\<lparr>CanyonTime := Some 0\<rparr>)"
| "ActivateAtGenesis Regolith c = ActivateAtGenesis Bedrock (c\<lparr>RegolithTime := Some 0\<rparr>)"
| "ActivateAtGenesis Bedrock c = c"
| "ActivateAtGenesis ForkNone c = c"
| "ActivateAtGenesis ForkUnset c = c"
  by pat_completeness auto
termination
  by (relation "measure (\<lambda>(f, c). fork_rank f)") simp_all

section \<open>Block numbers and timestamps\<close>

definition TimestampForBlock :: "Config \<Rightarrow> u64 \<Rightarrow> u64" where
  "TimestampForBlock cfg blockNumber =
     gen_L2Time (cfg_Genesis cfg) + (blockNumber - id_Number (gen_L2 (cfg_Genesis cfg))) * BlockTime cfg"

text \<open>\<open>None\<close> is the division by a zero block time, which panics.\<close>

datatype TargetErr = NotReachedGenesis u64

definition TargetBlockNumber :: "Config \<Rightarrow> u64 \<Rightarrow> (TargetErr + u64) option" where
  "TargetBlockNumber cfg timestamp =
     (let genesisTimestamp = gen_L2Time (cfg_Genesis cfg) in
      if timestamp < genesisTimestamp then Some (Inl (NotReachedGenesis genesisTimestamp))
      else if BlockTime cfg = 0 then None
      else let wallClockGenesisDiff = timestamp - genesisTimestamp;
               blocksSinceGenesis = wallClockGenesisDiff div BlockTime cfg
           in Some (Inr (id_Number (gen_L2 (cfg_Genesis cfg)) + blocksSinceGenesis)))"

section \<open>Checking a configuration\<close>

datatype ConfigErr =
  ErrBlockTimeZero | ErrMissingChannelTimeout | ErrInvalidSeqWindowSize | ErrInvalidMaxSeqDrift
| ErrMissingGenesisL1Hash | ErrMissingGenesisL2Hash | ErrGenesisHashesSame | ErrMissingGenesisL2Time
| ErrMissingBatcherAddr | ErrMissingScalar | ErrMissingGasLimit | ErrMissingBatchInboxAddress
| ErrMissingDepositContractAddress | ErrMissingL1ChainID | ErrMissingL2ChainID | ErrChainIDsSame
| ErrL1ChainIDNotPositive | ErrL2ChainIDNotPositive
| InvalidCommitmentType string | MustSetChallengeAddress | MustSetEmptyChallengeAddress
| PriorForkMissing ForkName ForkName | PriorForkLater ForkName ForkName
| ClientErr string | WrongL1ChainID | WrongL1GenesisHash | WrongL2ChainID | WrongL2GenesisHash

definition KeccakCommitmentString :: string where
  "KeccakCommitmentString = ''KeccakCommitment''"

definition GenericCommitmentString :: string where
  "GenericCommitmentString = ''GenericCommitment''"

definition zero_hash :: Hash where
  "zero_hash = replicate 32 0"

definition zero_address :: Address where
  "zero_address = replicate 20 0"

definition validateAltDAConfig :: "Config \<Rightarrow> ConfigErr option" where
  "validateAltDAConfig cfg =
     (case cfg_AltDAConfig cfg of
        None \<Rightarrow> None
      | Some a \<Rightarrow>
          if \<not> (da_CommitmentType a = KeccakCommitmentString \<or> da_CommitmentType a = GenericCommitmentString)
          then Some (InvalidCommitmentType (da_CommitmentType a))
          else if da_CommitmentType a = KeccakCommitmentString \<and> DAChallengeAddress a = zero_address
          then Some MustSetChallengeAddress
          else if da_CommitmentType a = GenericCommitmentString \<and> DAChallengeAddress a \<noteq> zero_address
          then Some MustSetEmptyChallengeAddress
          else None)"

definition checkFork :: "u64 option \<Rightarrow> u64 option \<Rightarrow> ForkName \<Rightarrow> ForkName \<Rightarrow> ConfigErr option" where
  "checkFork a b aName bName =
     (case (a, b) of
        (None, None) \<Rightarrow> None
      | (None, Some _) \<Rightarrow> Some (PriorForkMissing bName aName)
      | (Some _, None) \<Rightarrow> None
      | (Some x, Some y) \<Rightarrow> if x > y then Some (PriorForkLater bName aName) else None)"

text \<open>The first error of a sequence of checks.\<close>

fun first_error :: "'e option list \<Rightarrow> 'e option" where
  "first_error [] = None"
| "first_error (None # es) = first_error es"
| "first_error (Some e # es) = Some e"

definition chain_ids :: "Config \<Rightarrow> ConfigErr option" where
  "chain_ids cfg =
     (case cfg_L1ChainID cfg of
        None \<Rightarrow> Some ErrMissingL1ChainID
      | Some l1 \<Rightarrow>
          (case cfg_L2ChainID cfg of
             None \<Rightarrow> Some ErrMissingL2ChainID
           | Some l2 \<Rightarrow>
               if l1 = l2 then Some ErrChainIDsSame
               else if sgn l1 < 1 then Some ErrL1ChainIDNotPositive
               else if sgn l2 < 1 then Some ErrL2ChainIDNotPositive
               else None))"

definition Check :: "Config \<Rightarrow> ConfigErr option" where
  "Check cfg =
     (let gen = cfg_Genesis cfg; sc = gen_SystemConfig gen in
      first_error
       [if BlockTime cfg = 0 then Some ErrBlockTimeZero else None,
        if ChannelTimeoutBedrock cfg = 0 then Some ErrMissingChannelTimeout else None,
        if SeqWindowSize cfg < 2 then Some ErrInvalidSeqWindowSize else None,
        if cfg_MaxSequencerDrift cfg = 0 then Some ErrInvalidMaxSeqDrift else None,
        if id_Hash (gen_L1 gen) = zero_hash then Some ErrMissingGenesisL1Hash else None,
        if id_Hash (gen_L2 gen) = zero_hash then Some ErrMissingGenesisL2Hash else None,
        if id_Hash (gen_L2 gen) = id_Hash (gen_L1 gen) then Some ErrGenesisHashesSame else None,
        if gen_L2Time gen = 0 then Some ErrMissingGenesisL2Time else None,
        if sc_BatcherAddr sc = zero_address then Some ErrMissingBatcherAddr else None,
        if sc_Scalar sc = zero_hash then Some ErrMissingScalar else None,
        if sc_GasLimit sc = 0 then Some ErrMissingGasLimit else None,
        if BatchInboxAddress cfg = zero_address then Some ErrMissingBatchInboxAddress else None,
        if DepositContractAddress cfg = zero_address then Some ErrMissingDepositContractAddress else None,
        chain_ids cfg,
        validateAltDAConfig cfg,
        checkFork (RegolithTime cfg) (CanyonTime cfg) Regolith Canyon,
        checkFork (CanyonTime cfg) (DeltaTime cfg) Canyon Delta,
        checkFork (DeltaTime cfg) (EcotoneTime cfg) Delta Ecotone,
        checkFork (EcotoneTime cfg) (FjordTime cfg) Ecotone Fjord,
        checkFork (FjordTime cfg) (GraniteTime cfg) Fjord Granite,
        checkFork (GraniteTime cfg) (HoloceneTime cfg) Granite Holocene])"

text \<open>
  The checks against the L1 and L2 nodes. The clients are arguments; \<open>None\<close> as a result of the check
  functions is success, and a missing chain id in the configuration is a nil dereference (outer \<open>None\<close>).
\<close>

record 'ref Client =
  client_ChainID :: "string + int"
  client_BlockRefByNumber :: "u64 \<Rightarrow> string + 'ref"

definition CheckL1ChainID :: "Config \<Rightarrow> L1BlockRef Client \<Rightarrow> ConfigErr option option" where
  "CheckL1ChainID cfg client =
     (case client_ChainID client of
        Inl e \<Rightarrow> Some (Some (ClientErr e))
      | Inr i \<Rightarrow> (case cfg_L1ChainID cfg of
                   None \<Rightarrow> None
                 | Some l1 \<Rightarrow> Some (if l1 \<noteq> i then Some WrongL1ChainID else None)))"

definition CheckL1GenesisBlockHash :: "Config \<Rightarrow> L1BlockRef Client \<Rightarrow> ConfigErr option" where
  "CheckL1GenesisBlockHash cfg client =
     (case client_BlockRefByNumber client (id_Number (gen_L1 (cfg_Genesis cfg))) of
        Inl e \<Rightarrow> Some (ClientErr e)
      | Inr r \<Rightarrow> if l1_Hash r \<noteq> id_Hash (gen_L1 (cfg_Genesis cfg)) then Some WrongL1GenesisHash else None)"

definition ValidateL1Config :: "Config \<Rightarrow> L1BlockRef Client \<Rightarrow> ConfigErr option option" where
  "ValidateL1Config cfg client =
     (case CheckL1ChainID cfg client of
        None \<Rightarrow> None
      | Some (Some e) \<Rightarrow> Some (Some e)
      | Some None \<Rightarrow> Some (CheckL1GenesisBlockHash cfg client))"

definition CheckL2ChainID :: "Config \<Rightarrow> L2BlockRef Client \<Rightarrow> ConfigErr option option" where
  "CheckL2ChainID cfg client =
     (case client_ChainID client of
        Inl e \<Rightarrow> Some (Some (ClientErr e))
      | Inr i \<Rightarrow> (case cfg_L2ChainID cfg of
                   None \<Rightarrow> None
                 | Some l2 \<Rightarrow> Some (if l2 \<noteq> i then Some WrongL2ChainID else None)))"

definition CheckL2GenesisBlockHash :: "Config \<Rightarrow> L2BlockRef Client \<Rightarrow> ConfigErr option" where
  "CheckL2GenesisBlockHash cfg client =
     (case client_BlockRefByNumber client (id_Number (gen_L2 (cfg_Genesis cfg))) of
        Inl e \<Rightarrow> Some (ClientErr e)
      | Inr r \<Rightarrow> if l2_Hash r \<noteq> id_Hash (gen_L2 (cfg_Genesis cfg)) then Some WrongL2GenesisHash else None)"

definition ValidateL2Config :: "Config \<Rightarrow> L2BlockRef Client \<Rightarrow> bool \<Rightarrow> ConfigErr option option" where
  "ValidateL2Config cfg client skipL2GenesisBlockHash =
     (case CheckL2ChainID cfg client of
        None \<Rightarrow> None
      | Some (Some e) \<Rightarrow> Some (Some e)
      | Some None \<Rightarrow>
          if skipL2GenesisBlockHash then Some None else Some (CheckL2GenesisBlockHash cfg client))"

section \<open>Engine API versions and alt-DA\<close>

datatype EngineAPIMethod =
  Method_FCUV1 | Method_FCUV2 | Method_FCUV3 | Method_NewPayloadV2 | Method_NewPayloadV3
| Method_GetPayloadV2 | Method_GetPayloadV3 | Method_NewFragV0 | Method_SealFragV0 | Method_EnvV0

text \<open>The argument is the timestamp of the payload attributes, if there are any.\<close>

definition ForkchoiceUpdatedVersion :: "Config \<Rightarrow> u64 option \<Rightarrow> EngineAPIMethod" where
  "ForkchoiceUpdatedVersion c attr =
     (case attr of
        None \<Rightarrow> Method_FCUV3
      | Some ts \<Rightarrow> if IsEcotone c ts then Method_FCUV3 else if IsCanyon c ts then Method_FCUV2 else Method_FCUV1)"

definition NewPayloadVersion :: "Config \<Rightarrow> u64 \<Rightarrow> EngineAPIMethod" where
  "NewPayloadVersion c timestamp = (if IsEcotone c timestamp then Method_NewPayloadV3 else Method_NewPayloadV2)"

definition GetPayloadVersion :: "Config \<Rightarrow> u64 \<Rightarrow> EngineAPIMethod" where
  "GetPayloadVersion c timestamp = (if IsEcotone c timestamp then Method_GetPayloadV3 else Method_GetPayloadV2)"

definition NewFragVersion :: "Config \<Rightarrow> u64 \<Rightarrow> EngineAPIMethod" where
  "NewFragVersion c timestamp = Method_NewFragV0"

definition SealFragVersion :: "Config \<Rightarrow> u64 \<Rightarrow> EngineAPIMethod" where
  "SealFragVersion c timestamp = Method_SealFragV0"

definition EnvVersion :: "Config \<Rightarrow> u64 \<Rightarrow> EngineAPIMethod" where
  "EnvVersion c timestamp = Method_EnvV0"

definition AltDAEnabled :: "Config \<Rightarrow> bool" where
  "AltDAEnabled c \<longleftrightarrow> cfg_AltDAConfig c \<noteq> None"

definition SyncLookback :: "Config \<Rightarrow> u64" where
  "SyncLookback c =
     (case cfg_AltDAConfig c of
        Some a \<Rightarrow> (let win = DAChallengeWindow a + DAResolveWindow a in
                   if win > SeqWindowSize c then win else SeqWindowSize c)
      | None \<Rightarrow> SeqWindowSize c)"

section \<open>The chain specification\<close>

record ChainSpec =
  spec_config :: Config
  currentFork :: ForkName

definition NewChainSpec :: "Config \<Rightarrow> ChainSpec" where
  "NewChainSpec config = \<lparr>spec_config = config, currentFork = ForkUnset\<rparr>"

definition maxChannelBankSizeBedrock :: u64 where
  "maxChannelBankSizeBedrock = 100000000"
definition maxChannelBankSizeFjord :: u64 where
  "maxChannelBankSizeFjord = 1000000000"

definition maxRLPBytesPerChannelBedrock :: u64 where
  "maxRLPBytesPerChannelBedrock = 10000000"

definition maxRLPBytesPerChannelFjord :: u64 where
  "maxRLPBytesPerChannelFjord = 100000000"

definition maxSequencerDriftFjord :: u64 where
  "maxSequencerDriftFjord = 1800"

definition ChannelTimeoutGranite :: u64 where
  "ChannelTimeoutGranite = 50"


definition MaxChannelBankSize :: "Config \<Rightarrow> u64 \<Rightarrow> u64" where
  "MaxChannelBankSize c t = (if IsFjord c t then maxChannelBankSizeFjord else maxChannelBankSizeBedrock)"

definition ChannelTimeout :: "Config \<Rightarrow> u64 \<Rightarrow> u64" where
  "ChannelTimeout c t = (if IsGranite c t then ChannelTimeoutGranite else ChannelTimeoutBedrock c)"

definition MaxRLPBytesPerChannel :: "Config \<Rightarrow> u64 \<Rightarrow> u64" where
  "MaxRLPBytesPerChannel c t = (if IsFjord c t then maxRLPBytesPerChannelFjord else maxRLPBytesPerChannelBedrock)"

definition IsFeatMaxSequencerDriftConstant :: "Config \<Rightarrow> u64 \<Rightarrow> bool" where
  "IsFeatMaxSequencerDriftConstant c t = IsFjord c t"

definition MaxSequencerDrift :: "Config \<Rightarrow> u64 \<Rightarrow> u64" where
  "MaxSequencerDrift c t =
     (if IsFeatMaxSequencerDriftConstant c t then maxSequencerDriftFjord else cfg_MaxSequencerDrift c)"

text \<open>The forks newest-last with their activity, in the order of the initial detection.\<close>

definition detect_fork :: "Config \<Rightarrow> u64 \<Rightarrow> ForkName" where
  "detect_fork c t =
     foldl (\<lambda>cur (act, f). if act then f else cur) Bedrock
       [(IsRegolith c t, Regolith), (IsCanyon c t, Canyon), (IsDelta c t, Delta), (IsEcotone c t, Ecotone),
        (IsFjord c t, Fjord), (IsGranite c t, Granite), (IsHolocene c t, Holocene), (IsInterop c t, Interop)]"

definition fork_activation_block :: "Config \<Rightarrow> ForkName \<Rightarrow> u64 \<Rightarrow> bool" where
  "fork_activation_block c f t =
     (case f of
        Regolith \<Rightarrow> IsRegolithActivationBlock c t
      | Canyon \<Rightarrow> IsCanyonActivationBlock c t
      | Delta \<Rightarrow> IsDeltaActivationBlock c t
      | Ecotone \<Rightarrow> IsEcotoneActivationBlock c t
      | Fjord \<Rightarrow> IsFjordActivationBlock c t
      | Granite \<Rightarrow> IsGraniteActivationBlock c t
      | Holocene \<Rightarrow> IsHoloceneActivationBlock c t
      | Interop \<Rightarrow> IsInteropActivationBlock c t
      | _ \<Rightarrow> False)"

definition CheckForkActivation :: "ChainSpec \<Rightarrow> u64 \<Rightarrow> ChainSpec" where
  "CheckForkActivation s blockTime =
     (if currentFork s = Interop then s
      else if currentFork s = ForkUnset then s\<lparr>currentFork := detect_fork (spec_config s) blockTime\<rparr>
      else let nxt = (case gm_get nextFork (currentFork s) of None \<Rightarrow> ForkUnset | Some f \<Rightarrow> f) in
           if fork_activation_block (spec_config s) nxt blockTime then s\<lparr>currentFork := nxt\<rparr> else s)"

end
