(* ===== verification/Rollup_Props.thy ===== *)
theory Rollup_Props
  imports Rollup_Config
begin

text \<open>
  What a checked configuration guarantees: forks are active in order, a fork has one activation block,
  block numbers and timestamps are inverse to each other, and the fork tracker of the chain
  specification agrees with the configuration.
\<close>

section \<open>Library\<close>

lemma mod_window_le:
  fixes a b :: nat
  assumes "a mod m = b mod m" "y \<le> b" "a < y + m" "b \<le> a"
  shows "a = b"
proof -
  obtain q where "a = b + m * q" using assms(1,4) by (metis mod_eq_nat1E)
  then show ?thesis using assms by (cases q) auto
qed

lemma mod_window_eq:
  fixes a b :: nat
  assumes "a mod m = b mod m" "y \<le> a" "a < y + m" "y \<le> b" "b < y + m"
  shows "a = b"
  using mod_window_le [of a m b y] mod_window_le [of b m a y] assms by (cases "a \<le> b") auto

lemma first_error_None: "first_error es = None \<longleftrightarrow> (\<forall>e \<in> set es. e = None)"
  by (induction es rule: first_error.induct) auto

lemma checkFork_active: "checkFork a b f g = None \<Longrightarrow> active_at b t \<Longrightarrow> active_at a t"
  by (auto simp: checkFork_def active_at_def split: option.splits if_splits)

lemma active_at_mono: "active_at x t \<Longrightarrow> t \<le> t' \<Longrightarrow> active_at x t'"
  by (auto simp: active_at_def split: option.splits)

lemmas fork_defs = IsRegolith_def IsCanyon_def IsDelta_def IsEcotone_def IsFjord_def IsGranite_def
  IsHolocene_def IsInterop_def

lemmas activation_defs = IsRegolithActivationBlock_def IsCanyonActivationBlock_def IsDeltaActivationBlock_def
  IsEcotoneActivationBlock_def IsFjordActivationBlock_def IsGraniteActivationBlock_def
  IsHoloceneActivationBlock_def IsInteropActivationBlock_def

text \<open>The times of the forks in order.\<close>

definition fork_times :: "Config \<Rightarrow> u64 option list" where
  "fork_times c = [RegolithTime c, CanyonTime c, DeltaTime c, EcotoneTime c, FjordTime c, GraniteTime c,
     HoloceneTime c, InteropTime c]"

lemma Check_BlockTime: "Check c = None \<Longrightarrow> BlockTime c \<noteq> 0"
  by (rule notI) (simp add: Check_def Let_def)

lemma Check_forks:
  assumes "Check c = None"
  shows "IsHolocene c t \<Longrightarrow> IsGranite c t" "IsGranite c t \<Longrightarrow> IsFjord c t" "IsFjord c t \<Longrightarrow> IsEcotone c t"
    "IsEcotone c t \<Longrightarrow> IsDelta c t" "IsDelta c t \<Longrightarrow> IsCanyon c t" "IsCanyon c t \<Longrightarrow> IsRegolith c t"
proof -
  have "checkFork (RegolithTime c) (CanyonTime c) Regolith Canyon = None"
    "checkFork (CanyonTime c) (DeltaTime c) Canyon Delta = None"
    "checkFork (DeltaTime c) (EcotoneTime c) Delta Ecotone = None"
    "checkFork (EcotoneTime c) (FjordTime c) Ecotone Fjord = None"
    "checkFork (FjordTime c) (GraniteTime c) Fjord Granite = None"
    "checkFork (GraniteTime c) (HoloceneTime c) Granite Holocene = None"
    using assms by (simp_all add: Check_def Let_def first_error_None)
  then show "IsHolocene c t \<Longrightarrow> IsGranite c t" "IsGranite c t \<Longrightarrow> IsFjord c t" "IsFjord c t \<Longrightarrow> IsEcotone c t"
    "IsEcotone c t \<Longrightarrow> IsDelta c t" "IsDelta c t \<Longrightarrow> IsCanyon c t" "IsCanyon c t \<Longrightarrow> IsRegolith c t"
    by (auto simp: fork_defs dest: checkFork_active)
qed

section \<open>Activation blocks\<close>

lemma activation_block_bounds:
  assumes "activation_block c (active_at (Some x)) t" "BlockTime c \<noteq> 0"
  shows "unat x \<le> unat t" "unat t < unat x + unat (BlockTime c)"
  using assms
  by (auto simp: activation_block_def active_at_def word_le_nat_alt word_less_nat_alt not_le unat_sub_if')

lemma activation_block_unique:
  assumes act: "activation_block c (active_at x) t" "activation_block c (active_at x) t'"
    and bt: "BlockTime c \<noteq> 0" and grid: "unat t mod unat (BlockTime c) = unat t' mod unat (BlockTime c)"
  shows "t = t'"
proof -
  obtain y where y: "x = Some y" using act(1) by (cases x) (auto simp: activation_block_def active_at_def)
  let ?b = "unat (BlockTime c)"
  have b: "unat y \<le> unat t" "unat t < unat y + ?b" "unat y \<le> unat t'" "unat t' < unat y + ?b"
    using activation_block_bounds act bt unfolding y by blast+
  have "unat t = unat t'" by (rule mod_window_eq [OF grid b])
  then show ?thesis by (rule unsigned_word_eqI)
qed

section \<open>Block numbers and timestamps\<close>

lemma unat_word_mult_add:
  assumes "unat (a :: u64) + unat b * unat c < 2 ^ 64"
  shows "unat (a + b * c) = unat a + unat b * unat c"
proof -
  have "unat (b * c) = unat b * unat c" using assms by (subst unat_mult_lem [THEN iffD1]) simp_all
  then show ?thesis using assms by (subst unat_add_lem [THEN iffD1]) simp_all
qed

lemma unat_TimestampForBlock:
  assumes "id_Number (gen_L2 (cfg_Genesis c)) \<le> n"
    and "unat (gen_L2Time (cfg_Genesis c)) + (unat n - unat (id_Number (gen_L2 (cfg_Genesis c)))) * unat (BlockTime c) < 2 ^ 64"
  shows "unat (TimestampForBlock c n) =
    unat (gen_L2Time (cfg_Genesis c)) + (unat n - unat (id_Number (gen_L2 (cfg_Genesis c)))) * unat (BlockTime c)"
proof -
  have "unat (n - id_Number (gen_L2 (cfg_Genesis c))) = unat n - unat (id_Number (gen_L2 (cfg_Genesis c)))"
    using assms(1) by (simp add: unat_sub word_le_nat_alt)
  then show ?thesis using assms(2) unfolding TimestampForBlock_def by (subst unat_word_mult_add) simp_all
qed

lemma unat_TargetBlockNumber:
  assumes "BlockTime c \<noteq> 0" "gen_L2Time (cfg_Genesis c) \<le> t"
    and "unat (id_Number (gen_L2 (cfg_Genesis c))) + (unat t - unat (gen_L2Time (cfg_Genesis c))) div unat (BlockTime c) < 2 ^ 64"
  obtains n where "TargetBlockNumber c t = Some (Inr n)"
    "unat n = unat (id_Number (gen_L2 (cfg_Genesis c))) + (unat t - unat (gen_L2Time (cfg_Genesis c))) div unat (BlockTime c)"
proof -
  let ?d = "(t - gen_L2Time (cfg_Genesis c)) div BlockTime c"
  have d: "unat ?d = (unat t - unat (gen_L2Time (cfg_Genesis c))) div unat (BlockTime c)"
    using assms(2) by (simp add: unat_div unat_sub word_le_nat_alt)
  have "unat (id_Number (gen_L2 (cfg_Genesis c)) + ?d) = unat (id_Number (gen_L2 (cfg_Genesis c))) + unat ?d"
    using assms(3) d by (subst unat_add_lem [THEN iffD1]) simp_all
  then show thesis using assms(1,2) d that by (simp add: TargetBlockNumber_def Let_def not_less)
qed

lemma block_times_le:
  fixes t :: u64
  assumes "unat t + Suc n * unat b < 2 ^ 64"
  shows "t + of_nat n * b \<le> t + of_nat n * b + b" "b \<le> t + of_nat n * b + b"
proof -
  have n: "b \<noteq> 0 \<Longrightarrow> unat (of_nat n :: u64) = n"
  proof (rule unat_of_nat_u64)
    assume "b \<noteq> 0"
    then have "0 < unat b" by (simp add: unat_gt_0)
    then have "n \<le> Suc n * unat b" by (cases "unat b") auto
    then show "n < 2 ^ 64" using assms by linarith
  qed
  have e: "unat (t + of_nat n * b) = unat t + n * unat b"
  proof (cases "b = 0")
    case False
    then show ?thesis using assms n by (subst unat_word_mult_add) simp_all
  qed simp
  have "unat (t + of_nat n * b + b) = unat t + n * unat b + unat b"
    using assms e by (subst unat_add_lem [THEN iffD1]) simp_all
  then show "t + of_nat n * b \<le> t + of_nat n * b + b" "b \<le> t + of_nat n * b + b"
    using e by (simp_all add: word_le_nat_alt)
qed

section \<open>Fork tracking\<close>

text \<open>The number of forks active at a time, for a configuration whose forks are in order.\<close>

definition forks_nested :: "Config \<Rightarrow> u64 \<Rightarrow> bool" where
  "forks_nested c t \<longleftrightarrow>
     (IsInterop c t \<longrightarrow> IsHolocene c t) \<and> (IsHolocene c t \<longrightarrow> IsGranite c t) \<and> (IsGranite c t \<longrightarrow> IsFjord c t) \<and>
     (IsFjord c t \<longrightarrow> IsEcotone c t) \<and> (IsEcotone c t \<longrightarrow> IsDelta c t) \<and> (IsDelta c t \<longrightarrow> IsCanyon c t) \<and>
     (IsCanyon c t \<longrightarrow> IsRegolith c t)"

text \<open>At most one fork becomes active between two block times.\<close>

definition one_fork_at_a_time :: "Config \<Rightarrow> u64 \<Rightarrow> u64 \<Rightarrow> bool" where
  "one_fork_at_a_time c t t' \<longleftrightarrow>
     (\<forall>i < 8. \<forall>j < 8. active_at (fork_times c ! i) t' \<and> \<not> active_at (fork_times c ! i) t \<and>
        active_at (fork_times c ! j) t' \<and> \<not> active_at (fork_times c ! j) t \<longrightarrow> i = j)"

text \<open>Nested forks are a number: the first \<open>k\<close> are active, and the newest of them is what is detected.\<close>

lemma all_lt_8: "(\<forall>i < 8. P i) \<longleftrightarrow> P 0 \<and> P 1 \<and> P 2 \<and> P 3 \<and> P 4 \<and> P 5 \<and> P 6 \<and> P (7 :: nat)"
  by (simp add: numeral_eq_Suc All_less_Suc conj_ac)

lemma nested_number:
  assumes "forks_nested c t"
  obtains k where "k \<le> 8" "\<forall>i < 8. active_at (fork_times c ! i) t \<longleftrightarrow> i < k" "detect_fork c t = AllForks ! k"
proof -
  note d = assms [unfolded forks_nested_def fork_defs] and e = fork_times_def detect_fork_def AllForks_def fork_defs all_lt_8
  consider "active_at (InteropTime c) t" | "\<not> active_at (InteropTime c) t" "active_at (HoloceneTime c) t"
    | "\<not> active_at (HoloceneTime c) t" "active_at (GraniteTime c) t" | "\<not> active_at (GraniteTime c) t" "active_at (FjordTime c) t"
    | "\<not> active_at (FjordTime c) t" "active_at (EcotoneTime c) t" | "\<not> active_at (EcotoneTime c) t" "active_at (DeltaTime c) t"
    | "\<not> active_at (DeltaTime c) t" "active_at (CanyonTime c) t" | "\<not> active_at (CanyonTime c) t" "active_at (RegolithTime c) t"
    | "\<not> active_at (RegolithTime c) t" using d by blast
  then show thesis
  proof cases
    case 1 then show thesis using d by (intro that [of 8]) (auto simp: e)
  next
    case 2 then show thesis using d by (intro that [of 7]) (auto simp: e)
  next
    case 3 then show thesis using d by (intro that [of 6]) (auto simp: e)
  next
    case 4 then show thesis using d by (intro that [of 5]) (auto simp: e)
  next
    case 5 then show thesis using d by (intro that [of 4]) (auto simp: e)
  next
    case 6 then show thesis using d by (intro that [of 3]) (auto simp: e)
  next
    case 7 then show thesis using d by (intro that [of 2]) (auto simp: e)
  next
    case 8 then show thesis using d by (intro that [of 1]) (auto simp: e)
  next
    case 9 then show thesis using d by (intro that [of 0]) (auto simp: e)
  qed
qed

lemma nextFork_simps [simp]:
  "gm_get nextFork Bedrock = Some Regolith" "gm_get nextFork Regolith = Some Canyon"
  "gm_get nextFork Canyon = Some Delta" "gm_get nextFork Delta = Some Ecotone"
  "gm_get nextFork Ecotone = Some Fjord" "gm_get nextFork Fjord = Some Granite"
  "gm_get nextFork Granite = Some Holocene" "gm_get nextFork Holocene = Some Interop"
  "gm_get nextFork Interop = Some ForkNone"
  by (simp_all add: nextFork_def AllForks_def gm_get_def gm_put_def)

lemma CheckForkActivation_config [simp]: "spec_config (CheckForkActivation s t) = spec_config s"
  by (simp add: CheckForkActivation_def Let_def)

lemma fork_number:
  assumes "i < 8"
  shows "gm_get nextFork (AllForks ! i) = Some (AllForks ! Suc i)"
    "fork_activation_block c (AllForks ! Suc i) t = activation_block c (active_at (fork_times c ! i)) t"
    "AllForks ! i \<noteq> Interop"
proof -
  have "\<forall>i < 8. gm_get nextFork (AllForks ! i) = Some (AllForks ! Suc i) \<and> AllForks ! i \<noteq> Interop"
    unfolding all_lt_8 by (simp add: AllForks_def)
  moreover have "\<forall>i < 8. fork_activation_block c (AllForks ! Suc i) t = activation_block c (active_at (fork_times c ! i)) t"
    unfolding all_lt_8 fork_times_def
    by (simp add: AllForks_def fork_activation_block_def activation_defs fork_defs [abs_def])
  ultimately show "gm_get nextFork (AllForks ! i) = Some (AllForks ! Suc i)"
    "fork_activation_block c (AllForks ! Suc i) t = activation_block c (active_at (fork_times c ! i)) t"
    "AllForks ! i \<noteq> Interop" using assms by blast+
qed

lemma AllForks_set: "k \<le> 8 \<Longrightarrow> AllForks ! k \<noteq> ForkUnset"
  using nth_mem [of k AllForks] by (auto simp: AllForks_def)

lemma fork_step:
  fixes c t t'
  assumes s: "spec_config s = c" "currentFork s = detect_fork c t" and t': "t' = t + BlockTime c"
    and le: "t \<le> t'" "BlockTime c \<le> t'" and nested: "forks_nested c t" "forks_nested c t'"
    and one: "one_fork_at_a_time c t t'"
  shows "currentFork (CheckForkActivation s t') = detect_fork c t'"
proof -
  obtain k where k: "k \<le> 8" "\<forall>i < 8. active_at (fork_times c ! i) t \<longleftrightarrow> i < k" "detect_fork c t = AllForks ! k"
    by (rule nested_number [OF nested(1)])
  obtain k' where k': "k' \<le> 8" "\<forall>i < 8. active_at (fork_times c ! i) t' \<longleftrightarrow> i < k'" "detect_fork c t' = AllForks ! k'"
    by (rule nested_number [OF nested(2)])
  have mono: "i < 8 \<Longrightarrow> i < k \<Longrightarrow> i < k'" for i using k(2) k'(2) active_at_mono [OF _ le(1)] by blast
  have k_le: "k \<le> k'" using mono [of "k - 1"] k(1) k'(1) by (cases k) auto
  have k'_le: "k' \<le> Suc k"
  proof (rule ccontr)
    assume "\<not> k' \<le> Suc k"
    then have "k < 8" "Suc k < 8" "k < k'" "Suc k < k'" using k'(1) by auto
    then show False using one [unfolded one_fork_at_a_time_def, rule_format, of k "Suc k"] k(2) k'(2) by auto
  qed
  show ?thesis
  proof (cases "k = 8")
    case True
    then have "detect_fork c t = Interop" using k(3) by (simp add: AllForks_def)
    then show ?thesis using s k'(1,3) k(3) True k_le by (simp add: CheckForkActivation_def)
  next
    case False
    then have "k < 8" using k(1) by simp
    note f = fork_number [OF this] and u = AllForks_set [OF k(1)]
    have "fork_activation_block c (AllForks ! Suc k) t' \<longleftrightarrow> k' = Suc k"
      unfolding f(2) activation_block_def using k(2) k'(2) \<open>k < 8\<close> le(2) t' k_le k'_le by auto
    then show ?thesis using s f u k(3) k'(3) k_le k'_le
      by (auto simp: CheckForkActivation_def le_Suc_eq)
  qed
qed

lemma Check_Interop: "Check (c\<lparr>InteropTime := interop\<rparr>) = Check c"
proof -
  have "chain_ids (c\<lparr>InteropTime := interop\<rparr>) = chain_ids c" by (simp add: chain_ids_def cong: option.case_cong)
  moreover have "validateAltDAConfig (c\<lparr>InteropTime := interop\<rparr>) = validateAltDAConfig c"
    by (simp add: validateAltDAConfig_def cong: option.case_cong)
  ultimately show ?thesis by (simp add: Check_def)
qed

section \<open>Properties\<close>

text \<open>C33. In a configuration that passes \<open>Check\<close> the hard forks from Regolith to Holocene are active in
  order: at every timestamp an active one of them has all those before it active. Interop is not among
  them: the check does not look at its time and passes whatever it is.\<close>

theorem forks_active_in_order:
  assumes "Check c = None"
  shows "(IsHolocene c t \<longrightarrow> IsGranite c t) \<and> (IsGranite c t \<longrightarrow> IsFjord c t) \<and> (IsFjord c t \<longrightarrow> IsEcotone c t) \<and>
    (IsEcotone c t \<longrightarrow> IsDelta c t) \<and> (IsDelta c t \<longrightarrow> IsCanyon c t) \<and> (IsCanyon c t \<longrightarrow> IsRegolith c t) \<and>
    Check (c\<lparr>InteropTime := interop\<rparr>) = None"
  using Check_forks [OF assms, of t] Check_Interop [where c = c and interop = interop] assms by simp

definition ex_cfg :: Config where
  "ex_cfg = \<lparr>cfg_Genesis = \<lparr>gen_L1 = \<lparr>id_Hash = [1], id_Number = 10\<rparr>, gen_L2 = \<lparr>id_Hash = [2], id_Number = 5\<rparr>,
       gen_L2Time = 1000, gen_SystemConfig = \<lparr>sc_BatcherAddr = [3], sc_Overhead = [], sc_Scalar = [4],
         sc_GasLimit = 30000000, sc_EIP1559Params = []\<rparr>\<rparr>,
     BlockTime = 2, cfg_MaxSequencerDrift = 600, SeqWindowSize = 3600, ChannelTimeoutBedrock = 300,
     cfg_L1ChainID = Some 1, cfg_L2ChainID = Some 10, RegolithTime = Some 0, CanyonTime = Some 1100,
     DeltaTime = Some 1200, EcotoneTime = Some 1300, FjordTime = Some 1400, GraniteTime = Some 1500,
     HoloceneTime = Some 1600, InteropTime = None, BatchInboxAddress = [5], DepositContractAddress = [6],
     L1SystemConfigAddress = [7], ProtocolVersionsAddress = [], cfg_AltDAConfig = None\<rparr>"

lemma short_not_zero: "[x] \<noteq> zero_hash" "[x] \<noteq> zero_address"
  by (auto simp: zero_hash_def zero_address_def dest: arg_cong [of _ _ length])

lemma ex_cfg_Check: "Check ex_cfg = None"
  by (simp add: Check_def ex_cfg_def Let_def chain_ids_def validateAltDAConfig_def checkFork_def short_not_zero)

theorem forks_active_in_order_witness:
  "IsHolocene ex_cfg 1700 \<and> IsGranite ex_cfg 1700 \<and> Check (ex_cfg\<lparr>InteropTime := Some 1\<rparr>) = None"
  using forks_active_in_order [OF ex_cfg_Check, where t = 1700 and interop = "Some 1"] by (simp add: fork_defs active_at_def ex_cfg_def)

text \<open>C34. Block numbers and timestamps are inverse: the block the node should be at when the clock shows
  the timestamp of block \<open>n\<close> is block \<open>n\<close>, and so it is for every clock reading up to the next block, as
  long as the timestamps do not overflow.\<close>

theorem target_block_of_timestamp:
  assumes "Check c = None" and "id_Number (gen_L2 (cfg_Genesis c)) \<le> n"
    and "unat (gen_L2Time (cfg_Genesis c)) + (unat n - unat (id_Number (gen_L2 (cfg_Genesis c)))) * unat (BlockTime c) +
      unat (BlockTime c) < 2 ^ 64" and "d < BlockTime c"
  shows "TargetBlockNumber c (TimestampForBlock c n + d) = Some (Inr n)"
proof -
  let ?g = "unat (gen_L2Time (cfg_Genesis c))" and ?n0 = "unat (id_Number (gen_L2 (cfg_Genesis c)))" and ?b = "unat (BlockTime c)"
  have b: "BlockTime c \<noteq> 0" by (rule Check_BlockTime [OF assms(1)])
  have d: "unat d < ?b" using assms(4) by (simp add: word_less_nat_alt)
  have t: "unat (TimestampForBlock c n) = ?g + (unat n - ?n0) * ?b"
    by (rule unat_TimestampForBlock) (use assms in auto)
  have td: "unat (TimestampForBlock c n + d) = ?g + (unat n - ?n0) * ?b + unat d"
    using assms(3) d t by (subst unat_add_lem [THEN iffD1]) simp_all
  have n: "?n0 \<le> unat n" using assms(2) by (simp add: word_le_nat_alt)
  have div: "(unat (TimestampForBlock c n + d) - ?g) div ?b = unat n - ?n0" using td d by simp
  obtain m where m: "TargetBlockNumber c (TimestampForBlock c n + d) = Some (Inr m)"
    "unat m = ?n0 + (unat (TimestampForBlock c n + d) - ?g) div ?b"
    by (rule unat_TargetBlockNumber [OF b, of "TimestampForBlock c n + d"])
       (use td div n unsigned_less [of n, where ?'a = nat] in \<open>auto simp: word_le_nat_alt\<close>)
  have "unat m = unat n" using m(2) div n by simp
  then have "m = n" by (rule unsigned_word_eqI)
  then show ?thesis using m(1) by simp
qed

theorem target_block_of_timestamp_witness: "TargetBlockNumber ex_cfg (TimestampForBlock ex_cfg 105 + 1) = Some (Inr 105)"
  by (rule target_block_of_timestamp [OF ex_cfg_Check]) (simp_all add: ex_cfg_def)

text \<open>A fork has one activation block: two blocks of the chain that are both the activation block of
  the same fork are the same block.\<close>

theorem one_activation_block:
  assumes "Check c = None" and "k < 8"
    and "\<forall>m \<in> {n, n'}. id_Number (gen_L2 (cfg_Genesis c)) \<le> m \<and>
      unat (gen_L2Time (cfg_Genesis c)) + (unat m - unat (id_Number (gen_L2 (cfg_Genesis c)))) * unat (BlockTime c) < 2 ^ 64 \<and>
      fork_activation_block c (AllForks ! Suc k) (TimestampForBlock c m)"
  shows "n = n'"
proof -
  let ?g = "unat (gen_L2Time (cfg_Genesis c))" and ?n0 = "unat (id_Number (gen_L2 (cfg_Genesis c)))" and ?b = "unat (BlockTime c)"
  have b: "BlockTime c \<noteq> 0" by (rule Check_BlockTime [OF assms(1)])
  have t: "unat (TimestampForBlock c m) = ?g + (unat m - ?n0) * ?b" if "m \<in> {n, n'}" for m
    using assms(3) that by (intro unat_TimestampForBlock) auto
  have act: "activation_block c (active_at (fork_times c ! k)) (TimestampForBlock c m)" if "m \<in> {n, n'}" for m
    using assms(2,3) that fork_number(2) by blast
  have "TimestampForBlock c n = TimestampForBlock c n'"
    by (rule activation_block_unique [OF act act b]) (simp_all add: t)
  moreover have "unat (TimestampForBlock c n) = ?g + (unat n - ?n0) * ?b" by (rule t) simp
  moreover have "unat (TimestampForBlock c n') = ?g + (unat n' - ?n0) * ?b" by (rule t) simp
  ultimately have "(unat n - ?n0) * ?b = (unat n' - ?n0) * ?b" by (metis add_left_cancel)
  moreover have "?b \<noteq> 0" using b by (simp add: unat_eq_0)
  moreover have "?n0 \<le> unat n" "?n0 \<le> unat n'" using assms(3) by (simp_all add: word_le_nat_alt)
  ultimately have "unat n = unat n'" by simp
  then show ?thesis by (rule unsigned_word_eqI)
qed

theorem one_activation_block_witness:
  "fork_activation_block ex_cfg Holocene (TimestampForBlock ex_cfg 305) \<and> (305 :: u64) = 305"
proof -
  have a: "fork_activation_block ex_cfg (AllForks ! Suc 6) (TimestampForBlock ex_cfg 305)"
    by (simp add: fork_activation_block_def AllForks_def TimestampForBlock_def activation_defs activation_block_def
        fork_defs active_at_def ex_cfg_def)
  have "(305 :: u64) = 305" by (rule one_activation_block [OF ex_cfg_Check, of 6]) (use a in \<open>simp_all add: ex_cfg_def\<close>)
  then show ?thesis using a by (simp add: AllForks_def)
qed

text \<open>The fork tracker: called on every block of a run of consecutive blocks, \<open>CheckForkActivation\<close>
  always shows the newest fork that is active at the last block, provided no two forks become active at
  the same block.\<close>

theorem fork_tracker_follows:
  assumes "Check c = None" and "\<forall>t. IsInterop c t \<longrightarrow> IsHolocene c t"
    and "unat t0 + n * unat (BlockTime c) < 2 ^ 64"
    and "\<forall>i < n. one_fork_at_a_time c (t0 + of_nat i * BlockTime c) (t0 + of_nat (Suc i) * BlockTime c)"
  shows "currentFork (foldl CheckForkActivation (NewChainSpec c) (map (\<lambda>i. t0 + of_nat i * BlockTime c) [0..<Suc n])) =
    detect_fork c (t0 + of_nat n * BlockTime c)"
  using assms(3,4)
proof (induction n)
  case 0 then show ?case by (simp add: CheckForkActivation_def NewChainSpec_def)
next
  case (Suc n)
  let ?s = "foldl CheckForkActivation (NewChainSpec c) (map (\<lambda>i. t0 + of_nat i * BlockTime c) [0..<Suc n])"
  let ?t = "t0 + of_nat n * BlockTime c" and ?t' = "t0 + of_nat (Suc n) * BlockTime c"
  have nest: "forks_nested c t" for t using Check_forks [OF assms(1), of t] assms(2) by (auto simp: forks_nested_def)
  have cfg: "spec_config ?s = c"
  proof -
    have "spec_config (foldl CheckForkActivation s ts) = spec_config s" for s ts by (induction ts arbitrary: s) simp_all
    then show ?thesis by (simp add: NewChainSpec_def)
  qed
  have step: "?t' = ?t + BlockTime c" by (simp add: algebra_simps)
  have le: "?t \<le> ?t'" "BlockTime c \<le> ?t'" unfolding step using Suc.prems(1) by (intro block_times_le; simp)+
  have cur: "currentFork ?s = detect_fork c ?t" by (rule Suc.IH) (use Suc.prems in auto)
  have "currentFork (CheckForkActivation ?s ?t') = detect_fork c ?t'"
    by (rule fork_step [OF cfg cur step le nest nest]) (use Suc.prems(2) in blast)
  then show ?case by simp
qed

theorem fork_tracker_follows_witness:
  "currentFork (foldl CheckForkActivation (NewChainSpec ex_cfg) (map (\<lambda>i. 1598 + of_nat i * BlockTime ex_cfg) [0..<Suc 1])) = Holocene"
proof -
  have "currentFork (foldl CheckForkActivation (NewChainSpec ex_cfg) (map (\<lambda>i. 1598 + of_nat i * BlockTime ex_cfg) [0..<Suc 1])) =
      detect_fork ex_cfg (1598 + of_nat 1 * BlockTime ex_cfg)"
    by (rule fork_tracker_follows [OF ex_cfg_Check])
       (simp_all add: one_fork_at_a_time_def all_lt_8 fork_times_def active_at_def IsInterop_def ex_cfg_def)
  then show ?thesis by (simp add: detect_fork_def fork_defs active_at_def ex_cfg_def)
qed

text \<open>When two forks become active at the same block the tracker sticks: once the fork after the
  tracked one is active, the tracked fork never changes again on later blocks, although the
  configuration has the later fork active.\<close>

theorem fork_tracker_sticks:
  assumes "currentFork s = AllForks ! k" and "k < 8" and "active_at (fork_times (spec_config s) ! k) t"
    and "\<forall>t' \<in> set ts. BlockTime (spec_config s) \<le> t' \<and> t \<le> t' - BlockTime (spec_config s)"
  shows "currentFork (foldl CheckForkActivation s ts) = AllForks ! k"
  using assms
proof (induction ts arbitrary: s)
  case (Cons t' ts)
  have a: "active_at (fork_times (spec_config s) ! k) (t' - BlockTime (spec_config s))"
    using Cons.prems(3,4) by (auto intro: active_at_mono)
  have "AllForks ! k \<noteq> ForkUnset" using Cons.prems(2) by (intro AllForks_set) simp
  then have "CheckForkActivation s t' = s"
    using Cons.prems(1) fork_number [OF Cons.prems(2)] a by (simp add: CheckForkActivation_def activation_block_def)
  then show ?case using Cons by simp
qed simp

definition ex_cfg_same :: Config where
  "ex_cfg_same = ex_cfg\<lparr>HoloceneTime := Some 1500\<rparr>"

theorem fork_tracker_sticks_witness:
  "currentFork (CheckForkActivation (CheckForkActivation (CheckForkActivation (NewChainSpec ex_cfg_same) 1498) 1500) 1502) = Granite \<and>
   detect_fork ex_cfg_same 1502 = Holocene"
proof -
  let ?s = "CheckForkActivation (CheckForkActivation (NewChainSpec ex_cfg_same) 1498) 1500"
  have c: "spec_config (NewChainSpec ex_cfg_same) = ex_cfg_same" by (simp add: NewChainSpec_def)
  have h: "fork_times ex_cfg_same ! 6 = Some 1500" "BlockTime ex_cfg_same = 2"
    by (simp_all add: fork_times_def ex_cfg_same_def ex_cfg_def)
  have s: "currentFork ?s = AllForks ! 6"
    by (simp add: CheckForkActivation_def NewChainSpec_def detect_fork_def fork_activation_block_def activation_defs
        activation_block_def fork_defs active_at_def ex_cfg_same_def ex_cfg_def AllForks_def)
  have "currentFork (foldl CheckForkActivation ?s [1502]) = AllForks ! 6"
    by (rule fork_tracker_sticks [where t = 1500, OF s]) (simp_all add: c h active_at_def)
  then show ?thesis
    by (simp add: AllForks_def detect_fork_def fork_defs active_at_def ex_cfg_same_def ex_cfg_def)
qed

text \<open>\<open>Check\<close> refuses every configuration without a maximum sequencer drift, also one where Fjord is active
  from genesis and the field is never used.\<close>

theorem check_requires_drift: "Check (ActivateAtGenesis Fjord (c\<lparr>cfg_MaxSequencerDrift := 0\<rparr>)) \<noteq> None \<and>
    MaxSequencerDrift (ActivateAtGenesis Fjord (c\<lparr>cfg_MaxSequencerDrift := 0\<rparr>)) t = 1800"
  by (auto simp: Check_def Let_def first_error_None MaxSequencerDrift_def IsFeatMaxSequencerDriftConstant_def
      maxSequencerDriftFjord_def IsFjord_def active_at_def)

end
