(* ===== verification/Derive_Frames.thy ===== *)
theory Derive_Frames
  imports Rollup_Config
begin

text \<open>
  Frames, the unit in which batch data is posted on L1: their binary format (\<^verbatim>\<open>derive/frame.go\<close>) and the
  queue with the Holocene pruning rules (\<^verbatim>\<open>derive/frame_queue.go\<close>).
\<close>

section \<open>The frame format\<close>

type_synonym ChannelID = bytes

record Frame =
  fr_ID :: ChannelID
  fr_FrameNumber :: u16
  fr_Data :: bytes
  fr_IsLast :: bool

definition MaxFrameLen :: nat where
  "MaxFrameLen = 1000000"

definition ChannelIDLength :: nat where
  "ChannelIDLength = 16"

datatype DeriveErr =
  EOF | UnexpectedEOF | FrameLengthTooLarge nat | InvalidIsLast byte
| DataEmpty | InvalidVersion byte | NoFrames
| NotEnoughData | FrameIdMismatch | EndFrameOfClosed | DuplicateErr | FrameBeyondEnd | FrameOutOfOrder
| CriticalErr string | TemporaryErr string | ResetErr string

definition Frame_MarshalBinary :: "Frame \<Rightarrow> bytes" where
  "Frame_MarshalBinary f =
     fr_ID f @ PutUint16BE (fr_FrameNumber f) @ PutUint32BE (of_nat (length (fr_Data f))) @ fr_Data f @
     (if fr_IsLast f then [1] else [0])"

text \<open>\<^verbatim>\<open>io.ReadFull\<close> of \<open>n\<close> bytes: nothing at all is \<open>EOF\<close>, too little is \<open>UnexpectedEOF\<close>.\<close>

definition ReadFull :: "nat \<Rightarrow> bytes \<Rightarrow> DeriveErr + bytes \<times> bytes" where
  "ReadFull n r =
     (if n = 0 then Inr ([], r)
      else if r = [] then Inl EOF
      else if length r < n then Inl UnexpectedEOF
      else Inr (take n r, drop n r))"

definition eofAsUnexpectedMissing :: "DeriveErr \<Rightarrow> DeriveErr" where
  "eofAsUnexpectedMissing e = (if e = EOF then UnexpectedEOF else e)"

definition Frame_UnmarshalBinary :: "bytes \<Rightarrow> DeriveErr + Frame \<times> bytes" where
  "Frame_UnmarshalBinary r =
     (case ReadFull ChannelIDLength r of
        Inl e \<Rightarrow> Inl e
      | Inr (ident, r1) \<Rightarrow>
     (case ReadFull 2 r1 of
        Inl e \<Rightarrow> Inl (eofAsUnexpectedMissing e)
      | Inr (num, r2) \<Rightarrow>
     (case ReadFull 4 r2 of
        Inl e \<Rightarrow> Inl (eofAsUnexpectedMissing e)
      | Inr (len, r3) \<Rightarrow>
          (let frameLength = unat (Uint32BE len) in
           if frameLength > MaxFrameLen then Inl (FrameLengthTooLarge frameLength)
           else
             (case ReadFull frameLength r3 of
                Inl e \<Rightarrow> Inl (eofAsUnexpectedMissing e)
              | Inr (data, r4) \<Rightarrow>
                  (case r4 of
                     [] \<Rightarrow> Inl UnexpectedEOF
                   | isLastByte # r5 \<Rightarrow>
                       if isLastByte = 0
                       then Inr (\<lparr>fr_ID = ident, fr_FrameNumber = Uint16BE num, fr_Data = data, fr_IsLast = False\<rparr>, r5)
                       else if isLastByte = 1
                       then Inr (\<lparr>fr_ID = ident, fr_FrameNumber = Uint16BE num, fr_Data = data, fr_IsLast = True\<rparr>, r5)
                       else Inl (InvalidIsLast isLastByte)))))))"

lemma ReadFull_Inr: "ReadFull n r = Inr (a, b) \<longleftrightarrow> n \<le> length r \<and> a = take n r \<and> b = drop n r"
  by (cases "r = []") (auto simp: ReadFull_def)

lemma Frame_UnmarshalBinary_shorter:
  "Frame_UnmarshalBinary r = Inr (f, r') \<Longrightarrow> length r' < length r"
  by (auto simp: Frame_UnmarshalBinary_def ReadFull_Inr Let_def ChannelIDLength_def
      split: sum.splits prod.splits if_splits list.splits dest!: arg_cong [of "drop _ _" _ length])

function parse_frames :: "bytes \<Rightarrow> DeriveErr + Frame list" where
  "parse_frames buf =
     (if buf = [] then Inr []
      else case Frame_UnmarshalBinary buf of
             Inl e \<Rightarrow> Inl e
           | Inr (f, rest) \<Rightarrow>
               (case parse_frames rest of Inl e \<Rightarrow> Inl e | Inr frames \<Rightarrow> Inr (f # frames)))"
  by pat_completeness auto
termination
  by (relation "measure length") (auto simp: Frame_UnmarshalBinary_shorter)

declare parse_frames.simps [simp del]

definition DerivationVersion0 :: byte where
  "DerivationVersion0 = 0"

definition ParseFrames :: "bytes \<Rightarrow> DeriveErr + Frame list" where
  "ParseFrames data =
     (case data of
        [] \<Rightarrow> Inl DataEmpty
      | v # buf \<Rightarrow>
          if v \<noteq> DerivationVersion0 then Inl (InvalidVersion v)
          else (case parse_frames buf of
                  Inl e \<Rightarrow> Inl e
                | Inr frames \<Rightarrow> if frames = [] then Inl NoFrames else Inr frames))"

section \<open>The frame queue\<close>

text \<open>\<open>discard i d\<close> removes the element at \<open>i + d\<close>.\<close>

definition discard :: "nat \<Rightarrow> nat \<Rightarrow> Frame list \<Rightarrow> Frame list" where
  "discard i d frames = take (i + d) frames @ drop (i + 1 + d) frames"

lemma length_discard: "i + d < length frames \<Longrightarrow> length (discard i d frames) = length frames - 1"
  by (auto simp: discard_def)

function prune_loop :: "nat \<Rightarrow> Frame list \<Rightarrow> Frame list" where
  "prune_loop i frames =
     (if Suc i < length frames
      then let current = frames ! i; nxt = frames ! Suc i in
           if fr_ID current = fr_ID nxt
           then if fr_IsLast current then prune_loop i (discard i 1 frames)
                else if fr_FrameNumber nxt \<noteq> fr_FrameNumber current + 1 then prune_loop i (discard i 1 frames)
                else prune_loop (Suc i) frames
           else if fr_FrameNumber nxt = 0 \<and> \<not> fr_IsLast current
                then prune_loop (if i > 0 then i - 1 else i) (discard i 0 frames)
                else if fr_FrameNumber nxt \<noteq> 0 then prune_loop i (discard i 1 frames)
                else prune_loop (Suc i) frames
      else frames)"
  by pat_completeness auto
termination
  by (relation "measure (\<lambda>(i, frames). 2 * length frames - i)") (auto simp: length_discard)

declare prune_loop.simps [simp del]

definition pruneFrameQueue :: "Frame list \<Rightarrow> Frame list" where
  "pruneFrameQueue frames = prune_loop 0 frames"

record FrameQueue =
  fq_frames :: "Frame list"

definition NewFrameQueue :: FrameQueue where
  "NewFrameQueue = \<lparr>fq_frames = []\<rparr>"

definition FrameQueue_prune :: "FrameQueue \<Rightarrow> FrameQueue" where
  "FrameQueue_prune fq = fq\<lparr>fq_frames := pruneFrameQueue (fq_frames fq)\<rparr>"

definition FrameQueue_reset :: "FrameQueue \<Rightarrow> FrameQueue" where
  "FrameQueue_reset fq = fq\<lparr>fq_frames := []\<rparr>"

definition FrameQueue_Reset :: "FrameQueue \<Rightarrow> DeriveErr \<times> FrameQueue" where
  "FrameQueue_Reset fq = (EOF, FrameQueue_reset fq)"

definition FrameQueue_Transform :: "ForkName \<Rightarrow> FrameQueue \<Rightarrow> FrameQueue" where
  "FrameQueue_Transform f fq = (case f of Holocene \<Rightarrow> FrameQueue_reset fq | _ \<Rightarrow> fq)"

text \<open>\<open>nextData\<close> is the answer of \<^verbatim>\<open>prev.NextData\<close> and \<open>origin\<close> its L1 origin.\<close>

definition loadNextFrames :: "Config \<Rightarrow> L1BlockRef \<Rightarrow> (DeriveErr + bytes) \<Rightarrow> FrameQueue \<Rightarrow> DeriveErr option \<times> FrameQueue" where
  "loadNextFrames cfg origin nextData fq =
     (case nextData of
        Inl e \<Rightarrow> (Some e, fq)
      | Inr data \<Rightarrow>
          (case ParseFrames data of
             Inl _ \<Rightarrow> (None, fq)
           | Inr frames \<Rightarrow>
               (let fq1 = fq\<lparr>fq_frames := fq_frames fq @ frames\<rparr> in
                if IsHolocene cfg (l1_Time origin) then (None, FrameQueue_prune fq1) else (None, fq1))))"

definition NextFrame :: "Config \<Rightarrow> L1BlockRef \<Rightarrow> (DeriveErr + bytes) \<Rightarrow> FrameQueue \<Rightarrow> (DeriveErr + Frame) \<times> FrameQueue" where
  "NextFrame cfg origin nextData fq =
     (case (if fq_frames fq = [] then loadNextFrames cfg origin nextData fq else (None, fq)) of
        (Some e, fq1) \<Rightarrow> (Inl e, fq1)
      | (None, fq1) \<Rightarrow>
          (case fq_frames fq1 of
             [] \<Rightarrow> (Inl NotEnoughData, fq1)
           | ret # rest \<Rightarrow> (Inr ret, fq1\<lparr>fq_frames := rest\<rparr>)))"

end
