(* ===== verification/Derive_Frames_Props.thy ===== *)
theory Derive_Frames_Props
  imports Derive_Frames "HOL-Library.Sublist"
begin

text \<open>
  The frame format is a self-delimiting encoding, so parsing a batcher transaction inverts building one;
  and the Holocene pruning of the frame queue computes an ordered subsequence.
\<close>

section \<open>The frame format\<close>

definition valid_frame :: "Frame \<Rightarrow> bool" where
  "valid_frame f \<longleftrightarrow> length (fr_ID f) = ChannelIDLength \<and> length (fr_Data f) \<le> MaxFrameLen"

lemma unat_frame_len: "n \<le> MaxFrameLen \<Longrightarrow> unat (of_nat n :: u32) = n"
  by (simp add: MaxFrameLen_def unat_of_nat)

lemma Frame_dec_enc:
  assumes "valid_frame f" shows "Frame_UnmarshalBinary (Frame_MarshalBinary f @ r) = Inr (f, r)"
proof -
  have v: "length (fr_ID f) = 16" "length (fr_Data f) \<le> MaxFrameLen"
    using assms by (simp_all add: valid_frame_def ChannelIDLength_def)
  have e: "ReadFull (length a) (a @ b) = Inr (a, b)" for a b :: bytes by (simp add: ReadFull_Inr)
  let ?n = "PutUint16BE (fr_FrameNumber f)" and ?l = "PutUint32BE (of_nat (length (fr_Data f)))"
    and ?b = "if fr_IsLast f then [1] else [0] :: bytes"
  have r1: "ReadFull ChannelIDLength (Frame_MarshalBinary f @ r) = Inr (fr_ID f, ?n @ ?l @ fr_Data f @ ?b @ r)"
    using e [of "fr_ID f"] v(1) by (simp add: Frame_MarshalBinary_def ChannelIDLength_def)
  have r2: "ReadFull 2 (?n @ x) = Inr (?n, x)" for x using e [of ?n x] by simp
  have r3: "ReadFull 4 (?l @ x) = Inr (?l, x)" for x using e [of ?l x] by simp
  show ?thesis unfolding Frame_UnmarshalBinary_def r1
    using v(2) by (simp add: r2 r3 e unat_frame_len Let_def)
qed

lemma take_drop_split: "k \<le> length r \<Longrightarrow> r = take k r @ drop k r"
  by simp

lemma Frame_UnmarshalBinary_cases:
  assumes "Frame_UnmarshalBinary s = Inr (f, r)"
  obtains a b c d l where "s = a @ b @ c @ d @ l # r" "length a = 16" "length b = 2" "length c = 4"
    "length d = unat (Uint32BE c)" "length d \<le> MaxFrameLen" "l = (if fr_IsLast f then 1 else 0)"
    "fr_ID f = a" "fr_FrameNumber f = Uint16BE b" "fr_Data f = d"
proof -
  obtain a r1 where a: "ReadFull ChannelIDLength s = Inr (a, r1)"
    using assms by (auto simp: Frame_UnmarshalBinary_def split: sum.splits)
  obtain b r2 where b: "ReadFull 2 r1 = Inr (b, r2)"
    using assms a by (auto simp: Frame_UnmarshalBinary_def split: sum.splits)
  obtain c r3 where c: "ReadFull 4 r2 = Inr (c, r3)"
    using assms a b by (auto simp: Frame_UnmarshalBinary_def split: sum.splits)
  have m: "unat (Uint32BE c) \<le> MaxFrameLen"
    using assms a b c by (auto simp: Frame_UnmarshalBinary_def Let_def split: if_splits)
  obtain d r4 where d: "ReadFull (unat (Uint32BE c)) r3 = Inr (d, r4)"
    using assms a b c m by (auto simp: Frame_UnmarshalBinary_def Let_def split: sum.splits)
  obtain l r5 where l: "r4 = l # r5"
    using assms a b c m d by (auto simp: Frame_UnmarshalBinary_def Let_def split: list.splits)
  have f: "r5 = r" "l = (if fr_IsLast f then 1 else 0)" "fr_ID f = a" "fr_FrameNumber f = Uint16BE b" "fr_Data f = d"
    using assms a b c m d l by (auto simp: Frame_UnmarshalBinary_def Let_def split: if_splits)
  have "s = a @ r1" "length a = 16" using a by (auto simp: ReadFull_Inr ChannelIDLength_def)
  moreover have "r1 = b @ r2" "length b = 2" using b by (auto simp: ReadFull_Inr)
  moreover have "r2 = c @ r3" "length c = 4" using c by (auto simp: ReadFull_Inr)
  moreover have "r3 = d @ r4" "length d = unat (Uint32BE c)" using d by (auto simp: ReadFull_Inr)
  ultimately show thesis using that [of a b c d l] f l m by simp
qed

lemma Frame_dec_sound:
  assumes "Frame_UnmarshalBinary s = Inr (f, r)"
  shows "valid_frame f \<and> s = Frame_MarshalBinary f @ r"
proof -
  obtain a b c d l where s: "s = a @ b @ c @ d @ l # r" and len: "length a = 16" "length b = 2" "length c = 4"
    "length d = unat (Uint32BE c)" "length d \<le> MaxFrameLen" and l: "l = (if fr_IsLast f then 1 else 0)"
    and f: "fr_ID f = a" "fr_FrameNumber f = Uint16BE b" "fr_Data f = d"
    by (rule Frame_UnmarshalBinary_cases [OF assms])
  have "PutUint32BE (of_nat (length d)) = c" using len(3,4) by (simp add: Put_Uint of_nat_unat)
  moreover have "PutUint16BE (Uint16BE b) = b" using len(2) by (rule Put_Uint)
  ultimately show ?thesis using s len l f
    by (simp add: valid_frame_def Frame_MarshalBinary_def ChannelIDLength_def)
qed

interpretation frame: stream_codec Frame_MarshalBinary Frame_UnmarshalBinary valid_frame
  by unfold_locales (simp_all add: Frame_dec_enc Frame_dec_sound)

lemma Frame_MarshalBinary_nonempty [simp]: "Frame_MarshalBinary f \<noteq> []"
  by (simp add: Frame_MarshalBinary_def)

lemma parse_frames_enc:
  "\<forall>f \<in> set fs. valid_frame f \<Longrightarrow> parse_frames (concat (map Frame_MarshalBinary fs)) = Inr fs"
  by (induction fs) (simp_all add: parse_frames.simps frame.dec_enc)

lemma parse_frames_sound:
  "parse_frames s = Inr fs \<Longrightarrow> (\<forall>f \<in> set fs. valid_frame f) \<and> s = concat (map Frame_MarshalBinary fs)"
proof (induction s arbitrary: fs rule: parse_frames.induct)
  case (1 s)
  show ?case
  proof (cases "s = []")
    case True then show ?thesis using 1(2) by (simp add: parse_frames.simps)
  next
    case False
    then obtain f rest fs' where f: "Frame_UnmarshalBinary s = Inr (f, rest)" "parse_frames rest = Inr fs'" "fs = f # fs'"
      using 1(2) by (subst (asm) parse_frames.simps) (auto split: sum.splits prod.splits)
    have "(\<forall>f \<in> set fs'. valid_frame f) \<and> rest = concat (map Frame_MarshalBinary fs')"
      using 1(1) [OF False f(1) refl f(2)] .
    then show ?thesis using frame.dec_sound [OF f(1)] f(3) by simp
  qed
qed

section \<open>Pruning\<close>

text \<open>The Holocene rule for neighbours in the queue.\<close>

definition frames_follow :: "Frame \<Rightarrow> Frame \<Rightarrow> bool" where
  "frames_follow current nxt \<longleftrightarrow>
     (if fr_ID current = fr_ID nxt then \<not> fr_IsLast current \<and> fr_FrameNumber nxt = fr_FrameNumber current + 1
      else fr_FrameNumber nxt = 0 \<and> fr_IsLast current)"

abbreviation ordered_frames :: "Frame list \<Rightarrow> bool" where
  "ordered_frames \<equiv> successively frames_follow"

lemma subseq_drop: "subseq (drop k xs) xs"
  by (metis append_take_drop_id list_emb_append2 subseq_order.refl)

lemma discard_subseq: "subseq (discard i d frames) frames"
proof -
  have "subseq (drop 1 (drop (i + d) frames)) (drop (i + d) frames)" by (rule subseq_drop)
  then have "subseq (take (i + d) frames @ drop (i + 1 + d) frames) (take (i + d) frames @ drop (i + d) frames)"
    by (intro list_emb_append_mono subseq_order.refl) (simp add: ac_simps)
  then show ?thesis by (simp add: discard_def)
qed

definition drops_current :: "Frame \<Rightarrow> Frame \<Rightarrow> bool" where
  "drops_current current nxt \<longleftrightarrow> fr_ID current \<noteq> fr_ID nxt \<and> fr_FrameNumber nxt = 0 \<and> \<not> fr_IsLast current"

lemma prune_loop_eqs:
  "\<not> Suc i < length frames \<Longrightarrow> prune_loop i frames = frames"
  "Suc i < length frames \<Longrightarrow> frames_follow (frames ! i) (frames ! Suc i) \<Longrightarrow>
     prune_loop i frames = prune_loop (Suc i) frames"
  "Suc i < length frames \<Longrightarrow> \<not> frames_follow (frames ! i) (frames ! Suc i) \<Longrightarrow> drops_current (frames ! i) (frames ! Suc i) \<Longrightarrow>
     prune_loop i frames = prune_loop (i - 1) (discard i 0 frames)"
  "Suc i < length frames \<Longrightarrow> \<not> frames_follow (frames ! i) (frames ! Suc i) \<Longrightarrow> \<not> drops_current (frames ! i) (frames ! Suc i) \<Longrightarrow>
     prune_loop i frames = prune_loop i (discard i 1 frames)"
  by (subst prune_loop.simps; auto simp: Let_def frames_follow_def drops_current_def split: if_splits; fail)+

text \<open>An invariant of the loop holds when it ends.\<close>

lemma prune_loop_inv:
  assumes "P i frames"
    and keep: "\<And>i fs. P i fs \<Longrightarrow> Suc i < length fs \<Longrightarrow> frames_follow (fs ! i) (fs ! Suc i) \<Longrightarrow> P (Suc i) fs"
    and cur: "\<And>i fs. P i fs \<Longrightarrow> Suc i < length fs \<Longrightarrow> P (i - 1) (discard i 0 fs)"
    and nxt: "\<And>i fs. P i fs \<Longrightarrow> Suc i < length fs \<Longrightarrow> P i (discard i 1 fs)"
    and fin: "\<And>i fs. P i fs \<Longrightarrow> \<not> Suc i < length fs \<Longrightarrow> R fs"
  shows "R (prune_loop i frames)"
  using assms(1)
proof (induction "2 * length frames - i" arbitrary: i frames rule: less_induct)
  case less
  show ?case
  proof (cases "Suc i < length frames")
    case False then show ?thesis using fin less.prems by (simp add: prune_loop_eqs(1))
  next
    case True
    note eqs = prune_loop_eqs(2-4) [OF True]
    have l: "length (discard i 0 frames) = length frames - 1" "length (discard i 1 frames) = length frames - 1"
      using True length_discard [of i 0 frames] length_discard [of i 1 frames] by simp_all
    have "R (prune_loop (Suc i) frames)" if "frames_follow (frames ! i) (frames ! Suc i)"
      by (rule less.hyps) (use True that keep less.prems in auto)
    moreover have "R (prune_loop (i - 1) (discard i 0 frames))"
      by (rule less.hyps) (use True l cur less.prems in auto)
    moreover have "R (prune_loop i (discard i 1 frames))"
      by (rule less.hyps) (use True l nxt less.prems in auto)
    ultimately show ?thesis using eqs by (cases "frames_follow (frames ! i) (frames ! Suc i)";
        cases "drops_current (frames ! i) (frames ! Suc i)") auto
  qed
qed

lemma prune_loop_subseq: "subseq (prune_loop i frames) frames"
  by (rule prune_loop_inv [where P = "\<lambda>i fs. subseq fs frames"])
     (auto intro: subseq_order.trans discard_subseq)

lemma nth_discard: "j < i + d \<Longrightarrow> i + d < length fs \<Longrightarrow> discard i d fs ! j = fs ! j"
  by (simp add: discard_def nth_append)

lemma prune_loop_ordered:
  assumes "\<forall>j < i. frames_follow (frames ! j) (frames ! Suc j)"
  shows "ordered_frames (prune_loop i frames)"
proof (rule prune_loop_inv [where P = "\<lambda>i fs. \<forall>j < i. Suc j < length fs \<longrightarrow> frames_follow (fs ! j) (fs ! Suc j)"])
  show "\<forall>j < i. Suc j < length frames \<longrightarrow> frames_follow (frames ! j) (frames ! Suc j)" using assms by blast
next
  fix i fs assume "\<forall>j < i. Suc j < length fs \<longrightarrow> frames_follow (fs ! j) (fs ! Suc j)" "Suc i < length fs"
  then show "\<forall>j < i - 1. Suc j < length (discard i 0 fs) \<longrightarrow> frames_follow (discard i 0 fs ! j) (discard i 0 fs ! Suc j)"
    "\<forall>j < i. Suc j < length (discard i 1 fs) \<longrightarrow> frames_follow (discard i 1 fs ! j) (discard i 1 fs ! Suc j)"
    by (simp_all add: nth_discard)
qed (auto simp: successively_conv_nth less_Suc_eq)

lemma prune_loop_fixed: "ordered_frames frames \<Longrightarrow> prune_loop i frames = frames"
proof (induction "length frames - i" arbitrary: i)
  case (Suc n)
  then show ?case
    by (cases "Suc i < length frames") (auto simp: prune_loop_eqs(1,2) successively_conv_nth)
qed (simp add: prune_loop_eqs(1))

section \<open>Properties\<close>

text \<open>C35. Parsing a batcher transaction inverts building one, and nothing else parses: \<open>ParseFrames\<close> gives the
  frames \<open>fs\<close> exactly on the version byte followed by the encodings of \<open>fs\<close>, for one or more frames with
  16-byte channel ids and data of at most \<open>MaxFrameLen\<close> bytes.\<close>

theorem ParseFrames_iff:
  "ParseFrames data = Inr fs \<longleftrightarrow>
   fs \<noteq> [] \<and> (\<forall>f \<in> set fs. length (fr_ID f) = 16 \<and> length (fr_Data f) \<le> 1000000) \<and>
   data = 0 # concat (map Frame_MarshalBinary fs)"
proof
  assume "ParseFrames data = Inr fs"
  then obtain buf where "data = 0 # buf" "parse_frames buf = Inr fs" "fs \<noteq> []"
    by (auto simp: ParseFrames_def DerivationVersion0_def split: list.splits if_splits sum.splits)
  then show "fs \<noteq> [] \<and> (\<forall>f \<in> set fs. length (fr_ID f) = 16 \<and> length (fr_Data f) \<le> 1000000) \<and>
      data = 0 # concat (map Frame_MarshalBinary fs)"
    using parse_frames_sound by (simp add: valid_frame_def ChannelIDLength_def MaxFrameLen_def)
next
  assume a: "fs \<noteq> [] \<and> (\<forall>f \<in> set fs. length (fr_ID f) = 16 \<and> length (fr_Data f) \<le> 1000000) \<and>
      data = 0 # concat (map Frame_MarshalBinary fs)"
  then have "\<forall>f \<in> set fs. valid_frame f" by (simp add: valid_frame_def ChannelIDLength_def MaxFrameLen_def)
  then show "ParseFrames data = Inr fs" using a parse_frames_enc by (simp add: ParseFrames_def DerivationVersion0_def)
qed

definition ex_frame :: Frame where
  "ex_frame = \<lparr>fr_ID = replicate 16 7, fr_FrameNumber = 258, fr_Data = [1, 2, 3], fr_IsLast = True\<rparr>"

theorem ParseFrames_iff_witness: "ParseFrames (0 # Frame_MarshalBinary ex_frame) = Inr [ex_frame]"
  using ParseFrames_iff [of "0 # Frame_MarshalBinary ex_frame" "[ex_frame]"] by (simp add: ex_frame_def)

text \<open>C36. Holocene pruning terminates with a subsequence of the queue in which every frame follows the one
  before it: the next number of the same open channel, or frame 0 of another channel after a closed
  one. A queue that already has this shape is left as it is.\<close>

theorem pruneFrameQueue_ordered:
  "subseq (pruneFrameQueue frames) frames \<and> successively frames_follow (pruneFrameQueue frames) \<and>
   (successively frames_follow frames \<longleftrightarrow> pruneFrameQueue frames = frames)"
proof -
  have "ordered_frames (pruneFrameQueue frames)" unfolding pruneFrameQueue_def by (rule prune_loop_ordered) simp
  then show ?thesis using prune_loop_subseq [of 0 frames] prune_loop_fixed [of frames 0]
    unfolding pruneFrameQueue_def by metis
qed

end
