(* ===== verification/Derive_Channels.thy ===== *)
theory Derive_Channels
  imports Derive_Frames
begin

text \<open>
  Channels assembled from frames (\<^verbatim>\<open>derive/channel.go\<close>), the channel bank that buffers them before
  Holocene (\<^verbatim>\<open>derive/channel_bank.go\<close>) and the channel assembler that replaces it
  (\<^verbatim>\<open>derive/channel_assembler.go\<close>).
\<close>

section \<open>Channels\<close>

definition frameOverhead :: u64 where
  "frameOverhead = 200"

definition frameSize :: "Frame \<Rightarrow> u64" where
  "frameSize frame = of_nat (length (fr_Data frame)) + frameOverhead"

record Channel =
  ch_id :: ChannelID
  ch_openBlock :: L1BlockRef
  ch_requireInOrder :: bool
  ch_size :: u64
  ch_closed :: bool
  ch_highestFrameNumber :: u16
  ch_endFrameNumber :: u16
  ch_inputs :: "(u64, Frame) gomap"
  ch_highestL1InclusionBlock :: L1BlockRef

definition zero_L1BlockRef :: L1BlockRef where
  "zero_L1BlockRef = \<lparr>l1_Hash = zero_hash, l1_Number = 0, l1_ParentHash = zero_hash, l1_Time = 0\<rparr>"

definition NewChannel :: "ChannelID \<Rightarrow> L1BlockRef \<Rightarrow> bool \<Rightarrow> Channel" where
  "NewChannel ident openBlock requireInOrder =
     \<lparr>ch_id = ident, ch_openBlock = openBlock, ch_requireInOrder = requireInOrder, ch_size = 0,
      ch_closed = False, ch_highestFrameNumber = 0, ch_endFrameNumber = 0, ch_inputs = [],
      ch_highestL1InclusionBlock = zero_L1BlockRef\<rparr>"

definition frame_key :: "Frame \<Rightarrow> u64" where
  "frame_key f = ucast (fr_FrameNumber f)"

text \<open>
  The scan that runs when a closing frame arrives below the highest number seen. It visits every
  buffered frame once, deletes those from the end number on, and subtracts the size of every visited
  frame.
\<close>

definition prune_inputs :: "Channel \<Rightarrow> Channel" where
  "prune_inputs ch =
     ch\<lparr>ch_inputs := gm_keep (\<lambda>idx. idx < ucast (ch_endFrameNumber ch)) (ch_inputs ch),
        ch_size := foldl (\<lambda>size (idx, f). size - frameSize f) (ch_size ch) (ch_inputs ch),
        ch_highestFrameNumber := ch_endFrameNumber ch\<rparr>"

definition AddFrame :: "Channel \<Rightarrow> Frame \<Rightarrow> L1BlockRef \<Rightarrow> DeriveErr + Channel" where
  "AddFrame ch frame l1InclusionBlock =
     (if fr_ID frame \<noteq> ch_id ch then Inl FrameIdMismatch
      else if fr_IsLast frame \<and> ch_closed ch then Inl EndFrameOfClosed
      else if gm_get (ch_inputs ch) (frame_key frame) \<noteq> None then Inl DuplicateErr
      else if ch_closed ch \<and> fr_FrameNumber frame \<ge> ch_endFrameNumber ch then Inl FrameBeyondEnd
      else if ch_requireInOrder ch \<and> unat (fr_FrameNumber frame) \<noteq> length (ch_inputs ch) then Inl FrameOutOfOrder
      else
        (let ch1 = (if fr_IsLast frame then ch\<lparr>ch_endFrameNumber := fr_FrameNumber frame, ch_closed := True\<rparr> else ch);
             ch2 = (if fr_IsLast frame \<and> ch_endFrameNumber ch1 < ch_highestFrameNumber ch1 then prune_inputs ch1 else ch1);
             ch3 = (if fr_FrameNumber frame > ch_highestFrameNumber ch2
                    then ch2\<lparr>ch_highestFrameNumber := fr_FrameNumber frame\<rparr> else ch2);
             ch4 = (if l1_Number (ch_highestL1InclusionBlock ch3) < l1_Number l1InclusionBlock
                    then ch3\<lparr>ch_highestL1InclusionBlock := l1InclusionBlock\<rparr> else ch3)
         in Inr (ch4\<lparr>ch_inputs := gm_put (frame_key frame) frame (ch_inputs ch4),
                     ch_size := ch_size ch4 + frameSize frame\<rparr>)))"

definition OpenBlockNumber :: "Channel \<Rightarrow> u64" where
  "OpenBlockNumber ch = l1_Number (ch_openBlock ch)"

definition HighestBlock :: "Channel \<Rightarrow> L1BlockRef" where
  "HighestBlock ch = ch_highestL1InclusionBlock ch"

definition IsReady :: "Channel \<Rightarrow> bool" where
  "IsReady ch \<longleftrightarrow>
     ch_closed ch \<and> length (ch_inputs ch) = unat (ch_endFrameNumber ch) + 1 \<and>
     list_all (\<lambda>i. gm_get (ch_inputs ch) (of_nat i) \<noteq> None) [0..<unat (ch_endFrameNumber ch) + 1]"

text \<open>All the data the reader yields; \<open>None\<close> is the panic on a missing frame.\<close>

fun read_frames :: "(u64, Frame) gomap \<Rightarrow> nat list \<Rightarrow> bytes option" where
  "read_frames inputs [] = Some []"
| "read_frames inputs (i # is) =
     (case gm_get inputs (of_nat i) of
        None \<Rightarrow> None
      | Some frame \<Rightarrow> map_option (\<lambda>rest. fr_Data frame @ rest) (read_frames inputs is))"

definition Channel_Reader :: "Channel \<Rightarrow> bytes option" where
  "Channel_Reader ch = read_frames (ch_inputs ch) [0..<unat (ch_endFrameNumber ch) + 1]"

section \<open>The channel bank\<close>

record ChannelBank =
  cb_channels :: "(ChannelID, Channel) gomap"
  cb_channelQueue :: "ChannelID list"

definition NewChannelBank :: ChannelBank where
  "NewChannelBank = \<lparr>cb_channels = [], cb_channelQueue = []\<rparr>"

definition total_size :: "(ChannelID, Channel) gomap \<Rightarrow> u64" where
  "total_size chs = foldl (\<lambda>t (_, ch). t + ch_size ch) 0 chs"

text \<open>\<open>None\<close> is a panic: an empty queue is indexed, or a queued channel is missing from the map.\<close>

fun prune_bank :: "u64 \<Rightarrow> u64 \<Rightarrow> ChannelID list \<Rightarrow> (ChannelID, Channel) gomap \<Rightarrow> ChannelBank option" where
  "prune_bank maxSize totalSize [] chs =
     (if totalSize > maxSize then None else Some \<lparr>cb_channels = chs, cb_channelQueue = []\<rparr>)"
| "prune_bank maxSize totalSize (ident # q) chs =
     (if totalSize > maxSize
      then (case gm_get chs ident of
              None \<Rightarrow> None
            | Some ch \<Rightarrow> prune_bank maxSize (totalSize - ch_size ch) q (gm_del ident chs))
      else Some \<lparr>cb_channels = chs, cb_channelQueue = ident # q\<rparr>)"

definition ChannelBank_prune :: "Config \<Rightarrow> L1BlockRef \<Rightarrow> ChannelBank \<Rightarrow> ChannelBank option" where
  "ChannelBank_prune cfg origin cb =
     prune_bank (MaxChannelBankSize cfg (l1_Time origin)) (total_size (cb_channels cb))
       (cb_channelQueue cb) (cb_channels cb)"

definition timed_out :: "Config \<Rightarrow> L1BlockRef \<Rightarrow> Channel \<Rightarrow> bool" where
  "timed_out cfg origin ch \<longleftrightarrow> OpenBlockNumber ch + ChannelTimeout cfg (l1_Time origin) < l1_Number origin"

definition IngestFrame :: "Config \<Rightarrow> L1BlockRef \<Rightarrow> Frame \<Rightarrow> ChannelBank \<Rightarrow> ChannelBank option" where
  "IngestFrame cfg origin f cb =
     (let (currentCh, cb1) =
        (case gm_get (cb_channels cb) (fr_ID f) of
           Some ch \<Rightarrow> (ch, cb)
         | None \<Rightarrow>
             (let ch = NewChannel (fr_ID f) origin False in
              (ch, cb\<lparr>cb_channels := gm_put (fr_ID f) ch (cb_channels cb),
                      cb_channelQueue := cb_channelQueue cb @ [fr_ID f]\<rparr>)))
      in if timed_out cfg origin currentCh then Some cb1
         else (case AddFrame currentCh f origin of
                 Inl _ \<Rightarrow> Some cb1
               | Inr ch' \<Rightarrow>
                   ChannelBank_prune cfg origin (cb1\<lparr>cb_channels := gm_put (fr_ID f) ch' (cb_channels cb1)\<rparr>)))"

text \<open>\<open>tryReadChannelAtIndex\<close>: the outer \<open>None\<close> is a panic, the inner result is \<open>EOF\<close> or the data.\<close>

definition tryReadChannelAtIndex ::
    "Config \<Rightarrow> L1BlockRef \<Rightarrow> nat \<Rightarrow> ChannelBank \<Rightarrow> ((DeriveErr + bytes) \<times> ChannelBank) option" where
  "tryReadChannelAtIndex cfg origin i cb =
     (if i < length (cb_channelQueue cb)
      then let chanID = cb_channelQueue cb ! i in
           (case gm_get (cb_channels cb) chanID of
              None \<Rightarrow> None
            | Some ch \<Rightarrow>
                if timed_out cfg origin ch \<or> \<not> IsReady ch then Some (Inl EOF, cb)
                else let cb1 = cb\<lparr>cb_channels := gm_del chanID (cb_channels cb),
                                  cb_channelQueue := take i (cb_channelQueue cb) @ drop (i + 1) (cb_channelQueue cb)\<rparr>
                     in (case Channel_Reader ch of None \<Rightarrow> None | Some data \<Rightarrow> Some (Inr data, cb1)))
      else None)"

fun read_first_ready ::
    "Config \<Rightarrow> L1BlockRef \<Rightarrow> nat list \<Rightarrow> ChannelBank \<Rightarrow> ((DeriveErr + bytes) \<times> ChannelBank) option" where
  "read_first_ready cfg origin [] cb = Some (Inl EOF, cb)"
| "read_first_ready cfg origin (i # is) cb =
     (case tryReadChannelAtIndex cfg origin i cb of
        None \<Rightarrow> None
      | Some (Inr data, cb1) \<Rightarrow> Some (Inr data, cb1)
      | Some (Inl _, cb1) \<Rightarrow> read_first_ready cfg origin is cb1)"

text \<open>A timed-out head channel is dropped and gives no data and no error: \<^verbatim>\<open>nil, nil\<close> is empty data here.\<close>

definition ChannelBank_Read :: "Config \<Rightarrow> L1BlockRef \<Rightarrow> ChannelBank \<Rightarrow> ((DeriveErr + bytes) \<times> ChannelBank) option" where
  "ChannelBank_Read cfg origin cb =
     (case cb_channelQueue cb of
        [] \<Rightarrow> Some (Inl EOF, cb)
      | first # rest \<Rightarrow>
          (case gm_get (cb_channels cb) first of
             None \<Rightarrow> None
           | Some ch \<Rightarrow>
               if timed_out cfg origin ch
               then Some (Inr [], cb\<lparr>cb_channels := gm_del first (cb_channels cb), cb_channelQueue := rest\<rparr>)
               else if \<not> IsCanyon cfg (l1_Time origin) then tryReadChannelAtIndex cfg origin 0 cb
               else read_first_ready cfg origin [0..<length (cb_channelQueue cb)] cb))"

text \<open>\<open>nextFrame\<close> is the answer of \<^verbatim>\<open>prev.NextFrame\<close>, which is asked only when there is nothing to read.\<close>

definition ChannelBank_NextRawChannel ::
    "Config \<Rightarrow> L1BlockRef \<Rightarrow> (DeriveErr + Frame) \<Rightarrow> ChannelBank \<Rightarrow> ((DeriveErr + bytes) \<times> ChannelBank) option" where
  "ChannelBank_NextRawChannel cfg origin nextFrame cb =
     (case ChannelBank_Read cfg origin cb of
        None \<Rightarrow> None
      | Some (Inr data, cb1) \<Rightarrow> Some (Inr data, cb1)
      | Some (Inl e, cb1) \<Rightarrow>
          if e \<noteq> EOF then Some (Inl e, cb1)
          else (case nextFrame of
                  Inl e' \<Rightarrow> Some (Inl e', cb1)
                | Inr frame \<Rightarrow>
                    (case IngestFrame cfg origin frame cb1 of
                       None \<Rightarrow> None
                     | Some cb2 \<Rightarrow> Some (Inl NotEnoughData, cb2))))"

definition ChannelBank_Reset :: "ChannelBank \<Rightarrow> DeriveErr \<times> ChannelBank" where
  "ChannelBank_Reset cb = (EOF, cb\<lparr>cb_channels := [], cb_channelQueue := []\<rparr>)"

text \<open>\<^verbatim>\<open>FlushChannel\<close> exists for the interface only and always panics.\<close>

definition ChannelBank_FlushChannel :: "ChannelBank \<Rightarrow> ChannelBank option" where
  "ChannelBank_FlushChannel cb = None"

section \<open>The channel assembler\<close>

record ChannelAssembler =
  ca_channel :: "Channel option"

definition NewChannelAssembler :: ChannelAssembler where
  "NewChannelAssembler = \<lparr>ca_channel = None\<rparr>"

definition resetChannel :: "ChannelAssembler \<Rightarrow> ChannelAssembler" where
  "resetChannel ca = ca\<lparr>ca_channel := None\<rparr>"

definition ChannelAssembler_FlushChannel :: "ChannelAssembler \<Rightarrow> ChannelAssembler" where
  "ChannelAssembler_FlushChannel ca = resetChannel ca"

definition ChannelAssembler_Reset :: "ChannelAssembler \<Rightarrow> DeriveErr \<times> ChannelAssembler" where
  "ChannelAssembler_Reset ca = (EOF, resetChannel ca)"

text \<open>
  The ingestion loop over the frames the previous stage delivers, which ends with an error of that
  stage (\<open>EOF\<close> or \<open>NotEnoughData\<close> included) when no closing frame comes first. The result is the
  error, or the frames that were not asked for.
\<close>

fun ingest_loop :: "Config \<Rightarrow> L1BlockRef \<Rightarrow> DeriveErr \<Rightarrow> Frame list \<Rightarrow> ChannelAssembler \<Rightarrow>
    (DeriveErr + Frame list) \<times> ChannelAssembler" where
  "ingest_loop cfg origin err [] ca = (Inl err, ca)"
| "ingest_loop cfg origin err (frame # frames) ca =
     (let ca1 = (if fr_FrameNumber frame = 0
                 then ca\<lparr>ca_channel := Some (NewChannel (fr_ID frame) origin True)\<rparr> else ca) in
      case ca_channel ca1 of
        None \<Rightarrow> ingest_loop cfg origin err frames ca1
      | Some ch \<Rightarrow>
          (case AddFrame ch frame origin of
             Inl _ \<Rightarrow> ingest_loop cfg origin err frames ca1
           | Inr ch' \<Rightarrow>
               (let ca2 = ca1\<lparr>ca_channel := Some ch'\<rparr> in
                if ch_size ch' > MaxRLPBytesPerChannel cfg (l1_Time origin)
                then ingest_loop cfg origin err frames (resetChannel ca2)
                else if fr_IsLast frame then (Inr frames, ca2)
                else ingest_loop cfg origin err frames ca2)))"

definition ChannelAssembler_NextRawChannel :: "Config \<Rightarrow> L1BlockRef \<Rightarrow> DeriveErr \<Rightarrow> Frame list \<Rightarrow> ChannelAssembler \<Rightarrow>
    ((DeriveErr + bytes) \<times> Frame list \<times> ChannelAssembler) option" where
  "ChannelAssembler_NextRawChannel cfg origin err frames ca =
     (let ca1 = (case ca_channel ca of
                   Some ch \<Rightarrow> if timed_out cfg origin ch then resetChannel ca else ca
                 | None \<Rightarrow> ca) in
      if (case ca_channel ca1 of Some ch \<Rightarrow> IsReady ch | None \<Rightarrow> False)
      then Some (Inl (CriticalErr ''unexpected ready channel''), frames, ca1)
      else (case ingest_loop cfg origin err frames ca1 of
              (Inl e, ca2) \<Rightarrow> Some (Inl e, [], ca2)
            | (Inr rest, ca2) \<Rightarrow>
                (case ca_channel ca2 of
                   None \<Rightarrow> Some (Inl (CriticalErr ''unexpected non-ready channel''), rest, ca2)
                 | Some ch \<Rightarrow>
                     if \<not> IsReady ch then Some (Inl (CriticalErr ''unexpected non-ready channel''), rest, ca2)
                     else (case Channel_Reader ch of
                             None \<Rightarrow> None
                           | Some data \<Rightarrow> Some (Inr data, rest, resetChannel ca2)))))"

end
