(* ===== verification/Derive_Channels_Props.thy ===== *)
theory Derive_Channels_Props
  imports Derive_Channels Rollup_Props "HOL-Library.Sublist" "HOL-Library.Multiset"
begin

text \<open>
  Channels are independent of the order in which their frames arrive, the channel bank keeps its queue
  and its map in step and panics only when it is flushed, and the channel assembler only ever holds the
  first frames of a channel, taken since it last was reset or flushed, so that its internal errors are
  unreachable.
\<close>

section \<open>Library\<close>

lemma unat_frame_key [simp]: "unat (frame_key f) = unat (fr_FrameNumber f)"
proof -
  have "unat (fr_FrameNumber f) < 2 ^ 64" using unsigned_less [of "fr_FrameNumber f", where ?'a = nat] by simp
  then show ?thesis by (simp add: frame_key_def unsigned_ucast_eq take_bit_nat_eq_self)
qed

lemma frame_key_inj: "frame_key f = frame_key g \<longleftrightarrow> fr_FrameNumber f = fr_FrameNumber g"
  by (metis unat_frame_key unsigned_word_eqI frame_key_def)

lemma frame_key_of_nat: "fr_FrameNumber f = of_nat i \<Longrightarrow> i < 2 ^ 16 \<Longrightarrow> frame_key f = of_nat i"
  by (rule unsigned_word_eqI [where ?'a = nat]) (simp add: unat_of_nat)

lemma foldl_minus: "foldl (\<lambda>s (k, f). s - g f) (a :: u64) xs = a - sum_list (map (\<lambda>(k, f). g f) xs)"
  by (induction xs arbitrary: a) (auto simp: algebra_simps)

lemma foldl_plus: "foldl (\<lambda>s (k, f). s + g f) (a :: u64) xs = a + sum_list (map (\<lambda>(k, f). g f) xs)"
  by (induction xs arbitrary: a) (auto simp: algebra_simps)

lemma gm_put_fresh: "gm_get m k = None \<Longrightarrow> gm_put k v m = m @ [(k, v)]"
  by (induction m) (auto simp: gm_get_def gm_put_def split: if_splits)

lemma gm_get_None: "gm_get m k = None \<longleftrightarrow> k \<notin> fst ` set m"
  by (simp add: gm_get_def map_of_eq_None_iff)

section \<open>Frames of one channel in any order\<close>

text \<open>All the frames of a channel: numbered from 0, the last one and only it closing.\<close>

definition complete_channel :: "ChannelID \<Rightarrow> Frame list \<Rightarrow> bool" where
  "complete_channel ident fs \<longleftrightarrow>
     fs \<noteq> [] \<and> length fs \<le> 2 ^ 16 \<and>
     (\<forall>i < length fs. fr_ID (fs ! i) = ident \<and> fr_FrameNumber (fs ! i) = of_nat i \<and>
        fr_IsLast (fs ! i) = (Suc i = length fs))"

fun add_frames :: "Channel \<Rightarrow> (Frame \<times> L1BlockRef) list \<Rightarrow> DeriveErr + Channel" where
  "add_frames ch [] = Inr ch"
| "add_frames ch ((f, b) # fbs) = (case AddFrame ch f b of Inl e \<Rightarrow> Inl e | Inr ch' \<Rightarrow> add_frames ch' fbs)"

lemma complete_key:
  assumes "complete_channel ident fs" "i < length fs"
  shows "frame_key (fs ! i) = of_nat i" "unat (fr_FrameNumber (fs ! i)) = i"
proof -
  have f: "fr_FrameNumber (fs ! i) = of_nat i" "i < 2 ^ 16" using assms by (auto simp: complete_channel_def)
  show "frame_key (fs ! i) = of_nat i" by (rule frame_key_of_nat [OF f])
  show "unat (fr_FrameNumber (fs ! i)) = i" using f by (simp add: unat_of_nat)
qed

text \<open>The channel after the frames in \<open>S\<close> have been added.\<close>

definition partial_channel :: "ChannelID \<Rightarrow> Frame list \<Rightarrow> Frame set \<Rightarrow> Channel \<Rightarrow> bool" where
  "partial_channel ident fs S ch \<longleftrightarrow>
     ch_id ch = ident \<and> \<not> ch_requireInOrder ch \<and> S \<subseteq> set fs \<and> length (ch_inputs ch) = card S \<and>
     (\<forall>i < length fs. gm_get (ch_inputs ch) (of_nat i) = (if fs ! i \<in> S then Some (fs ! i) else None)) \<and>
     (ch_closed ch \<longleftrightarrow> last fs \<in> S) \<and> (ch_closed ch \<longrightarrow> ch_endFrameNumber ch = of_nat (length fs - 1)) \<and>
     unat (ch_highestFrameNumber ch) \<le> length fs - 1 \<and>
     ch_size ch = sum_list (map (\<lambda>(k, f). frameSize f) (ch_inputs ch))"

lemma complete_inj:
  assumes "complete_channel ident fs" "i < length fs" "j < length fs" "fs ! i = fs ! j" shows "i = j"
proof -
  have "i = unat (fr_FrameNumber (fs ! i))" by (rule complete_key(2) [OF assms(1,2), symmetric])
  also have "\<dots> = unat (fr_FrameNumber (fs ! j))" by (simp only: assms(4))
  also have "\<dots> = j" by (rule complete_key(2) [OF assms(1,3)])
  finally show ?thesis .
qed

lemma of_nat_u64_inj:
  assumes "i < 2 ^ 64" "j < 2 ^ 64"
  shows "(of_nat i :: u64) = of_nat j \<longleftrightarrow> i = j"
proof
  assume e: "(of_nat i :: u64) = of_nat j"
  have "unat (of_nat i :: u64) = unat (of_nat j :: u64)" by (simp only: e)
  then show "i = j" by (simp only: unat_of_nat_u64 [OF assms(1)] unat_of_nat_u64 [OF assms(2)])
qed simp

lemma partial_step:
  assumes c: "complete_channel ident fs" and p: "partial_channel ident fs S ch" and f: "f \<in> set fs" "f \<notin> S"
  obtains ch' where "AddFrame ch f b = Inr ch'" "partial_channel ident fs (insert f S) ch'"
proof -
  obtain i where i: "i < length fs" "fs ! i = f" using f(1) by (auto simp: in_set_conv_nth)
  let ?n = "length fs"
  have n: "?n \<le> 2 ^ 16" "fs \<noteq> []" using c by (auto simp: complete_channel_def)
  have key: "frame_key f = of_nat i" "unat (fr_FrameNumber f) = i" using complete_key [OF c i(1)] i(2) by simp_all
  have fr: "fr_ID f = ident" "fr_IsLast f = (Suc i = ?n)" "fr_FrameNumber f = of_nat i"
    using c i by (auto simp: complete_channel_def)
  have lst: "last fs = fs ! (?n - 1)" using n(2) by (simp add: last_conv_nth)
  have last_iff: "f = last fs \<longleftrightarrow> Suc i = ?n"
  proof
    assume "f = last fs"
    then have "i = ?n - 1" using complete_inj [OF c i(1), of "?n - 1"] i lst n(2) by simp
    then show "Suc i = ?n" using i(1) by simp
  next
    assume "Suc i = ?n"
    then have "i = ?n - 1" by simp
    then show "f = last fs" using lst i(2) by simp
  qed
  have P: "ch_id ch = ident" "\<not> ch_requireInOrder ch" "S \<subseteq> set fs" "length (ch_inputs ch) = card S"
    "\<And>j. j < ?n \<Longrightarrow> gm_get (ch_inputs ch) (of_nat j) = (if fs ! j \<in> S then Some (fs ! j) else None)"
    "ch_closed ch \<longleftrightarrow> last fs \<in> S" "ch_closed ch \<Longrightarrow> ch_endFrameNumber ch = of_nat (?n - 1)"
    "unat (ch_highestFrameNumber ch) \<le> ?n - 1" "ch_size ch = sum_list (map (\<lambda>(k, f). frameSize f) (ch_inputs ch))"
    using p by (auto simp: partial_channel_def)
  have none: "gm_get (ch_inputs ch) (frame_key f) = None" using P(5) [OF i(1)] f(2) i(2) key(1) by simp
  have closing: "\<not> (fr_IsLast f \<and> ch_closed ch)" using P(6) f(2) last_iff fr(2) by auto
  have un: "unat (of_nat (?n - 1) :: u16) = ?n - 1" using n by (simp add: unat_of_nat)
  have ltend: "\<not> (ch_closed ch \<and> fr_FrameNumber f \<ge> ch_endFrameNumber ch)"
  proof
    assume a: "ch_closed ch \<and> fr_FrameNumber f \<ge> ch_endFrameNumber ch"
    then have "?n - 1 \<le> i" using P(7) key(2) un by (simp add: word_le_nat_alt)
    then have "Suc i = ?n" using i(1) by simp
    then show False using a closing fr(2) by simp
  qed
  have noprune: "\<not> (fr_IsLast f \<and> fr_FrameNumber f < ch_highestFrameNumber ch)"
    using P(8) key(2) fr(2) by (auto simp: word_less_nat_alt)
  define ch' where "ch' = (let ch1 = (if fr_IsLast f then ch\<lparr>ch_endFrameNumber := fr_FrameNumber f, ch_closed := True\<rparr> else ch);
      ch3 = (if fr_FrameNumber f > ch_highestFrameNumber ch1 then ch1\<lparr>ch_highestFrameNumber := fr_FrameNumber f\<rparr> else ch1);
      ch4 = (if l1_Number (ch_highestL1InclusionBlock ch3) < l1_Number b then ch3\<lparr>ch_highestL1InclusionBlock := b\<rparr> else ch3)
    in ch4\<lparr>ch_inputs := gm_put (frame_key f) f (ch_inputs ch4), ch_size := ch_size ch4 + frameSize f\<rparr>)"
  have add: "AddFrame ch f b = Inr ch'"
  proof -
    have "AddFrame ch f b = (let ch1 = (if fr_IsLast f then ch\<lparr>ch_endFrameNumber := fr_FrameNumber f, ch_closed := True\<rparr> else ch);
        ch2 = (if fr_IsLast f \<and> ch_endFrameNumber ch1 < ch_highestFrameNumber ch1 then prune_inputs ch1 else ch1);
        ch3 = (if fr_FrameNumber f > ch_highestFrameNumber ch2 then ch2\<lparr>ch_highestFrameNumber := fr_FrameNumber f\<rparr> else ch2);
        ch4 = (if l1_Number (ch_highestL1InclusionBlock ch3) < l1_Number b then ch3\<lparr>ch_highestL1InclusionBlock := b\<rparr> else ch3)
      in Inr (ch4\<lparr>ch_inputs := gm_put (frame_key f) f (ch_inputs ch4), ch_size := ch_size ch4 + frameSize f\<rparr>))"
      unfolding AddFrame_def using P(1,2) fr(1) closing none ltend by (simp only: if_False simp_thms)
    then show ?thesis using noprune by (cases "fr_IsLast f") (simp_all add: ch'_def Let_def)
  qed
  have inputs: "ch_inputs ch' = ch_inputs ch @ [(frame_key f, f)]"
    using gm_put_fresh [OF none] by (simp add: ch'_def Let_def)
  have get: "gm_get (ch_inputs ch') (of_nat j) = (if fs ! j \<in> insert f S then Some (fs ! j) else None)" if j: "j < ?n" for j
  proof -
    have "(of_nat j :: u64) = of_nat i \<longleftrightarrow> j = i" using j i(1) n(1) by (intro of_nat_u64_inj) simp_all
    moreover have "fs ! j = f \<longleftrightarrow> j = i" using complete_inj [OF c j i(1)] i(2) by auto
    moreover have "gm_get (ch_inputs ch') (of_nat j) = (if of_nat j = frame_key f then Some f else gm_get (ch_inputs ch) (of_nat j))"
      by (simp add: ch'_def Let_def gomap_simps)
    ultimately show ?thesis using P(5) [OF j] key(1) by auto
  qed
  have "finite S" using P(3) by (rule finite_subset) simp
  then have card: "length (ch_inputs ch') = card (insert f S)" using inputs P(4) f(2) by simp
  have flds: "ch_id ch' = ident" "\<not> ch_requireInOrder ch'" "ch_closed ch' \<longleftrightarrow> ch_closed ch \<or> fr_IsLast f"
    "ch_endFrameNumber ch' = (if fr_IsLast f then fr_FrameNumber f else ch_endFrameNumber ch)"
    "ch_highestFrameNumber ch' = max (ch_highestFrameNumber ch) (fr_FrameNumber f)"
    "ch_size ch' = ch_size ch + frameSize f"
    using P(1,2) by (auto simp: ch'_def Let_def max_def)
  have high: "unat (ch_highestFrameNumber ch') \<le> ?n - 1"
    using P(8) key(2) i(1) unfolding flds(5) by (cases "ch_highestFrameNumber ch \<le> fr_FrameNumber f") (simp_all add: max_def)
  have closed: "ch_closed ch' \<longleftrightarrow> last fs \<in> insert f S" using flds(3) P(6) fr(2) last_iff by auto
  have end': "ch_closed ch' \<longrightarrow> ch_endFrameNumber ch' = of_nat (?n - 1)"
  proof (cases "fr_IsLast f")
    case True
    then have "?n - 1 = i" using fr(2) by simp
    then show ?thesis using True flds(4) fr(3) by simp
  next
    case False then show ?thesis using flds(3,4) P(7) by simp
  qed
  have size: "ch_size ch' = sum_list (map (\<lambda>(k, f). frameSize f) (ch_inputs ch'))" using inputs flds(6) P(9) by simp
  have "insert f S \<subseteq> set fs" using P(3) f(1) by simp
  then have "partial_channel ident fs (insert f S) ch'"
    unfolding partial_channel_def using get card flds(1,2) high closed end' size by blast
  then show thesis using that add by blast
qed

lemma partial_run:
  assumes c: "complete_channel ident fs"
  shows "partial_channel ident fs S ch \<Longrightarrow> distinct (map fst fbs) \<Longrightarrow> set (map fst fbs) \<subseteq> set fs \<Longrightarrow> set (map fst fbs) \<inter> S = {} \<Longrightarrow>
    \<exists>ch'. add_frames ch fbs = Inr ch' \<and> partial_channel ident fs (S \<union> set (map fst fbs)) ch'"
proof (induction fbs arbitrary: S ch)
  case (Cons fb fbs)
  obtain f b where fb: "fb = (f, b)" by (rule prod.exhaust)
  have f: "f \<in> set fs" "f \<notin> S" using Cons.prems(3,4) fb by auto
  obtain ch1 where a: "AddFrame ch f b = Inr ch1" and p1: "partial_channel ident fs (insert f S) ch1"
    by (rule partial_step [OF c Cons.prems(1) f])
  have "\<exists>ch'. add_frames ch1 fbs = Inr ch' \<and> partial_channel ident fs (insert f S \<union> set (map fst fbs)) ch'"
    by (rule Cons.IH [OF p1]) (use Cons.prems fb in auto)
  then show ?case using a fb by simp
qed simp

lemma read_frames_all:
  "\<forall>i \<in> set is. gm_get inputs (of_nat i) = Some (fs ! i) \<Longrightarrow>
   read_frames inputs is = Some (concat (map (\<lambda>i. fr_Data (fs ! i)) is))"
  by (induction "is") auto

lemma partial_full:
  assumes c: "complete_channel ident fs" and p: "partial_channel ident fs (set fs) ch"
  shows "IsReady ch" "Channel_Reader ch = Some (concat (map fr_Data fs))"
proof -
  have n: "fs \<noteq> []" "length fs \<le> 2 ^ 16" using c by (auto simp: complete_channel_def)
  have d: "distinct fs" using complete_inj [OF c] by (auto simp: distinct_conv_nth)
  have closed: "ch_closed ch" and e: "ch_endFrameNumber ch = of_nat (length fs - 1)"
    and len: "length (ch_inputs ch) = length fs"
    and get: "\<forall>i < length fs. gm_get (ch_inputs ch) (of_nat i) = Some (fs ! i)"
    using p n(1) distinct_card [OF d] by (auto simp: partial_channel_def)
  have "0 < length fs" using n(1) by simp
  then have u: "unat (ch_endFrameNumber ch) + 1 = length fs" using e n(2) by (simp add: unat_of_nat)
  show "IsReady ch" using closed len get u by (simp add: IsReady_def list_all_iff)
  have "Channel_Reader ch = Some (concat (map (\<lambda>i. fr_Data (fs ! i)) [0..<length fs]))"
    unfolding Channel_Reader_def u by (rule read_frames_all) (use get in simp)
  also have "map (\<lambda>i. fr_Data (fs ! i)) [0..<length fs] = map fr_Data fs" by (rule nth_equalityI) simp_all
  finally show "Channel_Reader ch = Some (concat (map fr_Data fs))" .
qed

lemma partial_start: "complete_channel ident fs \<Longrightarrow> partial_channel ident fs {} (NewChannel ident b False)"
  by (simp add: partial_channel_def NewChannel_def complete_channel_def)

section \<open>The channel bank\<close>

lemma total_size_eq: "total_size chs = sum_list (map (\<lambda>(k, ch). ch_size ch) chs)"
  by (simp add: total_size_def foldl_plus)

lemma total_size_Nil [simp]: "total_size [] = 0"
  by (simp add: total_size_eq)

lemma total_size_del:
  assumes "gm_wf chs" "gm_get chs k = Some ch"
  shows "total_size (gm_del k chs) = total_size chs - ch_size ch"
proof -
  have "ch_size ch + total_size (gm_del k chs) = total_size chs"
    using assms
  proof (induction chs)
    case (Cons kc chs)
    then show ?case
    proof (cases "fst kc = k")
      case True
      then have "k \<notin> fst ` set chs" using Cons.prems(1) by (auto simp: gm_wf_def)
      then have "AList.delete k chs = chs" by (simp add: delete_id)
      then show ?thesis using True Cons.prems(2) by (auto simp: gm_del_def gm_get_def total_size_eq split: prod.splits)
    next
      case False
      then show ?thesis using Cons by (auto simp: gm_wf_def gm_del_def gm_get_def total_size_eq ac_simps split: prod.splits)
    qed
  qed (simp add: gm_get_def)
  then show ?thesis by (simp add: algebra_simps flip: add_diff_eq)
qed

lemma gm_keys_put: "fst ` set (gm_put k v m) = insert k (fst ` set m)"
  by (simp add: gm_put_def update_keys dom_update flip: dom_map_of_conv_image_fst) (auto simp: update_conv' dom_map_of_conv_image_fst)

lemma gm_keys_del: "fst ` set (gm_del k m) = fst ` set m - {k}"
  by (simp add: gm_del_def AList.delete_eq image_def) force

text \<open>The queue lists each buffered channel once.\<close>

definition bank_inv :: "ChannelBank \<Rightarrow> bool" where
  "bank_inv cb \<longleftrightarrow>
     gm_wf (cb_channels cb) \<and> distinct (cb_channelQueue cb) \<and>
     set (cb_channelQueue cb) = fst ` set (cb_channels cb)"

lemma bank_inv_get:
  assumes "bank_inv cb" "k \<in> set (cb_channelQueue cb)"
  obtains ch where "gm_get (cb_channels cb) k = Some ch"
  using assms gm_get_None [of "cb_channels cb" k] by (cases "gm_get (cb_channels cb) k") (auto simp: bank_inv_def)

lemma prune_bank_ok:
  assumes "gm_wf chs" "distinct q" "set q = fst ` set chs" "t = total_size chs"
  shows "\<exists>cb. prune_bank mx t q chs = Some cb \<and> bank_inv cb \<and> total_size (cb_channels cb) \<le> mx"
  using assms
proof (induction mx t q chs rule: prune_bank.induct)
  case (1 mx t chs)
  then show ?case by (simp add: bank_inv_def)
next
  case (2 mx t ident q chs)
  show ?case
  proof (cases "t > mx")
    case False then show ?thesis using 2 by (simp add: bank_inv_def)
  next
    case True
    obtain ch where ch: "gm_get chs ident = Some ch" using 2(4) gm_get_None [of chs ident] by (cases "gm_get chs ident") auto
    have "set q = fst ` set (gm_del ident chs)" using 2(3,4) by (auto simp: gm_keys_del)
    then have "\<exists>cb. prune_bank mx (t - ch_size ch) q (gm_del ident chs) = Some cb \<and> bank_inv cb \<and> total_size (cb_channels cb) \<le> mx"
      using 2(1) [OF True ch] 2(2,3,5) total_size_del [OF 2(2) ch] by simp
    then show ?thesis using True ch by simp
  qed
qed

lemma IngestFrame_ok:
  assumes "bank_inv cb"
  shows "\<exists>cb'. IngestFrame cfg origin f cb = Some cb' \<and> bank_inv cb'"
proof -
  obtain currentCh cb1 where c: "(case gm_get (cb_channels cb) (fr_ID f) of
           Some ch \<Rightarrow> (ch, cb)
         | None \<Rightarrow>
             (let ch = NewChannel (fr_ID f) origin False in
              (ch, cb\<lparr>cb_channels := gm_put (fr_ID f) ch (cb_channels cb),
                      cb_channelQueue := cb_channelQueue cb @ [fr_ID f]\<rparr>))) = (currentCh, cb1)"
    by (rule prod.exhaust)
  have inv1: "bank_inv cb1 \<and> fr_ID f \<in> set (cb_channelQueue cb1)"
  proof (cases "gm_get (cb_channels cb) (fr_ID f)")
    case None
    then have "fr_ID f \<notin> set (cb_channelQueue cb)"
      using assms gm_get_None [of "cb_channels cb" "fr_ID f"] by (simp add: bank_inv_def)
    moreover have "cb1 = cb\<lparr>cb_channels := gm_put (fr_ID f) currentCh (cb_channels cb),
        cb_channelQueue := cb_channelQueue cb @ [fr_ID f]\<rparr>" using None c by (auto simp: Let_def)
    ultimately show ?thesis using assms by (simp add: bank_inv_def gm_keys_put)
  next
    case (Some ch)
    then have "fr_ID f \<in> set (cb_channelQueue cb)"
      using assms gm_get_None [of "cb_channels cb" "fr_ID f"] by (auto simp: bank_inv_def)
    then show ?thesis using Some c assms by auto
  qed
  let ?cb2 = "\<lambda>ch'. cb1\<lparr>cb_channels := gm_put (fr_ID f) ch' (cb_channels cb1)\<rparr>"
  have "\<exists>cb'. ChannelBank_prune cfg origin (?cb2 ch') = Some cb' \<and> bank_inv cb'" for ch'
    using prune_bank_ok [of "cb_channels (?cb2 ch')" "cb_channelQueue (?cb2 ch')" _ "MaxChannelBankSize cfg (l1_Time origin)"] inv1
    by (auto simp: ChannelBank_prune_def bank_inv_def gm_keys_put insert_absorb)
  then show ?thesis unfolding IngestFrame_def c using inv1 by (auto split: sum.split)
qed

lemma IsReady_Reader: "IsReady ch \<Longrightarrow> Channel_Reader ch \<noteq> None"
proof -
  have "\<forall>i \<in> set is. gm_get m (of_nat i) \<noteq> None \<Longrightarrow> read_frames m is \<noteq> None" for m "is" by (induction "is") auto
  then show "IsReady ch \<Longrightarrow> Channel_Reader ch \<noteq> None" by (auto simp: IsReady_def Channel_Reader_def list_all_iff)
qed

lemma set_remove_nth: "distinct xs \<Longrightarrow> i < length xs \<Longrightarrow> set (take i xs @ drop (i + 1) xs) = set xs - {xs ! i}"
proof -
  assume d: "distinct xs" "i < length xs"
  have e: "xs = take i xs @ xs ! i # drop (Suc i) xs" using d(2) by (rule id_take_nth_drop)
  have "distinct (take i xs @ xs ! i # drop (Suc i) xs)" using d(1) e by simp
  then have "set (take i xs @ drop (i + 1) xs) = set (take i xs @ xs ! i # drop (Suc i) xs) - {xs ! i}" by auto
  then show ?thesis using e by simp
qed

lemma distinct_remove_nth: "distinct xs \<Longrightarrow> distinct (take i xs @ drop (i + 1) xs)"
  using set_take_disj_set_drop_if_distinct [of xs i "i + 1"] by simp

lemma tryRead_ok:
  assumes inv: "bank_inv cb" and i: "i < length (cb_channelQueue cb)"
  shows "\<exists>r cb'. tryReadChannelAtIndex cfg origin i cb = Some (r, cb') \<and> bank_inv cb' \<and>
    ((r = Inl EOF \<and> cb' = cb) \<or> (\<exists>ch data. gm_get (cb_channels cb) (cb_channelQueue cb ! i) = Some ch \<and> IsReady ch \<and>
       \<not> timed_out cfg origin ch \<and> Channel_Reader ch = Some data \<and> r = Inr data))"
proof -
  let ?k = "cb_channelQueue cb ! i"
  obtain ch where ch: "gm_get (cb_channels cb) ?k = Some ch" by (rule bank_inv_get [OF inv nth_mem [OF i]])
  show ?thesis
  proof (cases "timed_out cfg origin ch \<or> \<not> IsReady ch")
    case True then show ?thesis using i ch inv by (simp add: tryReadChannelAtIndex_def Let_def)
  next
    case False
    then obtain data where d: "Channel_Reader ch = Some data" using IsReady_Reader by blast
    let ?cb = "cb\<lparr>cb_channels := gm_del ?k (cb_channels cb), cb_channelQueue := take i (cb_channelQueue cb) @ drop (i + 1) (cb_channelQueue cb)\<rparr>"
    have "bank_inv ?cb" using inv i set_remove_nth [of "cb_channelQueue cb" i] distinct_remove_nth [of "cb_channelQueue cb" i]
      by (simp add: bank_inv_def gm_keys_del)
    moreover have "tryReadChannelAtIndex cfg origin i cb = Some (Inr data, ?cb)"
      using i ch False d by (simp add: tryReadChannelAtIndex_def Let_def)
    ultimately show ?thesis using ch False d by blast
  qed
qed

lemma read_first_ready_ok:
  assumes "bank_inv cb" "\<forall>i \<in> set is. i < length (cb_channelQueue cb)"
  shows "\<exists>r cb'. read_first_ready cfg origin is cb = Some (r, cb') \<and> bank_inv cb'"
  using assms
proof (induction "is")
  case (Cons i "is")
  from tryRead_ok [OF Cons.prems(1), of i cfg origin] Cons.prems(2)
  obtain r cb' where t: "tryReadChannelAtIndex cfg origin i cb = Some (r, cb')" "bank_inv cb'"
    and c: "r = Inl EOF \<and> cb' = cb \<or> (\<exists>data. r = Inr data)" by auto
  show ?case using t c Cons by (auto split: sum.splits)
qed simp

lemma ChannelBank_Read_ok:
  assumes inv: "bank_inv cb"
  shows "\<exists>r cb'. ChannelBank_Read cfg origin cb = Some (r, cb') \<and> bank_inv cb'"
proof (cases "cb_channelQueue cb")
  case Nil then show ?thesis using inv by (simp add: ChannelBank_Read_def)
next
  case (Cons first rest)
  obtain ch where ch: "gm_get (cb_channels cb) first = Some ch" by (rule bank_inv_get [OF inv, of first]) (simp add: Cons)
  have drop: "bank_inv (cb\<lparr>cb_channels := gm_del first (cb_channels cb), cb_channelQueue := rest\<rparr>)"
    using inv Cons by (auto simp: bank_inv_def gm_keys_del)
  show ?thesis
    using tryRead_ok [OF inv, of 0 cfg origin] read_first_ready_ok [OF inv, of "[0..<length (cb_channelQueue cb)]" cfg origin] ch drop Cons
    by (auto simp: ChannelBank_Read_def)
qed

lemma NextRawChannel_ok:
  assumes "bank_inv cb"
  shows "\<exists>r cb'. ChannelBank_NextRawChannel cfg origin nextFrame cb = Some (r, cb') \<and> bank_inv cb'"
proof -
  obtain r cb1 where r: "ChannelBank_Read cfg origin cb = Some (r, cb1)" "bank_inv cb1"
    using ChannelBank_Read_ok [OF assms] by blast
  show ?thesis
  proof (cases r)
    case (Inr data) then show ?thesis using r by (simp add: ChannelBank_NextRawChannel_def)
  next
    case (Inl e)
    show ?thesis
    proof (cases nextFrame)
      case (Inl e') then show ?thesis using r \<open>r = Inl e\<close> by (simp add: ChannelBank_NextRawChannel_def)
    next
      case (Inr f)
      obtain cb2 where "IngestFrame cfg origin f cb1 = Some cb2" "bank_inv cb2" using IngestFrame_ok [OF r(2)] by blast
      then show ?thesis using r Inr \<open>r = Inl e\<close> by (simp add: ChannelBank_NextRawChannel_def)
    qed
  qed
qed

text \<open>The bank as a machine over the answers of the frame queue and the calls of the pipeline.\<close>

datatype BankInput = BankNext L1BlockRef "DeriveErr + Frame" | BankReset | BankFlush

definition bank_step :: "Config \<Rightarrow> ChannelBank option \<Rightarrow> BankInput \<Rightarrow> ChannelBank option" where
  "bank_step cfg s i =
     (case s of
        None \<Rightarrow> None
      | Some cb \<Rightarrow>
          (case i of
             BankNext origin nextFrame \<Rightarrow> map_option snd (ChannelBank_NextRawChannel cfg origin nextFrame cb)
           | BankReset \<Rightarrow> Some (snd (ChannelBank_Reset cb))
           | BankFlush \<Rightarrow> ChannelBank_FlushChannel cb))"

interpretation bank: guarded_machine "bank_step cfg" "\<lambda>s. \<exists>cb. s = Some cb \<and> bank_inv cb" "\<lambda>i. i \<noteq> BankFlush" for cfg
proof
  fix s i assume flush: "i \<noteq> BankFlush" and "\<exists>cb. s = Some cb \<and> bank_inv cb"
  then obtain cb where cb: "s = Some cb" "bank_inv cb" by blast
  show "\<exists>cb. bank_step cfg s i = Some cb \<and> bank_inv cb"
  proof (cases i)
    case (BankNext origin nextFrame)
    then show ?thesis using NextRawChannel_ok [OF cb(2), of cfg origin nextFrame] cb(1) by (auto simp: bank_step_def)
  next
    case BankReset then show ?thesis using cb(1) by (simp add: bank_step_def ChannelBank_Reset_def bank_inv_def)
  qed (use flush in simp)
qed

lemma bank_run:
  assumes "BankFlush \<notin> set ins"
  obtains cb where "foldl (bank_step cfg) (Some NewChannelBank) ins = Some cb" "bank_inv cb"
proof -
  have "\<exists>cb. Some NewChannelBank = Some cb \<and> bank_inv cb" by (simp add: NewChannelBank_def bank_inv_def)
  moreover have "\<forall>i \<in> set ins. i \<noteq> BankFlush" using assms by blast
  ultimately show thesis using that bank.inv_run_ok by blast
qed

lemma bank_panicked: "foldl (bank_step cfg) None ins = None"
  by (induction ins) (simp_all add: bank_step_def)

lemma bank_run_panics: "foldl (bank_step cfg) (Some NewChannelBank) ins = None \<longleftrightarrow> BankFlush \<in> set ins"
proof
  assume "BankFlush \<in> set ins"
  then obtain xs ys where ins: "ins = xs @ BankFlush # ys" "BankFlush \<notin> set xs" by (rule split_list_first [THEN exE]) blast
  obtain cb where "foldl (bank_step cfg) (Some NewChannelBank) xs = Some cb" by (rule bank_run [OF ins(2)])
  then show "foldl (bank_step cfg) (Some NewChannelBank) ins = None"
    by (simp add: ins(1) bank_step_def [of cfg "Some cb"] ChannelBank_FlushChannel_def bank_panicked)
next
  assume "foldl (bank_step cfg) (Some NewChannelBank) ins = None"
  then show "BankFlush \<in> set ins" by (rule contrapos_pp) (auto elim: bank_run [where cfg = cfg])
qed

section \<open>The channel assembler\<close>

text \<open>
  A channel under assembly holds its first frames, in order. \<open>asm_channel fs ch\<close>: the frames \<open>fs\<close> have
  been added.
\<close>

definition asm_channel :: "Frame list \<Rightarrow> Channel \<Rightarrow> bool" where
  "asm_channel fs ch \<longleftrightarrow>
     ch_requireInOrder ch \<and> length fs \<le> 2 ^ 16 \<and>
     ch_inputs ch = map (\<lambda>i. (of_nat i, fs ! i)) [0..<length fs] \<and>
     (\<forall>i < length fs. fr_ID (fs ! i) = ch_id ch \<and> fr_FrameNumber (fs ! i) = of_nat i \<and>
        fr_IsLast (fs ! i) = (ch_closed ch \<and> Suc i = length fs)) \<and>
     (ch_closed ch \<longrightarrow> fs \<noteq> [] \<and> ch_endFrameNumber ch = of_nat (length fs - 1)) \<and>
     unat (ch_highestFrameNumber ch) \<le> length fs - 1 \<and>
     unat (ch_size ch) = sum_list (map (\<lambda>f. unat (frameSize f)) fs) mod 2 ^ 64"

lemma asm_new: "asm_channel [] (NewChannel ident b True)"
  by (simp add: asm_channel_def NewChannel_def)

lemma asm_get:
  assumes "asm_channel fs ch" "i < 2 ^ 64"
  shows "gm_get (ch_inputs ch) (of_nat i) = (if i < length fs then Some (fs ! i) else None)"
proof -
  have l: "length fs \<le> 2 ^ 16" and e: "ch_inputs ch = map (\<lambda>i. (of_nat i, fs ! i)) [0..<length fs]"
    using assms(1) by (auto simp: asm_channel_def)
  have inj: "(of_nat i :: u64) = of_nat j \<longleftrightarrow> i = j" if "j < length fs" for j
    using that l assms(2) by (intro of_nat_u64_inj) simp_all
  have "map_of (map (\<lambda>j. (of_nat j :: u64, fs ! j)) js) (of_nat i) = (if i \<in> set js then Some (fs ! i) else None)"
    if "set js \<subseteq> {..<length fs}" for js using that by (induction js) (auto simp: inj)
  from this [of "[0..<length fs]"] show ?thesis unfolding gm_get_def e by (auto simp: lessThan_atLeast0)
qed

lemma asm_complete:
  assumes "asm_channel fs ch" "ch_closed ch"
  shows "complete_channel (ch_id ch) fs" "IsReady ch" "Channel_Reader ch = Some (concat (map fr_Data fs))"
proof -
  have l: "length fs \<le> 2 ^ 16" "fs \<noteq> []" "ch_endFrameNumber ch = of_nat (length fs - 1)" "length (ch_inputs ch) = length fs"
    using assms by (auto simp: asm_channel_def)
  have "0 < length fs" using l(2) by simp
  then have u: "unat (ch_endFrameNumber ch) + 1 = length fs" using l(1,3) by (simp add: unat_of_nat)
  have get: "gm_get (ch_inputs ch) (of_nat i) = Some (fs ! i)" if "i < length fs" for i
    using asm_get [OF assms(1), of i] that l(1) by simp
  show "complete_channel (ch_id ch) fs" using assms by (auto simp: asm_channel_def complete_channel_def)
  show "IsReady ch" using assms(2) l(4) u get by (simp add: IsReady_def list_all_iff)
  have "Channel_Reader ch = Some (concat (map (\<lambda>i. fr_Data (fs ! i)) [0..<length fs]))"
    unfolding Channel_Reader_def u by (rule read_frames_all) (use get in simp)
  also have "map (\<lambda>i. fr_Data (fs ! i)) [0..<length fs] = map fr_Data fs" by (rule nth_equalityI) simp_all
  finally show "Channel_Reader ch = Some (concat (map fr_Data fs))" .
qed

lemma asm_add_iff:
  assumes a: "asm_channel fs ch" "\<not> ch_closed ch"
  shows "(\<exists>ch'. AddFrame ch f b = Inr ch') \<longleftrightarrow> fr_ID f = ch_id ch \<and> unat (fr_FrameNumber f) = length fs"
proof -
  have k: "frame_key f = of_nat (unat (fr_FrameNumber f))" by (simp add: frame_key_def)
  have b: "unat (fr_FrameNumber f) < 2 ^ 64" using unsigned_less [of "fr_FrameNumber f", where ?'a = nat] by simp
  have g: "gm_get (ch_inputs ch) (frame_key f) = (if unat (fr_FrameNumber f) < length fs then Some (fs ! unat (fr_FrameNumber f)) else None)"
    unfolding k by (rule asm_get [OF a(1) b])
  have "ch_requireInOrder ch" "length (ch_inputs ch) = length fs" using a(1) by (auto simp: asm_channel_def)
  then show ?thesis using a(2) g by (auto simp: AddFrame_def Let_def)
qed

lemma asm_add:
  assumes a: "asm_channel fs ch" "\<not> ch_closed ch" and add: "AddFrame ch f b = Inr ch'"
  shows "asm_channel (fs @ [f]) ch' \<and> ch_closed ch' = fr_IsLast f \<and> ch_size ch' = ch_size ch + frameSize f \<and>
    ch_id ch' = ch_id ch"
proof -
  have f: "fr_ID f = ch_id ch" "unat (fr_FrameNumber f) = length fs" using asm_add_iff [OF a, of f b] add by auto
  have n: "length fs < 2 ^ 16" using f(2) unsigned_less [of "fr_FrameNumber f", where ?'a = nat] by simp
  have fn: "fr_FrameNumber f = of_nat (length fs)" by (simp flip: f(2))
  have A: "ch_requireInOrder ch" "ch_inputs ch = map (\<lambda>i. (of_nat i, fs ! i)) [0..<length fs]"
    "\<And>i. i < length fs \<Longrightarrow> fr_ID (fs ! i) = ch_id ch \<and> fr_FrameNumber (fs ! i) = of_nat i \<and> \<not> fr_IsLast (fs ! i)"
    "unat (ch_highestFrameNumber ch) \<le> length fs - 1" "unat (ch_size ch) = sum_list (map (\<lambda>f. unat (frameSize f)) fs) mod 2 ^ 64"
    using a by (auto simp: asm_channel_def)
  have key: "frame_key f = of_nat (length fs)" by (rule frame_key_of_nat [OF fn n])
  have none: "gm_get (ch_inputs ch) (frame_key f) = None" unfolding key using asm_get [OF a(1), of "length fs"] n by simp
  have noprune: "\<not> fr_FrameNumber f < ch_highestFrameNumber ch" using A(4) f(2) by (simp add: word_less_nat_alt)
  have sz: "unat (ch_size ch + frameSize f) = sum_list (map (\<lambda>f. unat (frameSize f)) (fs @ [f])) mod 2 ^ 64"
    using A(5) by (simp add: unat_word_ariths mod_simps)
  have ch': "ch' = ch\<lparr>ch_inputs := gm_put (frame_key f) f (ch_inputs ch), ch_size := ch_size ch + frameSize f, ch_closed := fr_IsLast f,
      ch_endFrameNumber := (if fr_IsLast f then fr_FrameNumber f else ch_endFrameNumber ch),
      ch_highestFrameNumber := max (fr_FrameNumber f) (ch_highestFrameNumber ch),
      ch_highestL1InclusionBlock := (if l1_Number (ch_highestL1InclusionBlock ch) < l1_Number b then b else ch_highestL1InclusionBlock ch)\<rparr>"
    using add noprune a(2) by (auto simp: AddFrame_def Let_def max_def split: if_splits)
  have inputs: "ch_inputs ch' = map (\<lambda>i. (of_nat i, (fs @ [f]) ! i)) [0..<length (fs @ [f])]"
    using gm_put_fresh [OF none] A(2) key unfolding ch' by (simp add: nth_append)
  have "unat (max (fr_FrameNumber f) (ch_highestFrameNumber ch)) \<le> length fs" using f(2) A(4) by (auto simp: max_def)
  then have "asm_channel (fs @ [f]) ch'"
    unfolding asm_channel_def inputs using A(1,3) n fn f(1) sz unfolding ch' by (auto simp: nth_append less_Suc_eq)
  then show ?thesis unfolding ch' by simp
qed

definition asm_inv :: "Frame list \<Rightarrow> ChannelAssembler \<Rightarrow> bool" where
  "asm_inv fs ca \<longleftrightarrow>
     (case ca_channel ca of None \<Rightarrow> fs = [] | Some ch \<Rightarrow> asm_channel fs ch \<and> \<not> ch_closed ch)"


lemma ingest_step:
  assumes inv: "asm_inv fs ca"
  shows "\<exists>gs ca2. subseq gs (fs @ [f]) \<and>
    ((asm_inv gs ca2 \<and> ingest_loop cfg origin err (f # frames) ca = ingest_loop cfg origin err frames ca2) \<or>
     (ingest_loop cfg origin err (f # frames) ca = (Inr frames, ca2) \<and>
      (\<exists>ch. ca_channel ca2 = Some ch \<and> asm_channel gs ch \<and> ch_closed ch)))"
proof -
  define ca1 where "ca1 = (if fr_FrameNumber f = 0 then ca\<lparr>ca_channel := Some (NewChannel (fr_ID f) origin True)\<rparr> else ca)"
  define fs1 where "fs1 = (if fr_FrameNumber f = 0 then [] else fs)"
  have inv1: "asm_inv fs1 ca1" using inv asm_new by (simp add: asm_inv_def ca1_def fs1_def NewChannel_def)
  have s1: "subseq fs1 (fs @ [f])" and s2: "subseq (fs1 @ [f]) (fs @ [f])" by (auto simp: fs1_def)
  show ?thesis
  proof (cases "ca_channel ca1")
    case None
    then have "ingest_loop cfg origin err (f # frames) ca = ingest_loop cfg origin err frames ca1"
      by (simp flip: ca1_def add: Let_def)
    then show ?thesis using inv1 s1 by blast
  next
    case (Some ch)
    have ch: "asm_channel fs1 ch" "\<not> ch_closed ch" using inv1 Some by (auto simp: asm_inv_def)
    show ?thesis
    proof (cases "AddFrame ch f origin")
      case (Inl e)
      then have "ingest_loop cfg origin err (f # frames) ca = ingest_loop cfg origin err frames ca1"
        using Some by (simp flip: ca1_def add: Let_def)
      then show ?thesis using inv1 s1 by blast
    next
      case (Inr ch')
      let ?ca2 = "ca1\<lparr>ca_channel := Some ch'\<rparr>"
      have A: "asm_channel (fs1 @ [f]) ch'" "ch_closed ch' = fr_IsLast f" using asm_add [OF ch Inr] by auto
      have "asm_inv [] (resetChannel ?ca2)" by (simp add: asm_inv_def resetChannel_def)
      moreover have "\<not> fr_IsLast f \<Longrightarrow> asm_inv (fs1 @ [f]) ?ca2" using A by (simp add: asm_inv_def)
      moreover have "ingest_loop cfg origin err (f # frames) ca =
          (if ch_size ch' > MaxRLPBytesPerChannel cfg (l1_Time origin)
           then ingest_loop cfg origin err frames (resetChannel ?ca2)
           else if fr_IsLast f then (Inr frames, ?ca2) else ingest_loop cfg origin err frames ?ca2)"
        using Some Inr by (simp flip: ca1_def add: Let_def)
      moreover have "fr_IsLast f \<Longrightarrow> \<exists>ch. ca_channel ?ca2 = Some ch \<and> asm_channel (fs1 @ [f]) ch \<and> ch_closed ch" using A by simp
      ultimately show ?thesis using s2 list_emb_Nil [of "(=)" "fs @ [f]"]
        by (cases "ch_size ch' > MaxRLPBytesPerChannel cfg (l1_Time origin)"; cases "fr_IsLast f")
          (simp only: if_True if_False simp_thms; blast)+
    qed
  qed
qed

lemma ingest_loop_ok:
  assumes "asm_inv fs ca" "ingest_loop cfg origin err frames ca = (r, ca')"
  shows "(r = Inl err \<and> (\<exists>gs. asm_inv gs ca' \<and> subseq gs (fs @ frames))) \<or>
    (\<exists>used rest ch gs. r = Inr rest \<and> frames = used @ rest \<and> ca_channel ca' = Some ch \<and> asm_channel gs ch \<and>
       ch_closed ch \<and> subseq gs (fs @ used))"
  using assms
proof (induction frames arbitrary: fs ca)
  case Nil
  then show ?case by (auto intro: subseq_order.refl)
next
  case (Cons f frames)
  from ingest_step [OF Cons.prems(1), of f cfg origin err frames] show ?case
  proof (elim exE conjE disjE)
    fix gs ca2
    assume s: "subseq gs (fs @ [f])" and i: "asm_inv gs ca2"
      and l: "ingest_loop cfg origin err (f # frames) ca = ingest_loop cfg origin err frames ca2"
    have t: "subseq hs (fs @ f # xs)" if "subseq hs (gs @ xs)" for hs xs
    proof -
      have "subseq (gs @ xs) ((fs @ [f]) @ xs)" using s by (rule list_emb_append_mono) simp
      then have "subseq hs ((fs @ [f]) @ xs)" by (rule subseq_order.trans [OF that])
      then show ?thesis by simp
    qed
    from Cons.IH [OF i] l Cons.prems(2) show ?case using t by (metis append_Cons)
  next
    fix gs ca2 ch
    assume "subseq gs (fs @ [f])" "ingest_loop cfg origin err (f # frames) ca = (Inr frames, ca2)"
      "ca_channel ca2 = Some ch" "asm_channel gs ch" "ch_closed ch"
    then have "r = Inr frames \<and> f # frames = [f] @ frames \<and> ca_channel ca' = Some ch \<and> asm_channel gs ch \<and> ch_closed ch \<and>
      subseq gs (fs @ [f])" using Cons.prems(2) by simp
    then show ?case by blast
  qed
qed

lemma asm_not_ready: "asm_inv fs ca \<Longrightarrow> \<not> (case ca_channel ca of Some ch \<Rightarrow> IsReady ch | None \<Rightarrow> False)"
  by (auto simp: asm_inv_def IsReady_def split: option.splits)

lemma assembler_next_ok:
  assumes inv: "asm_inv fs ca"
  shows "\<exists>r rest ca' gs. ChannelAssembler_NextRawChannel cfg origin err frames ca = Some (r, rest, ca') \<and> asm_inv gs ca' \<and>
    (r = Inl err \<and> rest = [] \<and> subseq gs (fs @ frames) \<or> gs = [] \<and> (\<exists>ident cs used. frames = used @ rest \<and> complete_channel ident cs \<and> subseq cs (fs @ used) \<and>
       r = Inr (concat (map fr_Data cs))))"
proof -
  define ca1 where "ca1 = (case ca_channel ca of Some ch \<Rightarrow> if timed_out cfg origin ch then resetChannel ca else ca | None \<Rightarrow> ca)"
  obtain fs1 where fs1: "asm_inv fs1 ca1" "subseq fs1 fs"
  proof (cases "ca1 = ca")
    case False
    then have "ca1 = resetChannel ca" by (auto simp: ca1_def split: option.splits if_splits)
    then show thesis using that [of "[]"] by (simp add: asm_inv_def resetChannel_def)
  qed (use that [of fs] inv in simp)
  obtain r1 ca2 where l: "ingest_loop cfg origin err frames ca1 = (r1, ca2)" by (rule prod.exhaust)
  have e: "ChannelAssembler_NextRawChannel cfg origin err frames ca =
      (case (r1, ca2) of
              (Inl e, ca2) \<Rightarrow> Some (Inl e, [], ca2)
            | (Inr rest, ca2) \<Rightarrow>
                (case ca_channel ca2 of
                   None \<Rightarrow> Some (Inl (CriticalErr ''unexpected non-ready channel''), rest, ca2)
                 | Some ch \<Rightarrow>
                     if \<not> IsReady ch then Some (Inl (CriticalErr ''unexpected non-ready channel''), rest, ca2)
                     else (case Channel_Reader ch of
                             None \<Rightarrow> None
                           | Some data \<Rightarrow> Some (Inr data, rest, resetChannel ca2))))"
    unfolding ChannelAssembler_NextRawChannel_def ca1_def [symmetric] Let_def l using asm_not_ready [OF fs1(1)] by simp
  from ingest_loop_ok [OF fs1(1) l] show ?thesis
  proof (elim disjE exE conjE)
    fix gs assume a: "r1 = Inl err" "asm_inv gs ca2" "subseq gs (fs1 @ frames)"
    have "subseq gs (fs @ frames)" using a(3) fs1(2) by (meson list_emb_append_mono subseq_order.trans subseq_order.order_refl)
    then show ?thesis unfolding e using a(1,2) by auto
  next
    fix used rest ch gs
    assume a: "r1 = Inr rest" "frames = used @ rest" "ca_channel ca2 = Some ch" "asm_channel gs ch" "ch_closed ch" "subseq gs (fs1 @ used)"
    note c = asm_complete [OF a(4,5)]
    have "subseq gs (fs @ used)" using a(6) fs1(2) by (meson list_emb_append_mono subseq_order.trans subseq_order.order_refl)
    moreover have "asm_inv [] (resetChannel ca2)" by (simp add: asm_inv_def resetChannel_def)
    ultimately show ?thesis unfolding e using a(1,2,3) c by auto
  qed
qed

text \<open>The assembler as a machine over its calls.\<close>

datatype AsmInput = AsmNext L1BlockRef DeriveErr "Frame list" | AsmFlush | AsmReset

definition asm_step :: "Config \<Rightarrow> ChannelAssembler option \<Rightarrow> AsmInput \<Rightarrow> ChannelAssembler option" where
  "asm_step cfg s i =
     (case s of
        None \<Rightarrow> None
      | Some ca \<Rightarrow>
          (case i of
             AsmNext origin err frames \<Rightarrow>
               map_option (\<lambda>(r, rest, ca'). ca') (ChannelAssembler_NextRawChannel cfg origin err frames ca)
           | AsmFlush \<Rightarrow> Some (ChannelAssembler_FlushChannel ca)
           | AsmReset \<Rightarrow> Some (snd (ChannelAssembler_Reset ca))))"

text \<open>
  The assembler together with the frames it has taken from the previous stage since it last was reset or
  flushed or yielded a channel: a call that fails takes all the frames up to the error.
\<close>

definition asm_track :: "Config \<Rightarrow> ChannelAssembler option \<times> Frame list \<Rightarrow> AsmInput \<Rightarrow> ChannelAssembler option \<times> Frame list" where
  "asm_track cfg = (\<lambda>(s, received) i.
     (asm_step cfg s i,
      case (s, i) of
        (Some ca, AsmNext origin err frames) \<Rightarrow>
          (case ChannelAssembler_NextRawChannel cfg origin err frames ca of
             Some (Inl _, rest, _) \<Rightarrow> received @ take (length frames - length rest) frames
           | _ \<Rightarrow> [])
      | _ \<Rightarrow> []))"

definition asm_received :: "Config \<Rightarrow> AsmInput list \<Rightarrow> Frame list" where
  "asm_received cfg ins = snd (foldl (asm_track cfg) (Some NewChannelAssembler, []) ins)"

lemma asm_track_fst: "fst (foldl (asm_track cfg) (s, received) ins) = foldl (asm_step cfg) s ins"
proof (induction ins arbitrary: s received)
  case (Cons i ins)
  obtain rc where "asm_track cfg (s, received) i = (asm_step cfg s i, rc)" by (simp add: asm_track_def)
  then show ?case using Cons.IH by simp
qed simp

definition asm_tracked :: "ChannelAssembler option \<times> Frame list \<Rightarrow> bool" where
  "asm_tracked sr \<longleftrightarrow> (\<exists>ca fs. fst sr = Some ca \<and> asm_inv fs ca \<and> subseq fs (snd sr))"

interpretation assembler: invariant_machine "asm_track cfg" asm_tracked for cfg
proof
  fix sr i assume "asm_tracked sr"
  then obtain ca fs rc where ca: "sr = (Some ca, rc)" "asm_inv fs ca" "subseq fs rc" by (cases sr) (auto simp: asm_tracked_def)
  show "asm_tracked (asm_track cfg sr i)"
  proof (cases i)
    case (AsmNext origin err frames)
    from assembler_next_ok [OF ca(2), of cfg origin err frames] obtain r rest ca' gs
      where n: "ChannelAssembler_NextRawChannel cfg origin err frames ca = Some (r, rest, ca')" "asm_inv gs ca'"
        "r = Inl err \<and> rest = [] \<and> subseq gs (fs @ frames) \<or> gs = [] \<and> (\<exists>d. r = Inr d)" by blast
    have "subseq gs (rc @ frames)" if "subseq gs (fs @ frames)"
      using that ca(3) by (meson list_emb_append_mono subseq_order.trans subseq_order.order_refl)
    then show ?thesis using n AsmNext ca(1) by (auto simp: asm_tracked_def asm_track_def asm_step_def)
  qed (auto simp: asm_tracked_def asm_track_def asm_step_def ca(1) ChannelAssembler_FlushChannel_def ChannelAssembler_Reset_def
      resetChannel_def asm_inv_def)
qed

lemma asm_run:
  obtains ca fs where "foldl (asm_step cfg) (Some NewChannelAssembler) ins = Some ca" "asm_inv fs ca" "subseq fs (asm_received cfg ins)"
proof -
  have "asm_tracked (Some NewChannelAssembler, [])" by (auto simp: asm_tracked_def NewChannelAssembler_def asm_inv_def)
  from assembler.inv_run [OF this, of cfg ins] show thesis
    using that by (auto simp: asm_tracked_def asm_received_def asm_track_fst)
qed

text \<open>Frames of one channel, one after the other.\<close>

lemma ingest_rest:
  assumes c: "complete_channel ident cs" and i: "i < length cs" and ca: "ca_channel ca = Some ch"
    and a: "asm_channel (take i cs) ch" "\<not> ch_closed ch" "ch_id ch = ident"
    and size: "sum_list (map (\<lambda>f. unat (frameSize f)) cs) \<le> unat (MaxRLPBytesPerChannel cfg (l1_Time origin))"
    and pos: "0 < i"
  shows "\<exists>ch'. ingest_loop cfg origin err (drop i cs @ rest) ca = (Inr rest, ca\<lparr>ca_channel := Some ch'\<rparr>) \<and> asm_channel cs ch' \<and> ch_closed ch'"
  using i ca a pos
proof (induction "length cs - i" arbitrary: i ca ch)
  case (Suc d)
  let ?f = "cs ! i"
  have d: "drop i cs = ?f # drop (Suc i) cs" using Suc.prems(1) by (simp add: Cons_nth_drop_Suc)
  have f: "fr_ID ?f = ident" "unat (fr_FrameNumber ?f) = i" "fr_IsLast ?f = (Suc i = length cs)"
    using c Suc.prems(1) complete_key(2) [OF c Suc.prems(1)] by (auto simp: complete_channel_def)
  have nz: "fr_FrameNumber ?f \<noteq> 0" using f(2) Suc.prems(6) by auto
  obtain ch' where add: "AddFrame ch ?f origin = Inr ch'"
    using asm_add_iff [OF Suc.prems(3,4), of ?f origin] f Suc.prems(1,5) by auto
  have A: "asm_channel (take (Suc i) cs) ch'" "ch_closed ch' = (Suc i = length cs)" "ch_id ch' = ident"
    using asm_add [OF Suc.prems(3,4) add] f(3) Suc.prems(1,5) by (auto simp: take_Suc_conv_app_nth)
  have "sum_list (map (\<lambda>f. unat (frameSize f)) (take (Suc i) cs)) \<le> sum_list (map (\<lambda>f. unat (frameSize f)) cs)"
    by (subst (2) append_take_drop_id [of "Suc i" cs, symmetric]) (simp only: map_append sum_list_append)
  moreover have "unat (ch_size ch') \<le> sum_list (map (\<lambda>f. unat (frameSize f)) (take (Suc i) cs))"
    using A(1) by (simp add: asm_channel_def)
  ultimately have small: "\<not> ch_size ch' > MaxRLPBytesPerChannel cfg (l1_Time origin)" using size by (simp add: word_less_nat_alt)
  show ?case
  proof (cases "Suc i = length cs")
    case True
    then show ?thesis using d nz Suc.prems(2) add small f(3) A by (auto simp: Let_def)
  next
    case False
    then have "\<exists>ch''. ingest_loop cfg origin err (drop (Suc i) cs @ rest) (ca\<lparr>ca_channel := Some ch'\<rparr>) =
        (Inr rest, ca\<lparr>ca_channel := Some ch'\<rparr>\<lparr>ca_channel := Some ch''\<rparr>) \<and> asm_channel cs ch'' \<and> ch_closed ch''"
      using Suc.hyps(2) Suc.prems(1) A by (intro Suc.hyps(1)) auto
    then show ?thesis using d nz Suc.prems(2) add small f(3) False by (auto simp: Let_def)
  qed
qed simp

lemma ingest_complete:
  assumes c: "complete_channel ident cs"
    and size: "sum_list (map (\<lambda>f. unat (frameSize f)) cs) \<le> unat (MaxRLPBytesPerChannel cfg (l1_Time origin))"
  shows "\<exists>ca' ch'. ingest_loop cfg origin err (cs @ rest) ca = (Inr rest, ca') \<and> ca_channel ca' = Some ch' \<and>
    asm_channel cs ch' \<and> ch_closed ch'"
proof -
  let ?f = "cs ! 0" and ?ch0 = "NewChannel ident origin True"
  have n: "0 < length cs" using c by (simp add: complete_channel_def)
  then obtain fs where cs: "cs = ?f # fs" by (cases cs) auto
  have f: "fr_ID ?f = ident" "fr_FrameNumber ?f = 0" "fr_IsLast ?f = (1 = length cs)" using c n by (auto simp: complete_channel_def)
  have z: "\<not> ch_closed ?ch0" "ch_id ?ch0 = ident" by (simp_all add: NewChannel_def)
  obtain ch1 where add: "AddFrame ?ch0 ?f origin = Inr ch1" using asm_add_iff [OF asm_new z(1), of ?f origin] f z(2) by auto
  have A: "asm_channel [?f] ch1" "ch_closed ch1 = (1 = length cs)" "ch_id ch1 = ident" "ch_size ch1 = frameSize ?f"
    using asm_add [OF asm_new z(1) add] f(3) z(2) by (auto simp: NewChannel_def)
  have "unat (frameSize ?f) \<le> sum_list (map (\<lambda>f. unat (frameSize f)) cs)" by (subst (2) cs) simp
  then have small: "\<not> ch_size ch1 > MaxRLPBytesPerChannel cfg (l1_Time origin)" using size A(4) by (simp add: word_less_nat_alt)
  have loop: "ingest_loop cfg origin err (cs @ rest) ca =
      (if fr_IsLast ?f then (Inr (fs @ rest), ca\<lparr>ca_channel := Some ch1\<rparr>)
       else ingest_loop cfg origin err (fs @ rest) (ca\<lparr>ca_channel := Some ch1\<rparr>))"
    by (subst cs) (simp add: f(1,2) add small Let_def)
  show ?thesis
  proof (cases "fr_IsLast ?f")
    case True
    then have "fs = []" "cs = [?f]" using f(3) cs by (metis One_nat_def length_Cons length_0_conv Suc_inject)+
    then show ?thesis using loop True A f(3) by simp
  next
    case False
    have "\<exists>ch'. ingest_loop cfg origin err (drop 1 cs @ rest) (ca\<lparr>ca_channel := Some ch1\<rparr>) =
        (Inr rest, ca\<lparr>ca_channel := Some ch1\<rparr>\<lparr>ca_channel := Some ch'\<rparr>) \<and> asm_channel cs ch' \<and> ch_closed ch'"
    proof (rule ingest_rest [OF c])
      show "1 < length cs" "\<not> ch_closed ch1" using False f(3) A(2) n by (auto simp: less_Suc_eq_le Suc_le_eq not_less_eq linorder_neq_iff)
      show "asm_channel (take 1 cs) ch1" using A(1) cs by (metis One_nat_def take0 take_Suc_Cons)
    qed (use A size in auto)
    moreover have "drop 1 cs = fs" using cs by (metis drop0 drop_Suc_Cons One_nat_def)
    ultimately show ?thesis using loop False by auto
  qed
qed

section \<open>Properties\<close>

text \<open>C13. The frames of a complete channel, received in any order from any blocks, are all accepted by a
  channel without the in-order rule; the channel is then ready and its reader yields the data of the
  frames in frame order.\<close>

theorem channel_order_independent:
  assumes "complete_channel ident fs" "mset (map fst fbs) = mset fs"
  shows "\<exists>ch. add_frames (NewChannel ident b False) fbs = Inr ch \<and> IsReady ch \<and>
    Channel_Reader ch = Some (concat (map fr_Data fs))"
proof -
  have d: "distinct fs" using complete_inj [OF assms(1)] by (auto simp: distinct_conv_nth)
  have fbs: "distinct (map fst fbs)" "set (map fst fbs) = set fs"
    using d assms(2) mset_eq_imp_distinct_iff mset_eq_setD by blast+
  obtain ch where ch: "add_frames (NewChannel ident b False) fbs = Inr ch" "partial_channel ident fs (set fs) ch"
    using partial_run [OF assms(1) partial_start [OF assms(1)] fbs(1), of b] fbs(2) by auto
  show ?thesis using ch partial_full [OF assms(1) ch(2)] by blast
qed

definition ex_fr :: "nat \<Rightarrow> bytes \<Rightarrow> bool \<Rightarrow> Frame" where
  "ex_fr i d l = \<lparr>fr_ID = [7], fr_FrameNumber = of_nat i, fr_Data = d, fr_IsLast = l\<rparr>"

definition ex_channel :: "Frame list" where
  "ex_channel = [ex_fr 0 [1, 2] False, ex_fr 1 [3] False, ex_fr 2 [4] True]"

lemma ex_channel_complete: "complete_channel [7] ex_channel"
proof -
  have "i < length ex_channel \<Longrightarrow> i = 0 \<or> i = 1 \<or> i = 2" for i by (auto simp: ex_channel_def)
  then show ?thesis by (fastforce simp: complete_channel_def ex_channel_def ex_fr_def)
qed

theorem channel_order_independent_witness:
  "\<exists>ch. add_frames (NewChannel [7] zero_L1BlockRef False)
          (map (\<lambda>f. (f, zero_L1BlockRef)) [ex_fr 2 [4] True, ex_fr 0 [1, 2] False, ex_fr 1 [3] False]) = Inr ch \<and>
        IsReady ch \<and> Channel_Reader ch = Some [1, 2, 3, 4]"
  using channel_order_independent [OF ex_channel_complete,
      of "map (\<lambda>f. (f, zero_L1BlockRef)) [ex_fr 2 [4] True, ex_fr 0 [1, 2] False, ex_fr 1 [3] False]" zero_L1BlockRef]
  by (simp add: ex_channel_def ex_fr_def)

text \<open>A closing frame below the highest number seen leaves the size of the channel at the size of the
  closing frame alone, whatever frames stay buffered: the pruning scan subtracts the size of every
  buffered frame, also of those it keeps.\<close>

theorem size_after_pruning_close:
  assumes "ch_size ch = sum_list (map (\<lambda>(k, f). frameSize f) (ch_inputs ch))"
    and "fr_IsLast frame" "fr_FrameNumber frame < ch_highestFrameNumber ch" "AddFrame ch frame b = Inr ch'"
  shows "ch_size ch' = frameSize frame"
proof -
  have "ch_size (prune_inputs (ch\<lparr>ch_endFrameNumber := fr_FrameNumber frame, ch_closed := True\<rparr>)) = 0"
    using assms(1) by (simp add: prune_inputs_def foldl_minus)
  then show ?thesis using assms(2-4) by (auto simp: AddFrame_def Let_def split: if_splits)
qed

definition ex_open :: Channel where
  "ex_open = (NewChannel [7] zero_L1BlockRef False)\<lparr>ch_size := 606, ch_highestFrameNumber := 3,
     ch_inputs := [(0, ex_fr 0 [1, 2] False), (1, ex_fr 1 [3] False), (3, ex_fr 3 [4, 5, 6] False)]\<rparr>"

theorem size_after_pruning_close_witness:
  "map_sum id (\<lambda>ch. (ch_size ch, map fst (ch_inputs ch))) (AddFrame ex_open (ex_fr 2 [9] True) zero_L1BlockRef) =
   Inr (frameSize (ex_fr 2 [9] True), [0, 1, 2])"
proof -
  obtain ch where ch: "AddFrame ex_open (ex_fr 2 [9] True) zero_L1BlockRef = Inr ch" "map fst (ch_inputs ch) = [0, 1, 2]"
    by (simp add: AddFrame_def ex_open_def ex_fr_def NewChannel_def frame_key_def gm_get_def gm_put_def prune_inputs_def
        gm_keep_def Let_def)
  have "ch_size ch = frameSize (ex_fr 2 [9] True)"
    by (rule size_after_pruning_close [OF _ _ _ ch(1)]) (simp_all add: ex_open_def ex_fr_def frameSize_def frameOverhead_def)
  then show ?thesis using ch by simp
qed

text \<open>C16. Over any sequence of frames, errors of the previous stage, resets and flushes the channel bank
  panics exactly when \<open>FlushChannel\<close> is called on it. Otherwise the queue lists each buffered channel
  exactly once, and pruning ends with channels whose recorded sizes add up, in 64 bits, to at most the
  limit. The recorded size of a channel is not always that of its frames: it is too small after a closing
  frame that arrived below the highest number seen.\<close>

theorem channel_bank_panics_only_on_flush:
  "(foldl (bank_step cfg) (Some NewChannelBank) ins = None \<longleftrightarrow> BankFlush \<in> set ins) \<and>
   (BankFlush \<notin> set ins \<longrightarrow>
    (\<exists>cb. foldl (bank_step cfg) (Some NewChannelBank) ins = Some cb \<and> distinct (cb_channelQueue cb) \<and>
     set (cb_channelQueue cb) = fst ` set (cb_channels cb) \<and>
     (\<exists>cb'. ChannelBank_prune cfg origin cb = Some cb' \<and>
        total_size (cb_channels cb') \<le> MaxChannelBankSize cfg (l1_Time origin))))"
proof (intro conjI impI)
  assume "BankFlush \<notin> set ins"
  then obtain cb where cb: "foldl (bank_step cfg) (Some NewChannelBank) ins = Some cb" "bank_inv cb"
    by (rule bank_run)
  then show "\<exists>cb. foldl (bank_step cfg) (Some NewChannelBank) ins = Some cb \<and> distinct (cb_channelQueue cb) \<and>
     set (cb_channelQueue cb) = fst ` set (cb_channels cb) \<and>
     (\<exists>cb'. ChannelBank_prune cfg origin cb = Some cb' \<and>
        total_size (cb_channels cb') \<le> MaxChannelBankSize cfg (l1_Time origin))"
    using prune_bank_ok [of "cb_channels cb" "cb_channelQueue cb"]
    by (fastforce simp: bank_inv_def ChannelBank_prune_def)
qed (rule bank_run_panics)

theorem channel_bank_panics_only_on_flush_witness:
  "\<exists>cb. foldl (bank_step ex_cfg) (Some NewChannelBank)
       [BankReset, BankNext zero_L1BlockRef (Inr (ex_fr 1 [3] False)), BankNext zero_L1BlockRef (Inr (ex_fr 0 [1, 2] True))] = Some cb \<and>
     set (cb_channelQueue cb) = fst ` set (cb_channels cb)"
  using channel_bank_panics_only_on_flush [of ex_cfg
      "[BankReset, BankNext zero_L1BlockRef (Inr (ex_fr 1 [3] False)), BankNext zero_L1BlockRef (Inr (ex_fr 0 [1, 2] True))]"
      zero_L1BlockRef]
  by (auto simp only: list.set insert_iff empty_iff BankInput.distinct simp_thms)

text \<open>C14. Whatever calls came before, the next call of the channel assembler does not panic and does not
  raise one of its two critical errors: it ends with the error of the previous stage, having taken all the
  frames before it, or with the data of one complete channel. The frames of that channel are among those
  the assembler took since it last was reset or flushed or yielded a channel, and were received in frame
  order.\<close>

theorem assembler_yields_complete_channels:
  "\<exists>ca r rest ca'. foldl (asm_step cfg) (Some NewChannelAssembler) ins = Some ca \<and>
     ChannelAssembler_NextRawChannel cfg origin err frames ca = Some (r, rest, ca') \<and>
     (r = Inl err \<and> rest = [] \<or>
      (\<exists>ident cs used. frames = used @ rest \<and> complete_channel ident cs \<and> subseq cs (asm_received cfg ins @ used) \<and>
         r = Inr (concat (map fr_Data cs))))"
proof -
  obtain ca fs where ca: "foldl (asm_step cfg) (Some NewChannelAssembler) ins = Some ca" "asm_inv fs ca"
    "subseq fs (asm_received cfg ins)" by (rule asm_run)
  have "subseq cs (asm_received cfg ins @ used)" if "subseq cs (fs @ used)" for cs used
    using that ca(3) by (meson list_emb_append_mono subseq_order.trans subseq_order.order_refl)
  then show ?thesis using assembler_next_ok [OF ca(2), of cfg origin err frames] ca(1) by blast
qed

text \<open>C15. When the frames of a complete channel of admissible size arrive one after the other, the channel
  assembler delivers the data of the channel and leaves the frames after it, in every state it can be in.\<close>

theorem assembler_delivers:
  assumes "complete_channel ident cs"
    and "sum_list (map (\<lambda>f. unat (frameSize f)) cs) \<le> unat (MaxRLPBytesPerChannel cfg (l1_Time origin))"
    and "foldl (asm_step cfg) (Some NewChannelAssembler) ins = Some ca"
  shows "\<exists>ca'. ChannelAssembler_NextRawChannel cfg origin err (cs @ rest) ca = Some (Inr (concat (map fr_Data cs)), rest, ca')"
proof -
  obtain fs where inv: "asm_inv fs ca" using asm_run [of cfg ins] assms(3) by (metis option.inject)
  define ca1 where "ca1 = (case ca_channel ca of Some ch \<Rightarrow> if timed_out cfg origin ch then resetChannel ca else ca | None \<Rightarrow> ca)"
  have nr: "\<not> (case ca_channel ca1 of Some ch \<Rightarrow> IsReady ch | None \<Rightarrow> False)"
    using asm_not_ready [OF inv] by (auto simp: ca1_def resetChannel_def split: option.splits)
  obtain ca2 ch where l: "ingest_loop cfg origin err (cs @ rest) ca1 = (Inr rest, ca2)" "ca_channel ca2 = Some ch"
    "asm_channel cs ch" "ch_closed ch" using ingest_complete [OF assms(1,2)] by blast
  show ?thesis unfolding ChannelAssembler_NextRawChannel_def ca1_def [symmetric] Let_def l(1)
    using nr l(2) asm_complete [OF l(3,4)] by simp
qed

theorem assembler_delivers_witness:
  "\<exists>ca'. ChannelAssembler_NextRawChannel ex_cfg zero_L1BlockRef EOF (ex_channel @ [ex_fr 0 [5] True]) NewChannelAssembler =
     Some (Inr [1, 2, 3, 4], [ex_fr 0 [5] True], ca')"
proof -
  have "\<exists>ca'. ChannelAssembler_NextRawChannel ex_cfg zero_L1BlockRef EOF (ex_channel @ [ex_fr 0 [5] True]) NewChannelAssembler =
     Some (Inr (concat (map fr_Data ex_channel)), [ex_fr 0 [5] True], ca')"
    by (rule assembler_delivers [OF ex_channel_complete, where ins = "[]"])
      (simp_all add: ex_channel_def ex_fr_def frameSize_def frameOverhead_def MaxRLPBytesPerChannel_def
        maxRLPBytesPerChannelFjord_def maxRLPBytesPerChannelBedrock_def)
  then show ?thesis by (simp add: ex_channel_def ex_fr_def)
qed

end
