(* ===== verification/Ssz.thy ===== *)
theory Ssz
  imports Eth_Types
begin

text \<open>
  The hand-written SSZ codec of execution payloads, \<^verbatim>\<open>op-service/eth/ssz.go\<close>. The encoder writes into a
  pooled buffer with stale content at 32-bit offsets, the decoder slices its input at offsets that it
  reads from it; an outer \<open>None\<close> is a panic. The generic SSZ library, which encodes the
  preconfirmation messages, is a parameter.
\<close>

section \<open>Data\<close>

datatype BlockVersion = BlockV1 | BlockV2 | BlockV3

text \<open>The four little-endian limbs of a 256-bit integer.\<close>

type_synonym Uint256Quantity = "u64 \<times> u64 \<times> u64 \<times> u64"

record Withdrawal =
  wd_Index :: u64
  wd_Validator :: u64
  wd_Address :: Address
  wd_Amount :: u64

record ExecutionPayload =
  ep_ParentHash :: Hash
  ep_FeeRecipient :: Address
  ep_StateRoot :: bytes
  ep_ReceiptsRoot :: bytes
  ep_LogsBloom :: bytes
  ep_PrevRandao :: bytes
  ep_BlockNumber :: u64
  ep_GasLimit :: u64
  ep_GasUsed :: u64
  ep_Timestamp :: u64
  ep_ExtraData :: bytes
  ep_BaseFeePerGas :: Uint256Quantity
  ep_BlockHash :: Hash
  ep_Transactions :: "bytes list"
  ep_Withdrawals :: "Withdrawal list option"
  ep_BlobGasUsed :: "u64 option"
  ep_ExcessBlobGas :: "u64 option"

record ExecutionPayloadEnvelope =
  env_ParentBeaconRoot :: "Hash option"
  env_ExecutionPayload :: "ExecutionPayload option"

datatype SszErr =
  ErrExtraDataTooLarge | ErrBadTransactionOffset | ErrBadWithdrawalsOffset | ErrMissingData
| MissingDencunAttributes | ScopeTooSmall | ReadFailed | BadExtraDataOffset | WithdrawalsOffsetTooLarge
| ExtraDataTooLong | InvalidWithdrawals | TooManyWithdrawals | NoFirstTxOffset | FirstTxOffsetUnaligned
| FirstTxOffsetOutOfScope | TooManyTransactions | BadNextTxOffset | NotEnoughForSignature | LibraryErr string

definition HasBlobProperties :: "BlockVersion \<Rightarrow> bool" where
  "HasBlobProperties v \<longleftrightarrow> v = BlockV3"

definition HasWithdrawals :: "BlockVersion \<Rightarrow> bool" where
  "HasWithdrawals v \<longleftrightarrow> v = BlockV2 \<or> v = BlockV3"

definition HasParentBeaconBlockRoot :: "BlockVersion \<Rightarrow> bool" where
  "HasParentBeaconBlockRoot v \<longleftrightarrow> v = BlockV3"

definition blockV1FixedPart :: u32 where
  "blockV1FixedPart = 32 + 20 + 32 + 32 + 256 + 32 + 8 + 8 + 8 + 8 + 4 + 32 + 32 + 4"

definition blockV2FixedPart :: u32 where
  "blockV2FixedPart = blockV1FixedPart + 4"

definition blockV3FixedPart :: u32 where
  "blockV3FixedPart = blockV2FixedPart + 8 + 8"

definition withdrawalLen :: nat where
  "withdrawalLen = 8 + 8 + 20 + 8"

definition maxTransactionsPerPayload :: u32 where
  "maxTransactionsPerPayload = 2 ^ 20"

definition maxWithdrawalsPerPayload :: nat where
  "maxWithdrawalsPerPayload = 2 ^ 4"

fun executionPayloadFixedPart :: "BlockVersion \<Rightarrow> u32" where
  "executionPayloadFixedPart BlockV3 = blockV3FixedPart"
| "executionPayloadFixedPart BlockV2 = blockV2FixedPart"
| "executionPayloadFixedPart BlockV1 = blockV1FixedPart"

definition inferVersion :: "ExecutionPayload \<Rightarrow> BlockVersion" where
  "inferVersion p =
     (if ep_ExcessBlobGas p \<noteq> None \<and> ep_BlobGasUsed p \<noteq> None then BlockV3
      else if ep_Withdrawals p \<noteq> None then BlockV2
      else BlockV1)"

definition TransactionsSize :: "bytes list \<Rightarrow> u32" where
  "TransactionsSize transactions =
     foldl (\<lambda>result tx. result + of_nat (length tx)) (of_nat (length transactions) * 4) transactions"

definition transactionSize :: "ExecutionPayload \<Rightarrow> u32" where
  "transactionSize p = TransactionsSize (ep_Transactions p)"

definition withdrawalSize :: "ExecutionPayload \<Rightarrow> u32" where
  "withdrawalSize p =
     (case ep_Withdrawals p of None \<Rightarrow> 0 | Some ws \<Rightarrow> of_nat (length ws * withdrawalLen))"

definition SizeSSZ :: "ExecutionPayload \<Rightarrow> u32" where
  "SizeSSZ p =
     executionPayloadFixedPart (inferVersion p) + of_nat (length (ep_ExtraData p)) + transactionSize p + withdrawalSize p"

section \<open>Encoding into a buffer\<close>

text \<open>
  \<^verbatim>\<open>copy(buf[lo:hi], src)\<close>; the buffer is given up to its capacity, which bounds the slice.
\<close>

definition buf_copy :: "nat \<Rightarrow> nat \<Rightarrow> bytes \<Rightarrow> bytes \<Rightarrow> bytes option" where
  "buf_copy lo hi src buf =
     (if lo \<le> hi \<and> hi \<le> length buf
      then (let k = min (hi - lo) (length src) in Some (take lo buf @ take k src @ drop (lo + k) buf))
      else None)"

text \<open>
  A run of \<^verbatim>\<open>copy(out[offset:offset+w], src); offset += w\<close>, where \<open>out\<close> starts at \<open>base\<close> in the buffer.
\<close>

fun put_fields :: "nat \<Rightarrow> (u32 \<times> bytes) list \<Rightarrow> bytes \<times> u32 \<Rightarrow> (bytes \<times> u32) option" where
  "put_fields base [] (buf, offset) = Some (buf, offset)"
| "put_fields base ((w, src) # fs) (buf, offset) =
     (case buf_copy (base + unat offset) (base + unat (offset + w)) src buf of
        None \<Rightarrow> None
      | Some buf' \<Rightarrow> put_fields base fs (buf', offset + w))"

fun marshalBytes32LE :: "Uint256Quantity \<Rightarrow> bytes" where
  "marshalBytes32LE (z0, z1, z2, z3) = PutUint64LE z0 @ PutUint64LE z1 @ PutUint64LE z2 @ PutUint64LE z3"

definition unmarshalBytes32LE :: "bytes \<Rightarrow> Uint256Quantity" where
  "unmarshalBytes32LE i =
     (Uint64LE (take 8 i), Uint64LE (take 8 (drop 8 i)), Uint64LE (take 8 (drop 16 i)), Uint64LE (take 8 (drop 24 i)))"

definition withdrawal_fields :: "Withdrawal \<Rightarrow> (u32 \<times> bytes) list" where
  "withdrawal_fields w =
     [(8, PutUint64LE (wd_Index w)), (8, PutUint64LE (wd_Validator w)), (20, wd_Address w), (8, PutUint64LE (wd_Amount w))]"

definition marshalWithdrawals :: "nat \<Rightarrow> Withdrawal list \<Rightarrow> bytes \<Rightarrow> bytes option" where
  "marshalWithdrawals base ws buf = map_option fst (put_fields base (concat (map withdrawal_fields ws)) (buf, 0))"

fun tx_loop :: "nat \<Rightarrow> bytes list \<Rightarrow> u32 \<Rightarrow> u32 \<Rightarrow> bytes \<Rightarrow> bytes option" where
  "tx_loop base [] offset txOffset buf = Some buf"
| "tx_loop base (tx # txs) offset txOffset buf =
     (case buf_copy (base + unat offset) (base + unat (offset + 4)) (PutUint32LE txOffset) buf of
        None \<Rightarrow> None
      | Some buf1 \<Rightarrow>
          (let nextTxOffset = txOffset + of_nat (length tx) in
           case buf_copy (base + unat txOffset) (base + unat nextTxOffset) tx buf1 of
             None \<Rightarrow> None
           | Some buf2 \<Rightarrow> tx_loop base txs (offset + 4) nextTxOffset buf2))"

definition marshalTransactions :: "nat \<Rightarrow> bytes list \<Rightarrow> bytes \<Rightarrow> bytes option" where
  "marshalTransactions base txs buf = tx_loop base txs 0 (of_nat (length txs) * 4) buf"

definition fixed_fields :: "ExecutionPayload \<Rightarrow> u32 \<Rightarrow> u32 \<Rightarrow> (u32 \<times> bytes) list" where
  "fixed_fields p fixedSize extraDataSize =
     [(32, ep_ParentHash p), (20, ep_FeeRecipient p), (32, ep_StateRoot p), (32, ep_ReceiptsRoot p),
      (256, ep_LogsBloom p), (32, ep_PrevRandao p), (8, PutUint64LE (ep_BlockNumber p)),
      (8, PutUint64LE (ep_GasLimit p)), (8, PutUint64LE (ep_GasUsed p)), (8, PutUint64LE (ep_Timestamp p)),
      (4, PutUint32LE fixedSize), (32, marshalBytes32LE (ep_BaseFeePerGas p)), (32, ep_BlockHash p),
      (4, PutUint32LE (fixedSize + extraDataSize))]"

definition blob_fields :: "ExecutionPayload \<Rightarrow> SszErr + (u32 \<times> bytes) list" where
  "blob_fields p =
     (if inferVersion p = BlockV3
      then (case (ep_BlobGasUsed p, ep_ExcessBlobGas p) of
              (Some used, Some excess) \<Rightarrow> Inr [(8, PutUint64LE used), (8, PutUint64LE excess)]
            | _ \<Rightarrow> Inl MissingDencunAttributes)
      else Inr [])"

text \<open>The dynamic part, from the extra data on, and the bytes that are written out.\<close>

definition marshal_dynamic :: "ExecutionPayload \<Rightarrow> u32 \<Rightarrow> bytes \<times> u32 \<Rightarrow> (SszErr + bytes) option" where
  "marshal_dynamic p scope st =
     (let extraDataSize = of_nat (length (ep_ExtraData p)) in
      case put_fields 0 [(extraDataSize, ep_ExtraData p)] st of
        None \<Rightarrow> None
      | Some (buf, offset) \<Rightarrow>
          if offset \<le> offset + transactionSize p \<and> unat (offset + transactionSize p) \<le> length buf
          then (case marshalTransactions (unat offset) (ep_Transactions p) buf of
                  None \<Rightarrow> None
                | Some buf2 \<Rightarrow>
                    (let offset2 = offset + transactionSize p in
                     case ep_Withdrawals p of
                       None \<Rightarrow> Some (Inr (take (unat scope) buf2))
                     | Some ws \<Rightarrow>
                         if offset2 \<le> scope
                         then map_option (\<lambda>buf3. Inr (take (unat scope) buf3)) (marshalWithdrawals (unat offset2) ws buf2)
                         else None))
          else None)"

text \<open>\<open>pool\<close> is the buffer of the pool, up to its capacity and with whatever it last held.\<close>

definition MarshalSSZ :: "bytes \<Rightarrow> ExecutionPayload \<Rightarrow> (SszErr + bytes) option" where
  "MarshalSSZ pool p =
     (let fixedSize = executionPayloadFixedPart (inferVersion p);
          extraDataSize = of_nat (length (ep_ExtraData p)) in
      if extraDataSize > 0xFFFFFFFF - fixedSize then Some (Inl ErrExtraDataTooLarge)
      else
        let scope = SizeSSZ p;
            buf = (if (of_nat (length pool) :: u32) < scope then replicate (unat scope) 0 else pool) in
        case put_fields 0 (fixed_fields p fixedSize extraDataSize) (buf, 0) of
          None \<Rightarrow> None
        | Some (buf1, offset1) \<Rightarrow>
            if ep_Withdrawals p = None \<and> offset1 \<noteq> fixedSize then None
            else
              (case put_fields 0
                   (if ep_Withdrawals p \<noteq> None then [(4, PutUint32LE (fixedSize + extraDataSize + transactionSize p))] else [])
                   (buf1, offset1) of
                 None \<Rightarrow> None
               | Some st2 \<Rightarrow>
                   (case blob_fields p of
                      Inl e \<Rightarrow> Some (Inl e)
                    | Inr bf \<Rightarrow>
                        (case put_fields 0 bf st2 of
                           None \<Rightarrow> None
                         | Some st3 \<Rightarrow>
                             if ep_Withdrawals p \<noteq> None \<and> snd st3 \<noteq> fixedSize then None
                             else marshal_dynamic p scope st3))))"

section \<open>Decoding\<close>

text \<open>Successive slices of the given widths.\<close>

fun get_fields :: "nat list \<Rightarrow> nat \<Rightarrow> bytes \<Rightarrow> bytes list option" where
  "get_fields [] offset buf = Some []"
| "get_fields (w # ws) offset buf =
     (case go_slice offset (offset + w) buf of
        None \<Rightarrow> None
      | Some x \<Rightarrow> map_option (\<lambda>xs. x # xs) (get_fields ws (offset + w) buf))"

text \<open>The loop over the offsets, with the number of transactions still to cut.\<close>

fun untx_loop :: "bytes \<Rightarrow> u32 \<Rightarrow> nat \<Rightarrow> u32 \<Rightarrow> u32 \<Rightarrow> (SszErr + bytes list) option" where
  "untx_loop i scope 0 offset currentTxOffset = Some (Inr [])"
| "untx_loop i scope (Suc n) offset currentTxOffset =
     (let next =
        (if n > 0
         then map_option (\<lambda>b. (Uint32LE b, offset + 4)) (go_slice (unat offset) (unat (offset + 4)) i)
         else Some (scope, offset)) in
      case next of
        None \<Rightarrow> None
      | Some (nextTxOffset, offset') \<Rightarrow>
          if nextTxOffset < currentTxOffset \<or> nextTxOffset > scope then Some (Inl BadNextTxOffset)
          else (case go_slice (unat currentTxOffset) (unat nextTxOffset) i of
                  None \<Rightarrow> None
                | Some tx \<Rightarrow>
                    map_option (map_sum id (\<lambda>txs. tx # txs)) (untx_loop i scope n offset' nextTxOffset)))"

definition unmarshalTransactions :: "bytes \<Rightarrow> (SszErr + bytes list) option" where
  "unmarshalTransactions i =
     (let scope = of_nat (length i) :: u32 in
      if scope = 0 then Some (Inr [])
      else if scope < 4 then Some (Inl NoFirstTxOffset)
      else
        (case go_slice 0 4 i of
           None \<Rightarrow> None
         | Some b \<Rightarrow>
             (let firstTxOffset = Uint32LE b in
              if firstTxOffset mod 4 \<noteq> 0 then Some (Inl FirstTxOffsetUnaligned)
              else if firstTxOffset > scope then Some (Inl FirstTxOffsetOutOfScope)
              else
                let txCount = firstTxOffset div 4 in
                if txCount > maxTransactionsPerPayload then Some (Inl TooManyTransactions)
                else untx_loop i scope (unat txCount) 4 firstTxOffset)))"

fun unwd_loop :: "bytes \<Rightarrow> nat \<Rightarrow> nat \<Rightarrow> Withdrawal list option" where
  "unwd_loop i 0 offset = Some []"
| "unwd_loop i (Suc n) offset =
     (case get_fields [8, 8, 20, 8] offset i of
        Some [idx, val, addr, amt] \<Rightarrow>
          map_option (\<lambda>ws. \<lparr>wd_Index = Uint64LE idx, wd_Validator = Uint64LE val, wd_Address = addr, wd_Amount = Uint64LE amt\<rparr> # ws)
            (unwd_loop i n (offset + withdrawalLen))
      | _ \<Rightarrow> None)"

definition unmarshalWithdrawals :: "bytes \<Rightarrow> (SszErr + Withdrawal list) option" where
  "unmarshalWithdrawals i =
     (if length i mod withdrawalLen \<noteq> 0 then Some (Inl InvalidWithdrawals)
      else if length i div withdrawalLen > maxWithdrawalsPerPayload then Some (Inl TooManyWithdrawals)
      else map_option Inr (unwd_loop i (length i div withdrawalLen) 0))"

definition fixed_widths :: "BlockVersion \<Rightarrow> nat list" where
  "fixed_widths v =
     [32, 20, 32, 32, 256, 32, 8, 8, 8, 8, 4, 32, 32, 4] @
     (if HasWithdrawals v then [4] else []) @ (if v = BlockV3 then [8, 8] else [])"

text \<open>The dynamic part once the offsets are known: extra data, transactions, withdrawals.\<close>

definition unmarshal_dynamic ::
    "BlockVersion \<Rightarrow> u32 \<Rightarrow> u32 \<Rightarrow> u32 \<Rightarrow> u32 \<Rightarrow> bytes \<Rightarrow> ExecutionPayload \<Rightarrow> (SszErr + ExecutionPayload) option" where
  "unmarshal_dynamic v scope extraDataOffset transactionsOffset withdrawalsOffset buf p =
     (if transactionsOffset > extraDataOffset + 32 \<or> transactionsOffset > scope then Some (Inl ExtraDataTooLong)
      else
        (case (go_slice (unat extraDataOffset) (unat transactionsOffset) buf,
               go_slice (unat transactionsOffset) (unat withdrawalsOffset) buf) of
           (Some extra, Some txData) \<Rightarrow>
             (case unmarshalTransactions txData of
                None \<Rightarrow> None
              | Some (Inl e) \<Rightarrow> Some (Inl e)
              | Some (Inr txs) \<Rightarrow>
                  (let p1 = p\<lparr>ep_ExtraData := extra, ep_Transactions := txs\<rparr> in
                   if HasWithdrawals v
                   then (case go_slice (unat withdrawalsOffset) (length buf) buf of
                           None \<Rightarrow> None
                         | Some wdData \<Rightarrow>
                             map_option (map_sum id (\<lambda>ws. p1\<lparr>ep_Withdrawals := Some ws\<rparr>)) (unmarshalWithdrawals wdData))
                   else Some (Inr p1)))
         | _ \<Rightarrow> None))"

text \<open>
  \<open>payload\<close> is the receiver; the result is the receiver updated and what is left of the reader. The
  slices of the fixed part are cut at once: none of them can fail when \<open>scope\<close> covers the fixed part.
\<close>

definition UnmarshalSSZ :: "BlockVersion \<Rightarrow> u32 \<Rightarrow> bytes \<Rightarrow> ExecutionPayload \<Rightarrow> (SszErr + ExecutionPayload \<times> bytes) option" where
  "UnmarshalSSZ v scope r payload =
     (let fixedSize = executionPayloadFixedPart v in
      if scope < fixedSize then Some (Inl ScopeTooSmall)
      else if length r < unat scope then Some (Inl ReadFailed)
      else
        let buf = take (unat scope) r; rest = drop (unat scope) r in
        case get_fields (fixed_widths v) 0 buf of
          Some (parentHash # feeRecipient # stateRoot # receiptsRoot # logsBloom # prevRandao # blockNumber #
                gasLimit # gasUsed # timestamp # extraOff # baseFee # blockHash # txOff # dyn) \<Rightarrow>
            (let extraDataOffset = Uint32LE extraOff; transactionsOffset = Uint32LE txOff;
                 p = payload\<lparr>ep_ParentHash := parentHash, ep_FeeRecipient := feeRecipient, ep_StateRoot := stateRoot,
                   ep_ReceiptsRoot := receiptsRoot, ep_LogsBloom := logsBloom, ep_PrevRandao := prevRandao,
                   ep_BlockNumber := Uint64LE blockNumber, ep_GasLimit := Uint64LE gasLimit,
                   ep_GasUsed := Uint64LE gasUsed, ep_Timestamp := Uint64LE timestamp,
                   ep_BaseFeePerGas := unmarshalBytes32LE baseFee, ep_BlockHash := blockHash\<rparr> in
             if extraDataOffset \<noteq> fixedSize then Some (Inl BadExtraDataOffset)
             else if transactionsOffset < extraDataOffset then Some (Inl ErrBadTransactionOffset)
             else
               let withdrawalsOffset = (if HasWithdrawals v then Uint32LE (hd dyn) else scope) in
               if HasWithdrawals v \<and> withdrawalsOffset < transactionsOffset then Some (Inl ErrBadWithdrawalsOffset)
               else if HasWithdrawals v \<and> withdrawalsOffset > scope then Some (Inl WithdrawalsOffsetTooLarge)
               else
                 let p1 = (if v = BlockV3
                           then p\<lparr>ep_BlobGasUsed := Some (Uint64LE (dyn ! 1)), ep_ExcessBlobGas := Some (Uint64LE (dyn ! 2))\<rparr>
                           else p) in
                 map_option (map_sum id (\<lambda>p2. (p2, rest)))
                   (unmarshal_dynamic v scope extraDataOffset transactionsOffset withdrawalsOffset buf p1))
        | _ \<Rightarrow> None)"

definition zero_payload :: ExecutionPayload where
  "zero_payload =
     \<lparr>ep_ParentHash = replicate 32 0, ep_FeeRecipient = replicate 20 0, ep_StateRoot = replicate 32 0,
      ep_ReceiptsRoot = replicate 32 0, ep_LogsBloom = replicate 256 0, ep_PrevRandao = replicate 32 0,
      ep_BlockNumber = 0, ep_GasLimit = 0, ep_GasUsed = 0, ep_Timestamp = 0, ep_ExtraData = [],
      ep_BaseFeePerGas = (0, 0, 0, 0), ep_BlockHash = replicate 32 0, ep_Transactions = [],
      ep_Withdrawals = None, ep_BlobGasUsed = None, ep_ExcessBlobGas = None\<rparr>"

section \<open>Envelopes\<close>

text \<open>\<^verbatim>\<open>Read\<close> of a \<^verbatim>\<open>bytes.Reader\<close>: as much as there is, \<^verbatim>\<open>io.EOF\<close> when there is nothing.\<close>

definition reader_Read :: "nat \<Rightarrow> bytes \<Rightarrow> SszErr + bytes \<times> bytes" where
  "reader_Read n r = (if r = [] then Inl ReadFailed else Inr (take n r, drop n r))"

text \<open>A short read gives no error, and the receiver as it was.\<close>

definition Envelope_UnmarshalSSZ ::
    "u32 \<Rightarrow> bytes \<Rightarrow> ExecutionPayloadEnvelope \<Rightarrow> (SszErr + ExecutionPayloadEnvelope \<times> bytes) option" where
  "Envelope_UnmarshalSSZ scope r envelope =
     (if scope < 32 then Some (Inl ScopeTooSmall)
      else (case reader_Read 32 r of
              Inl e \<Rightarrow> Some (Inl e)
            | Inr (d, r1) \<Rightarrow>
                if length d \<noteq> 32 then Some (Inr (envelope, r1))
                else (case UnmarshalSSZ BlockV3 (scope - 32) r1 zero_payload of
                        None \<Rightarrow> None
                      | Some (Inl e) \<Rightarrow> Some (Inl e)
                      | Some (Inr (payload, r2)) \<Rightarrow>
                          Some (Inr (envelope\<lparr>env_ParentBeaconRoot := Some d, env_ExecutionPayload := Some payload\<rparr>, r2)))))"

definition Envelope_MarshalSSZ :: "bytes \<Rightarrow> ExecutionPayloadEnvelope \<Rightarrow> (SszErr + bytes) option" where
  "Envelope_MarshalSSZ pool envelope =
     (case (env_ExecutionPayload envelope, env_ParentBeaconRoot envelope) of
        (Some payload, Some root) \<Rightarrow> map_option (map_sum id (\<lambda>b. root @ b)) (MarshalSSZ pool payload)
      | _ \<Rightarrow> Some (Inl ErrMissingData))"

section \<open>Signed preconfirmation messages\<close>

text \<open>
  \<open>decode scope r\<close> and \<open>encode\<close> stand for \<^verbatim>\<open>ssz.DecodeFromStream\<close> and \<^verbatim>\<open>ssz.EncodeToStream\<close> of the
  message type.
\<close>

definition SignatureSize :: nat where
  "SignatureSize = 65"

definition read_signed ::
    "(u32 \<Rightarrow> bytes \<Rightarrow> SszErr + 'a \<times> bytes) \<Rightarrow> u32 \<Rightarrow> bytes \<Rightarrow> SszErr + (bytes \<times> 'a) \<times> bytes" where
  "read_signed decode scope r =
     (case reader_Read SignatureSize r of
        Inl e \<Rightarrow> Inl e
      | Inr (signature, r1) \<Rightarrow>
          if length signature \<noteq> SignatureSize then Inl NotEnoughForSignature
          else (case decode (scope - of_nat SignatureSize) r1 of
                  Inl e \<Rightarrow> Inl e
                | Inr (x, r2) \<Rightarrow> Inr ((signature, x), r2)))"

definition write_signed :: "('a \<Rightarrow> SszErr + bytes) \<Rightarrow> bytes \<Rightarrow> 'a \<Rightarrow> SszErr + bytes" where
  "write_signed encode signature x = map_sum id (\<lambda>b. signature @ b) (encode x)"

definition SignedNewFrag_UnmarshalSSZ ::
    "(u32 \<Rightarrow> bytes \<Rightarrow> SszErr + NewFrag \<times> bytes) \<Rightarrow> u32 \<Rightarrow> bytes \<Rightarrow> SszErr + SignedNewFrag" where
  "SignedNewFrag_UnmarshalSSZ decode scope r =
     map_sum id (\<lambda>((sig, x), r'). \<lparr>sf_Signature = sig, sf_Frag = x\<rparr>) (read_signed decode scope r)"

definition SignedNewFrag_MarshalSSZ :: "(NewFrag \<Rightarrow> SszErr + bytes) \<Rightarrow> SignedNewFrag \<Rightarrow> SszErr + bytes" where
  "SignedNewFrag_MarshalSSZ encode m = write_signed encode (sf_Signature m) (sf_Frag m)"

definition SignedSeal_UnmarshalSSZ ::
    "(u32 \<Rightarrow> bytes \<Rightarrow> SszErr + Seal \<times> bytes) \<Rightarrow> u32 \<Rightarrow> bytes \<Rightarrow> SszErr + SignedSeal" where
  "SignedSeal_UnmarshalSSZ decode scope r =
     map_sum id (\<lambda>((sig, x), r'). \<lparr>ss_Signature = sig, ss_Seal = x\<rparr>) (read_signed decode scope r)"

definition SignedSeal_MarshalSSZ :: "(Seal \<Rightarrow> SszErr + bytes) \<Rightarrow> SignedSeal \<Rightarrow> SszErr + bytes" where
  "SignedSeal_MarshalSSZ encode m = write_signed encode (ss_Signature m) (ss_Seal m)"

definition SignedEnv_UnmarshalSSZ ::
    "(u32 \<Rightarrow> bytes \<Rightarrow> SszErr + Env \<times> bytes) \<Rightarrow> u32 \<Rightarrow> bytes \<Rightarrow> SszErr + SignedEnv" where
  "SignedEnv_UnmarshalSSZ decode scope r =
     map_sum id (\<lambda>((sig, x), r'). \<lparr>se_Signature = sig, se_Env = x\<rparr>) (read_signed decode scope r)"

definition SignedEnv_MarshalSSZ :: "(Env \<Rightarrow> SszErr + bytes) \<Rightarrow> SignedEnv \<Rightarrow> SszErr + bytes" where
  "SignedEnv_MarshalSSZ encode m = write_signed encode (se_Signature m) (se_Env m)"

text \<open>
  The layouts of the messages as \<^verbatim>\<open>DefineSSZ\<close> declares them to the library, in its order, and the
  sizes that \<^verbatim>\<open>SizeSSZ\<close> reports. \<open>dynamic\<close> is the library's size of the variable part.
\<close>

datatype SszField =
  DefineUint64 u64 | DefineUint256 "256 word" | DefineBool bool | DefineStaticBytes bytes
| DefineOffset | DefineDynamicBytesContent bytes nat | DefineSliceOfDynamicBytesContent "bytes list" nat nat

definition MaxTxAmount :: nat where
  "MaxTxAmount = 1048576"

definition MaxTxsSize :: nat where
  "MaxTxsSize = 1073741824"

definition MaxExtraDataSize :: nat where
  "MaxExtraDataSize = 256"

definition NewFragFixedSize :: u32 where
  "NewFragFixedSize = 8 + 8 + 1 + 4 + 8"

definition Seal_SizeSSZ :: u32 where
  "Seal_SizeSSZ = 32 * 4 + 8 * 4"

definition Seal_DefineSSZ :: "Seal \<Rightarrow> SszField list" where
  "Seal_DefineSSZ s =
     [DefineUint64 (seal_TotalFrags s), DefineUint64 (seal_BlockNumber s), DefineUint64 (seal_GasUsed s),
      DefineUint64 (seal_GasLimit s), DefineStaticBytes (seal_ParentHash s), DefineStaticBytes (seal_TransactionsRoot s),
      DefineStaticBytes (seal_ReceiptsRoot s), DefineStaticBytes (seal_StateRoot s), DefineStaticBytes (seal_BlockHash s)]"

definition NewFrag_SizeSSZ :: "u32 \<Rightarrow> bool \<Rightarrow> u32" where
  "NewFrag_SizeSSZ dynamic fixed = (let size = 8 * 2 + 1 + 4 in if fixed then size else size + dynamic)"

definition NewFrag_DefineSSZ :: "NewFrag \<Rightarrow> SszField list" where
  "NewFrag_DefineSSZ f =
     [DefineUint64 (frag_BlockNumber f), DefineUint64 (frag_Seq f), DefineBool (frag_IsLast f), DefineOffset,
      DefineSliceOfDynamicBytesContent (frag_Txs f) MaxTxAmount MaxTxsSize]"

definition Env_SizeSSZ :: "u32 \<Rightarrow> bool \<Rightarrow> u32" where
  "Env_SizeSSZ dynamic fixed =
     (let fixedSize = 8 + 32 + 20 + 8 + 8 + 8 + 32 + 32 + 32 + 4 in if fixed then fixedSize else fixedSize + dynamic)"

definition Env_DefineSSZ :: "Env \<Rightarrow> SszField list" where
  "Env_DefineSSZ e =
     [DefineUint64 (env_Number e), DefineStaticBytes (env_ParentHash e), DefineStaticBytes (env_Beneficiary e),
      DefineUint64 (env_Timestamp e), DefineUint64 (env_GasLimit e), DefineUint64 (env_Basefee e),
      DefineUint256 (env_Difficulty e), DefineStaticBytes (env_Prevrandao e), DefineOffset,
      DefineDynamicBytesContent (env_ExtraData e) MaxExtraDataSize, DefineStaticBytes (env_ParentBeaconBlockRoot e)]"

text \<open>The signing root: the message root mixed with the number of its type.\<close>

definition unionRoot :: "(bytes \<Rightarrow> Hash) \<Rightarrow> Hash \<Rightarrow> u64 \<Rightarrow> Hash" where
  "unionRoot sha256 valueRoot typeIndex = sha256 (valueRoot @ PutUint64LE typeIndex @ replicate 24 0)"

definition NewFrag_Root :: "(bytes \<Rightarrow> Hash) \<Rightarrow> (NewFrag \<Rightarrow> Hash) \<Rightarrow> NewFrag \<Rightarrow> Hash" where
  "NewFrag_Root sha256 hashSequential f = unionRoot sha256 (hashSequential f) 0"

definition Seal_Root :: "(bytes \<Rightarrow> Hash) \<Rightarrow> (Seal \<Rightarrow> Hash) \<Rightarrow> Seal \<Rightarrow> Hash" where
  "Seal_Root sha256 hashSequential s = unionRoot sha256 (hashSequential s) 1"

definition Env_Root :: "(bytes \<Rightarrow> Hash) \<Rightarrow> (Env \<Rightarrow> Hash) \<Rightarrow> Env \<Rightarrow> Hash" where
  "Env_Root sha256 hashSequential e = unionRoot sha256 (hashSequential e) 2"

end
