(* ===== verification/Registry.thy ===== *)
theory Registry
  imports Eth_Types
begin

text \<open>
  The gateway registry client of the op-node, \<^verbatim>\<open>op-service/sources/registry_client.go\<close>: which gateway may
  sign the preconfirmations of which block. The registry server is an argument, the answers it gives to
  each attempt.
\<close>

section \<open>Responses\<close>

record RegistryResponse =
  rr_BlockNumber :: u64
  rr_Url :: string
  rr_GatewayAddress :: Address
  rr_JwtSecret :: Hash

datatype RegErr = RpcErr string | TupleNil | TupleLength | BadTupleType nat | NotCached u64 u64 | RetriesExhausted RegErr

text \<open>
  A decoded JSON value, as far as the code distinguishes it; a number is given by what \<^verbatim>\<open>uint64(f)\<close> makes
  of its \<^verbatim>\<open>float64\<close>.
\<close>

datatype JsonAny = JFloat u64 | JString string | JOther

text \<open>\<^verbatim>\<open>hex.DecodeString\<close>: the bytes before the first character that is not a digit.\<close>

definition hex_digit :: "char \<Rightarrow> nat option" where
  "hex_digit c =
     (let n = of_char c :: nat in
      if 48 \<le> n \<and> n \<le> 57 then Some (n - 48)
      else if 97 \<le> n \<and> n \<le> 102 then Some (n - 87)
      else if 65 \<le> n \<and> n \<le> 70 then Some (n - 55)
      else None)"

fun Hex2Bytes :: "string \<Rightarrow> bytes" where
  "Hex2Bytes (a # b # s) =
     (case (hex_digit a, hex_digit b) of
        (Some x, Some y) \<Rightarrow> of_nat (16 * x + y) # Hex2Bytes s
      | _ \<Rightarrow> [])"
| "Hex2Bytes _ = []"

definition has0xPrefix :: "string \<Rightarrow> bool" where
  "has0xPrefix s \<longleftrightarrow> length s \<ge> 2 \<and> s ! 0 = CHR ''0'' \<and> (s ! 1 = CHR ''x'' \<or> s ! 1 = CHR ''X'')"

definition FromHex :: "string \<Rightarrow> bytes" where
  "FromHex s =
     (let s1 = (if has0xPrefix s then drop 2 s else s);
          s2 = (if length s1 mod 2 = 1 then CHR ''0'' # s1 else s1) in
      Hex2Bytes s2)"

text \<open>\<^verbatim>\<open>SetBytes\<close> of an array of \<open>n\<close> zero bytes: crop from the left, pad on the left.\<close>

definition set_bytes :: "nat \<Rightarrow> bytes \<Rightarrow> bytes" where
  "set_bytes n b =
     (let b1 = (if length b > n then drop (length b - n) b else b) in replicate (n - length b1) 0 @ b1)"

definition BytesToAddress :: "bytes \<Rightarrow> Address" where
  "BytesToAddress b = set_bytes 20 b"

definition BytesToHash :: "bytes \<Rightarrow> Hash" where
  "BytesToHash b = set_bytes 32 b"

definition HexToAddress :: "string \<Rightarrow> Address" where
  "HexToAddress s = BytesToAddress (FromHex s)"

definition HexToHash :: "string \<Rightarrow> Hash" where
  "HexToHash s = BytesToHash (FromHex s)"

definition RegistryResponseFromTuple :: "JsonAny list option \<Rightarrow> RegErr + RegistryResponse" where
  "RegistryResponseFromTuple tuple =
     (case tuple of
        None \<Rightarrow> Inl TupleNil
      | Some t \<Rightarrow>
          if length t \<noteq> 4 then Inl TupleLength
          else (case t ! 0 of
                  JFloat blockNum \<Rightarrow>
                    (case t ! 1 of
                       JString url \<Rightarrow>
                         (case t ! 2 of
                            JString gatewayAddress \<Rightarrow>
                              (case t ! 3 of
                                 JString jwtSecret \<Rightarrow>
                                   Inr \<lparr>rr_BlockNumber = blockNum, rr_Url = url,
                                        rr_GatewayAddress = HexToAddress gatewayAddress, rr_JwtSecret = HexToHash jwtSecret\<rparr>
                               | _ \<Rightarrow> Inl (BadTupleType 3))
                          | _ \<Rightarrow> Inl (BadTupleType 2))
                     | _ \<Rightarrow> Inl (BadTupleType 1))
                | _ \<Rightarrow> Inl (BadTupleType 0)))"

text \<open>The answers of the registry server to one attempt.\<close>

record RegistryRpc =
  rpc_currentGateway :: "RegErr + JsonAny list option"
  rpc_futureGateway :: "u64 \<Rightarrow> RegErr + JsonAny list option"

definition CurrentGateway :: "RegistryRpc \<Rightarrow> RegErr + RegistryResponse" where
  "CurrentGateway rpc =
     (case rpc_currentGateway rpc of Inl e \<Rightarrow> Inl e | Inr out \<Rightarrow> RegistryResponseFromTuple out)"

definition FutureGateway :: "RegistryRpc \<Rightarrow> u64 \<Rightarrow> RegErr + RegistryResponse" where
  "FutureGateway rpc n_into_future =
     (case rpc_futureGateway rpc n_into_future of Inl e \<Rightarrow> Inl e | Inr out \<Rightarrow> RegistryResponseFromTuple out)"

section \<open>The client\<close>

record RegistryClient =
  rc_gateways :: "(u64, RegistryResponse) gomap"
  rc_latestFetchedBlock :: u64

definition NewRegistryClient :: RegistryClient where
  "NewRegistryClient = \<lparr>rc_gateways = [], rc_latestFetchedBlock = 0\<rparr>"

definition GatewayForBlock :: "RegistryClient \<Rightarrow> u64 \<Rightarrow> RegErr + Address" where
  "GatewayForBlock r blockNumber =
     (case gm_get (rc_gateways r) blockNumber of
        None \<Rightarrow> Inl (NotCached blockNumber (rc_latestFetchedBlock r))
      | Some gateway \<Rightarrow> Inr (rr_GatewayAddress gateway))"

definition updateGatewayInfo :: "RegistryResponse list \<Rightarrow> RegistryClient \<Rightarrow> RegistryClient" where
  "updateGatewayInfo results r =
     foldl (\<lambda>r result.
        \<lparr>rc_gateways = gm_put (rr_BlockNumber result) result (rc_gateways r),
         rc_latestFetchedBlock =
           (if rr_BlockNumber result > rc_latestFetchedBlock r then rr_BlockNumber result else rc_latestFetchedBlock r)\<rparr>) r results"

text \<open>\<open>None\<close> is the panic of the slice when \<open>targetSize\<close> exceeds the number of entries.\<close>

definition cleanupOldGateways :: "nat \<Rightarrow> nat \<Rightarrow> RegistryClient \<Rightarrow> RegistryClient option" where
  "cleanupOldGateways maxSize targetSize r =
     (if length (rc_gateways r) \<le> maxSize then Some r
      else
        let blockNumbers = sort (map fst (rc_gateways r)) in
        if targetSize \<le> length blockNumbers
        then Some (r\<lparr>rc_gateways := foldl (\<lambda>g num. gm_del num g) (rc_gateways r)
                       (take (length blockNumbers - targetSize) blockNumbers)\<rparr>)
        else None)"

fun future_gateways :: "RegistryRpc \<Rightarrow> nat list \<Rightarrow> RegErr + RegistryResponse list" where
  "future_gateways rpc [] = Inr []"
| "future_gateways rpc (i # is) =
     (case FutureGateway rpc (of_nat i) of
        Inl e \<Rightarrow> Inl e
      | Inr gateway \<Rightarrow> map_sum id (\<lambda>gs. gateway # gs) (future_gateways rpc is))"

text \<open>
  The results of one attempt are collected in a slice of length \<^verbatim>\<open>n+1\<close>, which wraps at \<open>2 ^ 64\<close>.
  \<open>None\<close> is a panic: \<^verbatim>\<open>make\<close> refuses a slice of pointers that does not fit the \<open>2 ^ 48\<close> bytes of
  address space of the runtime on 64-bit platforms, and an empty slice has no entry for the current
  gateway. So the loop over the next \<open>n\<close> gateways runs only with \<^verbatim>\<open>n+1\<close> not wrapped, where it ends
  and its index is in range.
\<close>

definition maxSliceLen :: nat where
  "maxSliceLen = 2 ^ 48 div 8"

definition fetch_answers :: "RegistryRpc \<Rightarrow> u64 \<Rightarrow> (RegErr + RegistryResponse list) option" where
  "fetch_answers rpc n =
     (if unat (n + 1) > maxSliceLen then None
      else (case CurrentGateway rpc of
              Inl e \<Rightarrow> Some (Inl e)
            | Inr current \<Rightarrow>
                if n + 1 = 0 then None
                else Some (map_sum id (\<lambda>gs. current # gs) (future_gateways rpc [1..<unat n + 1]))))"

text \<open>The error, if any, and the client afterwards.\<close>

definition fetchNextNGatewaysSingle ::
    "RegistryRpc \<Rightarrow> u64 \<Rightarrow> RegistryClient \<Rightarrow> (RegErr option \<times> RegistryClient) option" where
  "fetchNextNGatewaysSingle rpc n r =
     (case fetch_answers rpc n of
        None \<Rightarrow> None
      | Some (Inl e) \<Rightarrow> Some (Some e, r)
      | Some (Inr gateways) \<Rightarrow> map_option (\<lambda>r'. (None, r')) (cleanupOldGateways 100 50 (updateGatewayInfo gateways r)))"

text \<open>\<open>rpcs k\<close> are the answers to attempt \<open>k\<close>.\<close>

function fetch_loop ::
    "(nat \<Rightarrow> RegistryRpc) \<Rightarrow> u64 \<Rightarrow> u64 \<Rightarrow> u64 \<Rightarrow> RegistryClient \<Rightarrow> (RegErr option \<times> RegistryClient) option" where
  "fetch_loop rpcs n maxRetries attempt r =
     (case fetchNextNGatewaysSingle (rpcs (unat attempt)) n r of
        None \<Rightarrow> None
      | Some (None, r') \<Rightarrow> Some (None, r')
      | Some (Some e, r') \<Rightarrow>
          if attempt \<ge> maxRetries then Some (Some (RetriesExhausted e), r')
          else fetch_loop rpcs n maxRetries (attempt + 1) r')"
  by pat_completeness auto
termination
proof (relation "measure (\<lambda>(_, _, maxRetries, attempt, _). unat maxRetries - unat attempt)", goal_cases)
  case (2 rpcs n maxRetries attempt r)
  then have lt: "unat attempt < unat maxRetries" by (simp add: word_le_nat_alt not_le)
  then have "unat attempt + unat (1 :: u64) < 2 ^ LENGTH(64)" using unsigned_less [of maxRetries, where ?'a = nat] by simp
  then have "unat (attempt + 1) = unat attempt + unat (1 :: u64)" by (rule unat_add_lem [THEN iffD1])
  then show ?case using lt by simp
qed simp

declare fetch_loop.simps [simp del]

definition FetchNextNGateways ::
    "(nat \<Rightarrow> RegistryRpc) \<Rightarrow> u64 \<Rightarrow> u64 \<Rightarrow> RegistryClient \<Rightarrow> (RegErr option \<times> RegistryClient) option" where
  "FetchNextNGateways rpcs n maxRetries r = fetch_loop rpcs n maxRetries 0 r"

end
