(* ===== verification/Gossip.thy ===== *)
theory Gossip
  imports Ssz Registry Preconf Rollup_Config
begin

text \<open>
  The gossip of blocks and preconfirmations, \<^verbatim>\<open>op-node/p2p/gossip.go\<close> and \<^verbatim>\<open>signer.go\<close>, the sequencer key
  of \<^verbatim>\<open>op-node/node/runtime_config.go\<close>, the \<^verbatim>\<open>based\<close> RPC of \<^verbatim>\<open>op-node/node/api.go\<close> and the handlers of
  \<^verbatim>\<open>op-node/node/node.go\<close> that feed the preconfirmation state. Cryptography, compression, the generic SSZ
  library, tries and the LRU cache are parameters.
\<close>

section \<open>Parameters\<close>

text \<open>The header that \<^verbatim>\<open>CheckBlockHash\<close> builds.\<close>

record PayloadHeader =
  ph_ParentHash :: Hash
  ph_Coinbase :: Address
  ph_Root :: Hash
  ph_TxHash :: Hash
  ph_ReceiptHash :: Hash
  ph_Bloom :: bytes
  ph_Number :: int
  ph_GasLimit :: u64
  ph_GasUsed :: u64
  ph_Time :: u64
  ph_Extra :: bytes
  ph_MixDigest :: Hash
  ph_BaseFee :: Uint256Quantity
  ph_WithdrawalsHash :: "Hash option"
  ph_ParentBeaconRoot :: "Hash option"

record ('pub, 'lru) P2POps =
  SigToPub :: "bytes \<Rightarrow> bytes \<Rightarrow> 'pub option"
  PubkeyToAddress :: "'pub \<Rightarrow> Address"
  Keccak256 :: "bytes \<Rightarrow> Hash"
  Sha256 :: "bytes \<Rightarrow> Hash"
  snappy_DecodedLen :: "bytes \<Rightarrow> nat option"
  snappy_Decode :: "bytes \<Rightarrow> bytes option"
  snappy_Encode :: "bytes \<Rightarrow> bytes"
  lru_Get :: "'lru \<Rightarrow> u64 \<Rightarrow> nat option \<times> 'lru"
  lru_Add :: "'lru \<Rightarrow> u64 \<Rightarrow> nat \<Rightarrow> 'lru"
  DeriveSha_txs :: "bytes list \<Rightarrow> Hash"
  DeriveSha_withdrawals :: "Withdrawal list \<Rightarrow> Hash"
  Header_Hash :: "PayloadHeader \<Rightarrow> Hash"
  DecodeNewFrag :: "u32 \<Rightarrow> bytes \<Rightarrow> SszErr + NewFrag \<times> bytes"
  DecodeSeal :: "u32 \<Rightarrow> bytes \<Rightarrow> SszErr + Seal \<times> bytes"
  DecodeEnv :: "u32 \<Rightarrow> bytes \<Rightarrow> SszErr + Env \<times> bytes"
  EncodeNewFrag :: "NewFrag \<Rightarrow> SszErr + bytes"
  EncodeSeal :: "Seal \<Rightarrow> SszErr + bytes"
  EncodeEnv :: "Env \<Rightarrow> SszErr + bytes"
  HashNewFrag :: "NewFrag \<Rightarrow> Hash"
  HashSeal :: "Seal \<Rightarrow> Hash"
  HashEnv :: "Env \<Rightarrow> Hash"

datatype ValidationResult = ValidationAccept | ValidationIgnore | ValidationReject

definition guardGossipValidator :: "(ValidationResult \<times> 'a) option \<Rightarrow> 'a \<Rightarrow> ValidationResult \<times> 'a" where
  "guardGossipValidator result st = (case result of None \<Rightarrow> (ValidationReject, st) | Some x \<Rightarrow> x)"

section \<open>Preconfirmations\<close>

text \<open>The recovery byte is normalised in the message itself, which the signature slice aliases.\<close>

definition normalize_sig :: "bytes \<Rightarrow> bytes" where
  "normalize_sig s = (if s ! 64 = 27 \<or> s ! 64 = 28 then s[64 := s ! 64 - 27] else s)"

definition verifyGatewaySignature :: "('pub, 'lru) P2POps \<Rightarrow> bytes \<Rightarrow> bytes \<Rightarrow> Address \<Rightarrow> ValidationResult \<times> bytes" where
  "verifyGatewaySignature ops signatureBytes messageBytes expectedSigner =
     (if length signatureBytes \<noteq> 65 then (ValidationReject, signatureBytes)
      else
        let s = normalize_sig signatureBytes in
        case SigToPub ops messageBytes s of
          None \<Rightarrow> (ValidationReject, s)
        | Some pub \<Rightarrow>
            if PubkeyToAddress ops pub \<noteq> expectedSigner then (ValidationReject, s) else (ValidationAccept, s))"

text \<open>The validators give the result and, on acceptance, the parsed message.\<close>

definition BuildNewFragValidator ::
    "('pub, 'lru) P2POps \<Rightarrow> RegistryClient \<Rightarrow> bytes \<Rightarrow> ValidationResult \<times> SignedNewFrag option" where
  "BuildNewFragValidator ops reg data =
     (case SignedNewFrag_UnmarshalSSZ (DecodeNewFrag ops) (of_nat (length data)) data of
        Inl _ \<Rightarrow> (ValidationReject, None)
      | Inr signedFrag \<Rightarrow>
          (case GatewayForBlock reg (frag_BlockNumber (sf_Frag signedFrag)) of
             Inl _ \<Rightarrow> (ValidationReject, None)
           | Inr expectedSigner \<Rightarrow>
               (case verifyGatewaySignature ops (sf_Signature signedFrag)
                       (NewFrag_Root (Sha256 ops) (HashNewFrag ops) (sf_Frag signedFrag)) expectedSigner of
                  (ValidationAccept, s) \<Rightarrow> (ValidationAccept, Some (signedFrag\<lparr>sf_Signature := s\<rparr>))
                | (result, _) \<Rightarrow> (result, None))))"

definition BuildSealFragValidator ::
    "('pub, 'lru) P2POps \<Rightarrow> RegistryClient \<Rightarrow> bytes \<Rightarrow> ValidationResult \<times> SignedSeal option" where
  "BuildSealFragValidator ops reg data =
     (case SignedSeal_UnmarshalSSZ (DecodeSeal ops) (of_nat (length data)) data of
        Inl _ \<Rightarrow> (ValidationReject, None)
      | Inr signedSeal \<Rightarrow>
          (case GatewayForBlock reg (seal_BlockNumber (ss_Seal signedSeal)) of
             Inl _ \<Rightarrow> (ValidationReject, None)
           | Inr expectedSigner \<Rightarrow>
               (case verifyGatewaySignature ops (ss_Signature signedSeal)
                       (Seal_Root (Sha256 ops) (HashSeal ops) (ss_Seal signedSeal)) expectedSigner of
                  (ValidationAccept, s) \<Rightarrow> (ValidationAccept, Some (signedSeal\<lparr>ss_Signature := s\<rparr>))
                | (result, _) \<Rightarrow> (result, None))))"

definition BuildEnvValidator ::
    "('pub, 'lru) P2POps \<Rightarrow> RegistryClient \<Rightarrow> bytes \<Rightarrow> ValidationResult \<times> SignedEnv option" where
  "BuildEnvValidator ops reg data =
     (case SignedEnv_UnmarshalSSZ (DecodeEnv ops) (of_nat (length data)) data of
        Inl _ \<Rightarrow> (ValidationReject, None)
      | Inr signedEnv \<Rightarrow>
          (case GatewayForBlock reg (env_Number (se_Env signedEnv)) of
             Inl _ \<Rightarrow> (ValidationReject, None)
           | Inr expectedSigner \<Rightarrow>
               (case verifyGatewaySignature ops (se_Signature signedEnv)
                       (Env_Root (Sha256 ops) (HashEnv ops) (se_Env signedEnv)) expectedSigner of
                  (ValidationAccept, s) \<Rightarrow> (ValidationAccept, Some (signedEnv\<lparr>se_Signature := s\<rparr>))
                | (result, _) \<Rightarrow> (result, None))))"

text \<open>The RPC entry points: an error, or the bytes that are published.\<close>

datatype ApiErr = NoExpectedSigner RegErr | SignatureValidationFailed

definition PublishNewFrag :: "('pub, 'lru) P2POps \<Rightarrow> SignedNewFrag \<Rightarrow> bytes" where
  "PublishNewFrag ops m = (case SignedNewFrag_MarshalSSZ (EncodeNewFrag ops) m of Inl _ \<Rightarrow> sf_Signature m | Inr b \<Rightarrow> b)"

definition PublishSealFrag :: "('pub, 'lru) P2POps \<Rightarrow> SignedSeal \<Rightarrow> bytes" where
  "PublishSealFrag ops m = (case SignedSeal_MarshalSSZ (EncodeSeal ops) m of Inl _ \<Rightarrow> ss_Signature m | Inr b \<Rightarrow> b)"

definition PublishEnv :: "('pub, 'lru) P2POps \<Rightarrow> SignedEnv \<Rightarrow> bytes" where
  "PublishEnv ops m = (case SignedEnv_MarshalSSZ (EncodeEnv ops) m of Inl _ \<Rightarrow> se_Signature m | Inr b \<Rightarrow> b)"

definition api_NewFrag :: "('pub, 'lru) P2POps \<Rightarrow> RegistryClient \<Rightarrow> SignedNewFrag \<Rightarrow> ApiErr + bytes" where
  "api_NewFrag ops reg m =
     (case GatewayForBlock reg (frag_BlockNumber (sf_Frag m)) of
        Inl e \<Rightarrow> Inl (NoExpectedSigner e)
      | Inr expectedSigner \<Rightarrow>
          (case verifyGatewaySignature ops (sf_Signature m) (NewFrag_Root (Sha256 ops) (HashNewFrag ops) (sf_Frag m)) expectedSigner of
             (ValidationAccept, s) \<Rightarrow> Inr (PublishNewFrag ops (m\<lparr>sf_Signature := s\<rparr>))
           | _ \<Rightarrow> Inl SignatureValidationFailed))"

definition api_SealFrag :: "('pub, 'lru) P2POps \<Rightarrow> RegistryClient \<Rightarrow> SignedSeal \<Rightarrow> ApiErr + bytes" where
  "api_SealFrag ops reg m =
     (case GatewayForBlock reg (seal_BlockNumber (ss_Seal m)) of
        Inl e \<Rightarrow> Inl (NoExpectedSigner e)
      | Inr expectedSigner \<Rightarrow>
          (case verifyGatewaySignature ops (ss_Signature m) (Seal_Root (Sha256 ops) (HashSeal ops) (ss_Seal m)) expectedSigner of
             (ValidationAccept, s) \<Rightarrow> Inr (PublishSealFrag ops (m\<lparr>ss_Signature := s\<rparr>))
           | _ \<Rightarrow> Inl SignatureValidationFailed))"

definition api_Env :: "('pub, 'lru) P2POps \<Rightarrow> RegistryClient \<Rightarrow> SignedEnv \<Rightarrow> ApiErr + bytes" where
  "api_Env ops reg m =
     (case GatewayForBlock reg (env_Number (se_Env m)) of
        Inl e \<Rightarrow> Inl (NoExpectedSigner e)
      | Inr expectedSigner \<Rightarrow>
          (case verifyGatewaySignature ops (se_Signature m) (Env_Root (Sha256 ops) (HashEnv ops) (se_Env m)) expectedSigner of
             (ValidationAccept, s) \<Rightarrow> Inr (PublishEnv ops (m\<lparr>se_Signature := s\<rparr>))
           | _ \<Rightarrow> Inl SignatureValidationFailed))"

section \<open>Signing and the sequencer key\<close>

definition SigningDomainBlocksV1 :: bytes where
  "SigningDomainBlocksV1 = replicate 32 0"

text \<open>A chain ID of more than 256 bits is an error; the sign is dropped by \<^verbatim>\<open>FillBytes\<close>.\<close>

definition SigningHash :: "('pub, 'lru) P2POps \<Rightarrow> bytes \<Rightarrow> int \<Rightarrow> bytes \<Rightarrow> Hash option" where
  "SigningHash ops domain chainID payloadBytes =
     (if nat \<bar>chainID\<bar> \<ge> 2 ^ 256 then None
      else Some (Keccak256 ops (domain @ be_bytes 32 (nat \<bar>chainID\<bar>) @ Keccak256 ops payloadBytes)))"

text \<open>A missing chain ID is a nil pointer; configurations with one do not pass \<^verbatim>\<open>Check\<close>.\<close>

definition BlockSigningHash :: "('pub, 'lru) P2POps \<Rightarrow> Config \<Rightarrow> bytes \<Rightarrow> Hash option option" where
  "BlockSigningHash ops cfg payloadBytes =
     map_option (\<lambda>chainID. SigningHash ops SigningDomainBlocksV1 chainID payloadBytes) (cfg_L2ChainID cfg)"

record RuntimeConfig =
  run_l1Ref :: L1BlockRef
  run_p2pBlockSignerAddr :: Address
  run_recommended :: Hash
  run_required :: Hash

definition UnsafeBlockSignerAddressSystemConfigStorageSlot :: Hash where
  "UnsafeBlockSignerAddressSystemConfigStorageSlot = HexToHash ''0x65a7ed542fb37fe237fdfbdd70b31598523fe5b32879e307bae27a0bd9581c08''"

definition RequiredProtocolVersionStorageSlot :: Hash where
  "RequiredProtocolVersionStorageSlot = HexToHash ''0x4aaefe95bd84fd3f32700cf3b7566bc944b73138e41958b5785826df2aecace0''"

definition RecommendedProtocolVersionStorageSlot :: Hash where
  "RecommendedProtocolVersionStorageSlot = HexToHash ''0xe314dfc40f0025322aacc0ba8ef420b62fb3b702cf01e0cdf3d829117ac2ff1a''"

text \<open>\<open>readStorageAt address slot blockHash\<close> is the L1 client.\<close>

definition RuntimeConfig_Load ::
    "(Address \<Rightarrow> Hash \<Rightarrow> Hash \<Rightarrow> string + Hash) \<Rightarrow> Config \<Rightarrow> L1BlockRef \<Rightarrow> RuntimeConfig \<Rightarrow> string option \<times> RuntimeConfig" where
  "RuntimeConfig_Load readStorageAt cfg l1Ref r =
     (case readStorageAt (L1SystemConfigAddress cfg) UnsafeBlockSignerAddressSystemConfigStorageSlot (l1_Hash l1Ref) of
        Inl e \<Rightarrow> (Some e, r)
      | Inr p2pSignerVal \<Rightarrow>
          (let store = (\<lambda>required recommended.
                 (None, r\<lparr>run_l1Ref := l1Ref, run_p2pBlockSignerAddr := BytesToAddress p2pSignerVal,
                          run_required := required, run_recommended := recommended\<rparr>)) in
           if ProtocolVersionsAddress cfg \<noteq> zero_address
           then (case readStorageAt (ProtocolVersionsAddress cfg) RequiredProtocolVersionStorageSlot (l1_Hash l1Ref) of
                   Inl e \<Rightarrow> (Some e, r)
                 | Inr requiredVal \<Rightarrow>
                     (case readStorageAt (ProtocolVersionsAddress cfg) RecommendedProtocolVersionStorageSlot (l1_Hash l1Ref) of
                        Inl e \<Rightarrow> (Some e, r)
                      | Inr recommendedVal \<Rightarrow> store requiredVal recommendedVal))
           else store zero_hash zero_hash))"

section \<open>Blocks\<close>

definition CanyonBlock :: "ExecutionPayload \<Rightarrow> bool" where
  "CanyonBlock p \<longleftrightarrow> ep_Withdrawals p \<noteq> None"

definition CheckBlockHash :: "('pub, 'lru) P2POps \<Rightarrow> Hash option \<Rightarrow> ExecutionPayload \<Rightarrow> Hash \<times> bool" where
  "CheckBlockHash ops parentBeaconBlockRoot payload =
     (let header =
        \<lparr>ph_ParentHash = ep_ParentHash payload, ph_Coinbase = ep_FeeRecipient payload, ph_Root = ep_StateRoot payload,
         ph_TxHash = DeriveSha_txs ops (ep_Transactions payload), ph_ReceiptHash = ep_ReceiptsRoot payload,
         ph_Bloom = ep_LogsBloom payload, ph_Number = sint (ep_BlockNumber payload),
         ph_GasLimit = ep_GasLimit payload, ph_GasUsed = ep_GasUsed payload, ph_Time = ep_Timestamp payload,
         ph_Extra = ep_ExtraData payload, ph_MixDigest = ep_PrevRandao payload, ph_BaseFee = ep_BaseFeePerGas payload,
         ph_WithdrawalsHash = map_option (DeriveSha_withdrawals ops) (ep_Withdrawals payload),
         ph_ParentBeaconRoot = parentBeaconBlockRoot\<rparr>;
          blockHash = Header_Hash ops header in
      (blockHash, blockHash = ep_BlockHash payload))"

definition verifyBlockSignature ::
    "('pub, 'lru) P2POps \<Rightarrow> Config \<Rightarrow> RuntimeConfig \<Rightarrow> bytes \<Rightarrow> bytes \<Rightarrow> ValidationResult option" where
  "verifyBlockSignature ops cfg runCfg signatureBytes payloadBytes =
     (case BlockSigningHash ops cfg payloadBytes of
        None \<Rightarrow> None
      | Some None \<Rightarrow> Some ValidationReject
      | Some (Some signingHash) \<Rightarrow>
          (case SigToPub ops signingHash signatureBytes of
             None \<Rightarrow> Some ValidationReject
           | Some pub \<Rightarrow>
               if run_p2pBlockSignerAddr runCfg = zero_address then Some ValidationIgnore
               else if PubkeyToAddress ops pub \<noteq> run_p2pBlockSignerAddr runCfg then Some ValidationReject
               else Some ValidationAccept))"

definition maxGossipSize :: nat where
  "maxGossipSize = 10 * 2 ^ 20"

definition minGossipSize :: nat where
  "minGossipSize = 66"

text \<open>
  The hashes seen per block height: the cache maps a height to a pointer into \<open>bv_heap\<close>, where
  \<^verbatim>\<open>seenBlocks\<close> objects live on after eviction.
\<close>

record 'lru BlocksValidator =
  bv_lru :: 'lru
  bv_heap :: "Hash list list"

definition hasSeen :: "Hash list \<Rightarrow> Hash \<Rightarrow> nat \<times> bool" where
  "hasSeen sb h = (length sb, h \<in> set sb)"

definition markSeen :: "Hash list \<Rightarrow> Hash \<Rightarrow> Hash list" where
  "markSeen sb h = sb @ [h]"

text \<open>The checks of the payload, with the reason for a rejection.\<close>

datatype RejectReason =
  TooOld | TooNew | BadBlockHash | V1Withdrawals | MissingWithdrawals | NonEmptyWithdrawals | UnexpectedBlobGas
| UnexpectedExcessBlobGas | NonZeroBlobGas | NonZeroExcessBlobGas | MissingBeaconRoot

definition check_payload ::
    "('pub, 'lru) P2POps \<Rightarrow> BlockVersion \<Rightarrow> u64 \<Rightarrow> Hash option \<Rightarrow> ExecutionPayload \<Rightarrow> RejectReason option" where
  "check_payload ops v now beaconRoot p =
     (if ep_Timestamp p < now - 60 then Some TooOld
      else if ep_Timestamp p > now + 5 then Some TooNew
      else if \<not> snd (CheckBlockHash ops beaconRoot p) then Some BadBlockHash
      else if \<not> HasWithdrawals v \<and> ep_Withdrawals p \<noteq> None then Some V1Withdrawals
      else if HasWithdrawals v \<and> ep_Withdrawals p = None then Some MissingWithdrawals
      else if HasWithdrawals v \<and> ep_Withdrawals p \<noteq> Some [] then Some NonEmptyWithdrawals
      else if \<not> HasBlobProperties v \<and> ep_BlobGasUsed p \<noteq> None then Some UnexpectedBlobGas
      else if \<not> HasBlobProperties v \<and> ep_ExcessBlobGas p \<noteq> None then Some UnexpectedExcessBlobGas
      else if HasBlobProperties v \<and> ep_BlobGasUsed p \<noteq> Some 0 then Some NonZeroBlobGas
      else if HasBlobProperties v \<and> ep_ExcessBlobGas p \<noteq> Some 0 then Some NonZeroExcessBlobGas
      else if HasParentBeaconBlockRoot v \<and> beaconRoot = None then Some MissingBeaconRoot
      else None)"

text \<open>The envelope in the payload bytes: \<open>None\<close> is a panic, \<open>Inl\<close> an invalid encoding.\<close>

definition decode_block ::
    "BlockVersion \<Rightarrow> bytes \<Rightarrow> (SszErr + ExecutionPayloadEnvelope) option" where
  "decode_block v payloadBytes =
     (if v = BlockV3
      then map_option (map_sum id fst)
             (Envelope_UnmarshalSSZ (of_nat (length payloadBytes)) payloadBytes
                \<lparr>env_ParentBeaconRoot = None, env_ExecutionPayload = None\<rparr>)
      else map_option (map_sum id (\<lambda>(payload, _). \<lparr>env_ParentBeaconRoot = None, env_ExecutionPayload = Some payload\<rparr>))
             (UnmarshalSSZ v (of_nat (length payloadBytes)) payloadBytes zero_payload))"

definition note_seen ::
    "('pub, 'lru) P2POps \<Rightarrow> ExecutionPayload \<Rightarrow> 'lru BlocksValidator \<Rightarrow> ValidationResult \<times> 'lru BlocksValidator" where
  "note_seen ops p st =
     (case lru_Get ops (bv_lru st) (ep_BlockNumber p) of
        (found, lru1) \<Rightarrow>
          let (ref, lru2, heap) =
            (case found of
               Some ref \<Rightarrow> (ref, lru1, bv_heap st)
             | None \<Rightarrow>
                 (length (bv_heap st), lru_Add ops lru1 (ep_BlockNumber p) (length (bv_heap st)), bv_heap st @ [[]])) in
          let seen = heap ! ref; st1 = \<lparr>bv_lru = lru2, bv_heap = heap\<rparr>; (count, already) = hasSeen seen (ep_BlockHash p) in
          if count > 5 then (ValidationReject, st1)
          else if already then (ValidationIgnore, st1)
          else (ValidationAccept, st1\<lparr>bv_heap := heap[ref := markSeen seen (ep_BlockHash p)]\<rparr>))"

text \<open>
  The whole validator: \<open>now\<close> is the clock. The result carries the envelope on acceptance; \<open>None\<close> is a panic.
\<close>

definition BuildBlocksValidator ::
    "('pub, 'lru) P2POps \<Rightarrow> Config \<Rightarrow> RuntimeConfig \<Rightarrow> BlockVersion \<Rightarrow> u64 \<Rightarrow> bytes \<Rightarrow> 'lru BlocksValidator \<Rightarrow>
     (ValidationResult \<times> ExecutionPayloadEnvelope option \<times> 'lru BlocksValidator) option" where
  "BuildBlocksValidator ops cfg runCfg v now msg st =
     (case snappy_DecodedLen ops msg of
        None \<Rightarrow> Some (ValidationReject, None, st)
      | Some outLen \<Rightarrow>
          if outLen > maxGossipSize \<or> outLen < minGossipSize then Some (ValidationReject, None, st)
          else (case snappy_Decode ops msg of
                  None \<Rightarrow> Some (ValidationReject, None, st)
                | Some data \<Rightarrow>
                    if length data < 65 then None
                    else (case verifyBlockSignature ops cfg runCfg (take 65 data) (drop 65 data) of
                            None \<Rightarrow> None
                          | Some ValidationAccept \<Rightarrow>
                              (case decode_block v (drop 65 data) of
                                 None \<Rightarrow> None
                               | Some (Inl _) \<Rightarrow> Some (ValidationReject, None, st)
                               | Some (Inr envelope) \<Rightarrow>
                                   (case env_ExecutionPayload envelope of
                                      None \<Rightarrow> None
                                    | Some p \<Rightarrow>
                                        if check_payload ops v now (env_ParentBeaconRoot envelope) p \<noteq> None
                                        then Some (ValidationReject, None, st)
                                        else (case note_seen ops p st of
                                                (ValidationAccept, st1) \<Rightarrow> Some (ValidationAccept, Some envelope, st1)
                                              | (result, st1) \<Rightarrow> Some (result, None, st1))))
                          | Some result \<Rightarrow> Some (result, None, st))))"

text \<open>
  Publishing: the topic version and the message. \<open>sign domain chainID bytes\<close> is the signer, \<open>pool\<close> the
  buffer of the payload pool.
\<close>

definition PublishL2Payload ::
    "('pub, 'lru) P2POps \<Rightarrow> Config \<Rightarrow> (bytes \<Rightarrow> int \<Rightarrow> bytes \<Rightarrow> bytes option) \<Rightarrow> bytes \<Rightarrow> ExecutionPayloadEnvelope \<Rightarrow>
     (SszErr + BlockVersion \<times> bytes) option" where
  "PublishL2Payload ops cfg sign pool envelope =
     (case (env_ExecutionPayload envelope, cfg_L2ChainID cfg) of
        (Some p, Some chainID) \<Rightarrow>
          (case (case env_ParentBeaconRoot envelope of
                   Some _ \<Rightarrow> Envelope_MarshalSSZ pool envelope
                 | None \<Rightarrow> MarshalSSZ pool p) of
             None \<Rightarrow> None
           | Some (Inl e) \<Rightarrow> Some (Inl e)
           | Some (Inr payloadData) \<Rightarrow>
               (case sign SigningDomainBlocksV1 chainID payloadData of
                  None \<Rightarrow> Some (Inl (LibraryErr ''sign''))
                | Some sig \<Rightarrow>
                    (let out = snappy_Encode ops (sig @ payloadData) in
                     if IsEcotone cfg (ep_Timestamp p) then Some (Inr (BlockV3, out))
                     else if IsCanyon cfg (ep_Timestamp p) then Some (Inr (BlockV2, out))
                     else Some (Inr (BlockV1, out)))))
      | _ \<Rightarrow> None)"

section \<open>The node\<close>

text \<open>
  What reaches the preconfirmation state: gossip messages that the validators accept, in the order
  they are handled, while fetches change the registry cache in between.
\<close>

datatype NodeEvent =
  GossipFrag bytes | GossipSeal bytes | GossipEnv bytes | NodeL2Block L2BlockRef | FetchGateways "nat \<Rightarrow> RegistryRpc"

record Node =
  nd_registry :: RegistryClient
  nd_inputs :: "PreconfInput list"

definition OnNewFrag :: "SignedNewFrag \<Rightarrow> Node \<Rightarrow> Node" where
  "OnNewFrag frag n = n\<lparr>nd_inputs := nd_inputs n @ [Msg (FragMsg frag)]\<rparr>"

definition OnSealFrag :: "SignedSeal \<Rightarrow> Node \<Rightarrow> Node" where
  "OnSealFrag seal n = n\<lparr>nd_inputs := nd_inputs n @ [Msg (SealMsg seal)]\<rparr>"

definition OnEnv :: "SignedEnv \<Rightarrow> Node \<Rightarrow> Node" where
  "OnEnv env n = n\<lparr>nd_inputs := nd_inputs n @ [Msg (EnvMsg env)]\<rparr>"

fun node_step :: "('pub, 'lru) P2POps \<Rightarrow> Node \<Rightarrow> NodeEvent \<Rightarrow> Node" where
  "node_step ops n (GossipFrag data) =
     (case BuildNewFragValidator ops (nd_registry n) data of (_, Some frag) \<Rightarrow> OnNewFrag frag n | _ \<Rightarrow> n)"
| "node_step ops n (GossipSeal data) =
     (case BuildSealFragValidator ops (nd_registry n) data of (_, Some seal) \<Rightarrow> OnSealFrag seal n | _ \<Rightarrow> n)"
| "node_step ops n (GossipEnv data) =
     (case BuildEnvValidator ops (nd_registry n) data of (_, Some env) \<Rightarrow> OnEnv env n | _ \<Rightarrow> n)"
| "node_step ops n (NodeL2Block b) = n\<lparr>nd_inputs := nd_inputs n @ [L2Block b]\<rparr>"
| "node_step ops n (FetchGateways rpcs) =
     (case FetchNextNGateways rpcs 2 3 (nd_registry n) of
        None \<Rightarrow> n
      | Some (_, reg) \<Rightarrow> n\<lparr>nd_registry := reg\<rparr>)"

definition NewNode :: Node where
  "NewNode = \<lparr>nd_registry = NewRegistryClient, nd_inputs = []\<rparr>"

end
