(* ===== verification/Ssz_Proofs.thy ===== *)
theory Ssz_Proofs
  imports Ssz
begin

text \<open>
  The payload codec against a reference encoding by concatenation: the buffer algorithm computes it
  whatever the pooled buffer held, and the decoder accepts exactly the reference encodings, but for one
  gap in the transactions section.
\<close>

section \<open>Reference encoding\<close>

fun tx_offsets :: "nat \<Rightarrow> bytes list \<Rightarrow> bytes" where
  "tx_offsets n [] = []"
| "tx_offsets n (tx # txs) = PutUint32LE (of_nat n) @ tx_offsets (n + length tx) txs"

definition tx_section :: "bytes list \<Rightarrow> bytes" where
  "tx_section txs = tx_offsets (4 * length txs) txs @ concat txs"

definition wd_bytes :: "Withdrawal \<Rightarrow> bytes" where
  "wd_bytes w = PutUint64LE (wd_Index w) @ PutUint64LE (wd_Validator w) @ wd_Address w @ PutUint64LE (wd_Amount w)"

definition wd_section :: "ExecutionPayload \<Rightarrow> bytes" where
  "wd_section p = concat (map wd_bytes (case ep_Withdrawals p of None \<Rightarrow> [] | Some ws \<Rightarrow> ws))"

text \<open>The fixed part, given the length of the transactions section.\<close>

definition head_fields :: "BlockVersion \<Rightarrow> ExecutionPayload \<Rightarrow> nat \<Rightarrow> bytes list" where
  "head_fields v p n =
     (let fixedSize = executionPayloadFixedPart v; txOff = fixedSize + of_nat (length (ep_ExtraData p)) in
      [ep_ParentHash p, ep_FeeRecipient p, ep_StateRoot p, ep_ReceiptsRoot p, ep_LogsBloom p, ep_PrevRandao p,
       PutUint64LE (ep_BlockNumber p), PutUint64LE (ep_GasLimit p), PutUint64LE (ep_GasUsed p),
       PutUint64LE (ep_Timestamp p), PutUint32LE fixedSize, marshalBytes32LE (ep_BaseFeePerGas p), ep_BlockHash p,
       PutUint32LE txOff] @
      (if HasWithdrawals v then [PutUint32LE (txOff + of_nat n)] else []) @
      (if v = BlockV3 then [PutUint64LE (the (ep_BlobGasUsed p)), PutUint64LE (the (ep_ExcessBlobGas p))] else []))"

definition payload_with :: "BlockVersion \<Rightarrow> ExecutionPayload \<Rightarrow> bytes \<Rightarrow> bytes" where
  "payload_with v p txs = concat (head_fields v p (length txs)) @ ep_ExtraData p @ txs @ wd_section p"

definition payload_bytes :: "ExecutionPayload \<Rightarrow> bytes" where
  "payload_bytes p = payload_with (inferVersion p) p (tx_section (ep_Transactions p))"

text \<open>The widths of the Go arrays, and the fields that go with a version.\<close>

definition array_widths :: "ExecutionPayload \<Rightarrow> bool" where
  "array_widths p \<longleftrightarrow>
     length (ep_ParentHash p) = 32 \<and> length (ep_FeeRecipient p) = 20 \<and> length (ep_StateRoot p) = 32 \<and>
     length (ep_ReceiptsRoot p) = 32 \<and> length (ep_LogsBloom p) = 256 \<and> length (ep_PrevRandao p) = 32 \<and>
     length (ep_BlockHash p) = 32 \<and>
     list_all (\<lambda>w. length (wd_Address w) = 20) (case ep_Withdrawals p of None \<Rightarrow> [] | Some ws \<Rightarrow> ws)"

definition version_fields :: "BlockVersion \<Rightarrow> ExecutionPayload \<Rightarrow> bool" where
  "version_fields v p \<longleftrightarrow>
     (ep_Withdrawals p \<noteq> None) = HasWithdrawals v \<and>
     (ep_BlobGasUsed p \<noteq> None) = (v = BlockV3) \<and> (ep_ExcessBlobGas p \<noteq> None) = (v = BlockV3)"

lemma version_fields_infer: "version_fields v p \<Longrightarrow> inferVersion p = v"
  by (cases v) (auto simp: version_fields_def inferVersion_def HasWithdrawals_def)

section \<open>Lengths\<close>

lemma length_tx_offsets [simp]: "length (tx_offsets n txs) = 4 * length txs"
  by (induction n txs rule: tx_offsets.induct) auto

lemma length_tx_section: "length (tx_section txs) = 4 * length txs + length (concat txs)"
  by (simp add: tx_section_def)

lemma length_wd_bytes: "length (wd_Address w) = 20 \<Longrightarrow> length (wd_bytes w) = 44"
  by (simp add: wd_bytes_def)

lemma length_marshalBytes32LE [simp]: "length (marshalBytes32LE z) = 32"
  by (cases z) simp

lemma fixed_part_nat:
  "unat blockV1FixedPart = 508" "unat blockV2FixedPart = 512" "unat blockV3FixedPart = 528"
  by (simp_all add: blockV1FixedPart_def blockV2FixedPart_def blockV3FixedPart_def)

lemma length_head:
  assumes "array_widths p"
  shows "length (concat (head_fields v p n)) = unat (executionPayloadFixedPart v)"
  using assms by (cases v) (simp_all add: head_fields_def Let_def array_widths_def HasWithdrawals_def fixed_part_nat)

lemma map_length_head:
  assumes "array_widths p"
  shows "map length (head_fields v p n) = fixed_widths v"
  using assms by (cases v) (simp_all add: head_fields_def Let_def array_widths_def HasWithdrawals_def fixed_widths_def)

lemma length_wd_section:
  "array_widths p \<Longrightarrow> length (wd_section p) = 44 * length (case ep_Withdrawals p of None \<Rightarrow> [] | Some ws \<Rightarrow> ws)"
proof -
  have "list_all (\<lambda>w. length (wd_Address w) = 20) ws \<Longrightarrow> length (concat (map wd_bytes ws)) = 44 * length ws" for ws
    by (induction ws) (auto simp: length_wd_bytes)
  then show "array_widths p \<Longrightarrow> ?thesis" by (simp add: array_widths_def wd_section_def)
qed

lemma foldl_len: "foldl (\<lambda>r tx. r + of_nat (length tx)) (a :: u32) txs = a + of_nat (length (concat txs))"
  by (induction txs arbitrary: a) (simp_all add: ac_simps)

lemma TransactionsSize_section: "TransactionsSize txs = of_nat (length (tx_section txs))"
  by (simp add: TransactionsSize_def foldl_len length_tx_section mult.commute)

lemma withdrawalSize_section:
  assumes "array_widths p"
  shows "withdrawalSize p = of_nat (length (wd_section p))"
  using length_wd_section [OF assms]
  by (cases "ep_Withdrawals p") (simp_all add: withdrawalSize_def withdrawalLen_def mult.commute)

lemma SizeSSZ_bytes:
  assumes "array_widths p"
  shows "SizeSSZ p = of_nat (length (payload_bytes p))"
  using length_head [OF assms] withdrawalSize_section [OF assms]
  by (simp add: SizeSSZ_def payload_bytes_def payload_with_def TransactionsSize_section transactionSize_def)

section \<open>The buffer algorithm\<close>

lemma buf_copy_append:
  "length pre = lo \<Longrightarrow> length mid = length src \<Longrightarrow> hi = lo + length src \<Longrightarrow>
   buf_copy lo hi src (pre @ mid @ post) = Some (pre @ src @ post)"
  by (simp add: buf_copy_def)

lemma unat_add_u32: "unat (a :: u32) + n < 2 ^ 32 \<Longrightarrow> unat (a + of_nat n) = unat a + n"
  by (simp add: unat_word_ariths unat_of_nat)

lemma unat_of_nat_u32: "n < 2 ^ 32 \<Longrightarrow> unat (of_nat n :: u32) = n"
  by (simp add: unat_of_nat)

lemma put_fields_append:
  "\<forall>(w, src) \<in> set fs. length src = unat w \<Longrightarrow> length pre = base + unat offset \<Longrightarrow>
   length mid = length (concat (map snd fs)) \<Longrightarrow> unat offset + length mid < 2 ^ 32 \<Longrightarrow>
   put_fields base fs (pre @ mid @ post, offset) = Some (pre @ concat (map snd fs) @ post, offset + of_nat (length mid))"
proof (induction fs arbitrary: pre mid offset)
  case (Cons f fs)
  obtain w src where f: "f = (w, src)" by (rule prod.exhaust)
  have w: "length src = unat w" "w = of_nat (length src)" using Cons.prems(1) f by auto
  define m1 m2 where "m1 = take (length src) mid" and "m2 = drop (length src) mid"
  have m: "mid = m1 @ m2" "length m1 = length src" "length m2 = length (concat (map snd fs))"
    using Cons.prems(3) f by (auto simp: m1_def m2_def)
  have u: "unat (offset + w) = unat offset + length src"
    unfolding w(2) using Cons.prems(4) m by (intro unat_add_u32) simp
  have c: "buf_copy (base + unat offset) (base + unat (offset + w)) src (pre @ m1 @ m2 @ post) = Some (pre @ src @ m2 @ post)"
    using Cons.prems(2) m(2) u by (intro buf_copy_append) simp_all
  have "put_fields base fs ((pre @ src) @ m2 @ post, offset + w) =
      Some ((pre @ src) @ concat (map snd fs) @ post, (offset + w) + of_nat (length m2))"
    using Cons.prems(1,2,4) m u by (intro Cons.IH) simp_all
  then show ?case using c f m w(2) by (simp add: ac_simps)
qed simp

lemma tx_loop_append:
  "length pre = base + unat offset \<Longrightarrow> length a = 4 * length txs \<Longrightarrow> length b = length (concat txs) \<Longrightarrow>
   unat txOffset = unat offset + length a + length mid \<Longrightarrow> unat txOffset + length b < 2 ^ 32 \<Longrightarrow>
   tx_loop base txs offset txOffset (pre @ a @ mid @ b @ post) =
     Some (pre @ tx_offsets (unat txOffset) txs @ mid @ concat txs @ post)"
proof (induction txs arbitrary: pre a mid b offset txOffset)
  case (Cons tx txs)
  define a1 a2 b1 b2 where "a1 = take 4 a" and "a2 = drop 4 a" and "b1 = take (length tx) b" and "b2 = drop (length tx) b"
  have ab: "a = a1 @ a2" "length a1 = 4" "length a2 = 4 * length txs"
    "b = b1 @ b2" "length b1 = length tx" "length b2 = length (concat txs)"
    using Cons.prems(2,3) by (auto simp: a1_def a2_def b1_def b2_def)
  have o: "unat (offset + 4) = unat offset + 4" using unat_add_u32 [of offset 4] Cons.prems(2,4,5) by simp
  have n: "unat (txOffset + of_nat (length tx)) = unat txOffset + length tx"
    using Cons.prems(5) ab(4,5) by (intro unat_add_u32) simp
  have c1: "buf_copy (base + unat offset) (base + unat (offset + 4)) (PutUint32LE txOffset) (pre @ a1 @ a2 @ mid @ b @ post) =
      Some (pre @ PutUint32LE txOffset @ a2 @ mid @ b @ post)"
    using Cons.prems(1) ab(2) o by (intro buf_copy_append) simp_all
  have c2: "buf_copy (base + unat txOffset) (base + unat (txOffset + of_nat (length tx))) tx
      ((pre @ PutUint32LE txOffset @ a2 @ mid) @ b1 @ b2 @ post) = Some ((pre @ PutUint32LE txOffset @ a2 @ mid) @ tx @ b2 @ post)"
    using Cons.prems(1,4) ab n by (intro buf_copy_append) simp_all
  have "tx_loop base txs (offset + 4) (txOffset + of_nat (length tx)) ((pre @ PutUint32LE txOffset) @ a2 @ (mid @ tx) @ b2 @ post) =
      Some ((pre @ PutUint32LE txOffset) @ tx_offsets (unat (txOffset + of_nat (length tx))) txs @ (mid @ tx) @ concat txs @ post)"
    using Cons.prems(1,4,5) ab n o by (intro Cons.IH) simp_all
  then show ?case using c1 c2 ab(1,4) n by (simp add: Let_def)
qed simp

text \<open>The same with the part already written in front of the buffer.\<close>

lemma put_fields_tail:
  assumes "\<forall>(w, src) \<in> set fs. length src = unat w" "length dn + length (concat (map snd fs)) \<le> length dn + length rm"
    "length dn + length (concat (map snd fs)) < 2 ^ 32"
  shows "put_fields 0 fs (dn @ rm, of_nat (length dn)) =
    Some ((dn @ concat (map snd fs)) @ drop (length (concat (map snd fs))) rm, of_nat (length (dn @ concat (map snd fs))))"
proof -
  let ?n = "length (concat (map snd fs))"
  have "put_fields 0 fs (dn @ take ?n rm @ drop ?n rm, of_nat (length dn)) =
      Some (dn @ concat (map snd fs) @ drop ?n rm, of_nat (length dn) + of_nat (length (take ?n rm)))"
    using assms by (intro put_fields_append) (simp_all add: unat_of_nat)
  then show ?thesis using assms(2) by simp
qed

lemma marshalTransactions_tail:
  assumes "length (tx_section txs) \<le> length rm" "length dn + length (tx_section txs) < 2 ^ 32"
  shows "marshalTransactions (length dn) txs (dn @ rm) = Some ((dn @ tx_section txs) @ drop (length (tx_section txs)) rm)"
proof -
  let ?n = "4 * length txs" and ?m = "length (concat txs)"
  let ?a = "take ?n rm" and ?b = "take ?m (drop ?n rm)" and ?post = "drop (?m + ?n) rm"
  have l: "?n + ?m \<le> length rm" "length dn + ?n + ?m < 2 ^ 32" using assms by (simp_all add: length_tx_section)
  have u: "unat (of_nat (length txs) * 4 :: u32) = ?n" using l(2) by (simp add: unat_word_ariths unat_of_nat mult.commute)
  have "rm = ?a @ [] @ ?b @ ?post" by (simp flip: drop_drop)
  then have "tx_loop (length dn) txs 0 (of_nat (length txs) * 4) (dn @ rm) =
      tx_loop (length dn) txs 0 (of_nat (length txs) * 4) (dn @ ?a @ [] @ ?b @ ?post)" by simp
  also have "\<dots> = Some (dn @ tx_offsets (unat (of_nat (length txs) * 4 :: u32)) txs @ [] @ concat txs @ ?post)"
    using l u by (intro tx_loop_append) simp_all
  finally show ?thesis unfolding marshalTransactions_def u by (simp add: tx_section_def add.commute)
qed

lemma withdrawal_fields_ok:
  assumes "list_all (\<lambda>w. length (wd_Address w) = 20) ws"
  shows "\<forall>(w, src) \<in> set (concat (map withdrawal_fields ws)). length src = unat w"
    "concat (map snd (concat (map withdrawal_fields ws))) = concat (map wd_bytes ws)"
  using assms by (induction ws) (auto simp: withdrawal_fields_def wd_bytes_def)

lemma marshalWithdrawals_tail:
  assumes "list_all (\<lambda>w. length (wd_Address w) = 20) ws" "length rm \<ge> length (concat (map wd_bytes ws))"
    "length (concat (map wd_bytes ws)) < 2 ^ 32"
  shows "marshalWithdrawals (length dn) ws (dn @ rm) =
    Some (dn @ concat (map wd_bytes ws) @ drop (length (concat (map wd_bytes ws))) rm)"
proof -
  let ?fs = "concat (map withdrawal_fields ws)" and ?n = "length (concat (map wd_bytes ws))"
  note ok = withdrawal_fields_ok [OF assms(1)]
  have "put_fields (length dn) ?fs (dn @ take ?n rm @ drop ?n rm, 0) =
      Some (dn @ concat (map snd ?fs) @ drop ?n rm, 0 + of_nat (length (take ?n rm)))"
    using assms ok(1) by (intro put_fields_append) (simp_all add: ok(2))
  then show ?thesis by (simp add: marshalWithdrawals_def ok(2))
qed

lemma marshal_dynamic_ok:
  assumes w: "array_widths p" and dn: "length dn + length (ep_ExtraData p) + length (tx_section (ep_Transactions p)) + length (wd_section p) = n"
    "n < 2 ^ 32" "n \<le> length (dn @ rm)"
  shows "marshal_dynamic p (of_nat n) (dn @ rm, of_nat (length dn)) =
    Some (Inr (dn @ ep_ExtraData p @ tx_section (ep_Transactions p) @ wd_section p))"
proof -
  let ?e = "ep_ExtraData p" and ?t = "tx_section (ep_Transactions p)" and ?w = "wd_section p"
  define dn1 tl1 where "dn1 = dn @ ?e" and "tl1 = drop (length ?e) rm"
  define dn2 tl2 where "dn2 = dn1 @ ?t" and "tl2 = drop (length ?t) tl1"
  have un: "unat (of_nat n :: u32) = n" using dn(2) by (simp add: unat_of_nat)
  have ex: "put_fields 0 [(of_nat (length ?e), ?e)] (dn @ rm, of_nat (length dn)) = Some (dn1 @ tl1, of_nat (length dn1))"
    using put_fields_tail [of "[(of_nat (length ?e), ?e)]" dn rm] dn by (simp add: dn1_def tl1_def unat_of_nat)
  have u1: "unat (of_nat (length dn1) :: u32) = length dn1" by (rule unat_of_nat_u32) (use dn in \<open>simp add: dn1_def\<close>)
  have ts: "(of_nat (length dn1) :: u32) + transactionSize p = of_nat (length dn2)"
    by (simp add: transactionSize_def TransactionsSize_section dn2_def)
  have u2: "unat (of_nat (length dn2) :: u32) = length dn2" by (rule unat_of_nat_u32) (use dn in \<open>simp add: dn1_def dn2_def\<close>)
  have le: "(of_nat (length dn1) :: u32) \<le> of_nat (length dn2)" unfolding word_le_nat_alt u1 u2 by (simp add: dn2_def)
  have lt: "length dn2 \<le> length (dn1 @ tl1)" using dn by (simp add: dn1_def dn2_def tl1_def)
  have tx: "marshalTransactions (length dn1) (ep_Transactions p) (dn1 @ tl1) = Some (dn2 @ tl2)"
    unfolding dn2_def tl2_def using dn by (intro marshalTransactions_tail) (simp_all add: dn1_def tl1_def)
  have le2: "(of_nat (length dn2) :: u32) \<le> of_nat n" unfolding word_le_nat_alt u2 un using dn by (simp add: dn1_def dn2_def)
  have main: "marshal_dynamic p (of_nat n) (dn @ rm, of_nat (length dn)) =
      (case ep_Withdrawals p of
         None \<Rightarrow> Some (Inr (take n (dn2 @ tl2)))
       | Some ws \<Rightarrow> map_option (\<lambda>buf3. Inr (take n buf3)) (marshalWithdrawals (length dn2) ws (dn2 @ tl2)))"
    unfolding marshal_dynamic_def Let_def ex using u1 u2 ts le lt tx le2 un by (simp split: option.split)
  show ?thesis
  proof (cases "ep_Withdrawals p")
    case None
    then show ?thesis using main dn(1) by (simp add: wd_section_def dn1_def dn2_def)
  next
    case (Some ws)
    have wd: "?w = concat (map wd_bytes ws)" using Some by (simp add: wd_section_def)
    have "marshalWithdrawals (length dn2) ws (dn2 @ tl2) =
        Some (dn2 @ concat (map wd_bytes ws) @ drop (length (concat (map wd_bytes ws))) tl2)"
      using w Some dn wd by (intro marshalWithdrawals_tail) (simp_all add: array_widths_def tl1_def tl2_def dn1_def)
    then show ?thesis using main Some wd dn(1) by (simp add: dn1_def dn2_def)
  qed
qed

lemma MarshalSSZ_ok:
  assumes w: "array_widths p" and v: "version_fields v p" and pool: "length pool < 2 ^ 32" and n: "length (payload_bytes p) < 2 ^ 32"
  shows "MarshalSSZ pool p = Some (Inr (payload_bytes p))"
proof -
  let ?n = "length (payload_bytes p)" and ?fs = "executionPayloadFixedPart v" and ?e = "ep_ExtraData p"
  let ?t = "tx_section (ep_Transactions p)"
  have iv: "inferVersion p = v" by (rule version_fields_infer [OF v])
  note len = length_head [OF w, of v]
  have nn: "?n = unat ?fs + length ?e + length ?t + length (wd_section p)"
    using len iv by (simp add: payload_bytes_def payload_with_def)
  have un: "unat (of_nat ?n :: u32) = ?n" using n by (simp add: unat_of_nat)
  have small: "\<not> (of_nat (length ?e) :: u32) > 0xFFFFFFFF - ?fs"
    using nn n by (cases v) (simp_all add: word_less_nat_alt unat_of_nat fixed_part_nat blockV1FixedPart_def blockV2FixedPart_def blockV3FixedPart_def)
  define buf where "buf = (if (of_nat (length pool) :: u32) < of_nat ?n then replicate ?n 0 else pool)"
  have blen: "?n \<le> length buf" using pool n by (simp add: buf_def word_less_nat_alt unat_of_nat)
  define ff where "ff = fixed_fields p ?fs (of_nat (length ?e))"
  define wf :: "(u32 \<times> bytes) list" where
    "wf = (if ep_Withdrawals p \<noteq> None then [(4, PutUint32LE (?fs + of_nat (length ?e) + transactionSize p))] else [])"
  define bf :: "(u32 \<times> bytes) list" where
    "bf = (if v = BlockV3 then [(8, PutUint64LE (the (ep_BlobGasUsed p))), (8, PutUint64LE (the (ep_ExcessBlobGas p)))] else [])"
  have blob: "blob_fields p = Inr bf" using v iv by (auto simp: blob_fields_def bf_def version_fields_def split: option.splits)
  have head: "concat (map snd ff) @ concat (map snd wf) @ concat (map snd bf) = concat (head_fields v p (length ?t))"
    using v by (auto simp: ff_def wf_def bf_def fixed_fields_def head_fields_def Let_def version_fields_def transactionSize_def
        TransactionsSize_section)
  have ok: "\<forall>(w, src) \<in> set ff. length src = unat w" "\<forall>(w, src) \<in> set wf. length src = unat w" "\<forall>(w, src) \<in> set bf. length src = unat w"
    using w by (auto simp: ff_def wf_def bf_def fixed_fields_def array_widths_def)
  have ffl: "length (concat (map snd ff)) = 508" using w by (simp add: ff_def fixed_fields_def array_widths_def)
  have hl: "length (concat (map snd ff)) + length (concat (map snd wf)) + length (concat (map snd bf)) = unat ?fs"
    using len [of "length ?t"] by (simp flip: head)
  let ?d1 = "concat (map snd ff)"
  let ?d2 = "?d1 @ concat (map snd wf)" let ?d3 = "?d2 @ concat (map snd bf)"
  let ?t1 = "drop (length ?d1) buf"
  let ?t2 = "drop (length (concat (map snd wf))) ?t1" let ?t3 = "drop (length (concat (map snd bf))) ?t2"
  have s1: "put_fields 0 ff (buf, 0) = Some (?d1 @ ?t1, of_nat (length ?d1))"
    using put_fields_tail [OF ok(1), of "[]" buf] hl nn n blen by simp
  have s2: "put_fields 0 wf (?d1 @ ?t1, of_nat (length ?d1)) = Some (?d2 @ ?t2, of_nat (length ?d2))"
    using hl nn n blen by (intro put_fields_tail [OF ok(2)]) simp_all
  have s3: "put_fields 0 bf (?d2 @ ?t2, of_nat (length ?d2)) = Some (?d3 @ ?t3, of_nat (length ?d3))"
    using hl nn n blen by (intro put_fields_tail [OF ok(3)]) simp_all
  have d3: "?d3 = concat (head_fields v p (length ?t))" using head by simp
  have "length ?d3 = unat ?fs" using hl by simp
  then have off: "(of_nat (length ?d3) :: u32) = ?fs" by (simp only: of_nat_unat ucast_id)
  have off1: "ep_Withdrawals p = None \<Longrightarrow> (of_nat (length ?d1) :: u32) = ?fs"
    using ffl v by (cases v) (simp_all add: version_fields_def HasWithdrawals_def blockV1FixedPart_def)
  have guard: "\<not> (ep_Withdrawals p = None \<and> (of_nat (length ?d1) :: u32) \<noteq> ?fs)" using off1 by blast
  have dyn: "marshal_dynamic p (of_nat ?n) (?d3 @ ?t3, of_nat (length ?d3)) = Some (Inr (?d3 @ ?e @ ?t @ wd_section p))"
    using nn n blen hl by (intro marshal_dynamic_ok [OF w]) simp_all
  have pb: "?d3 @ ?e @ ?t @ wd_section p = payload_bytes p" unfolding d3 by (simp add: payload_bytes_def payload_with_def iv)
  show ?thesis
    unfolding MarshalSSZ_def iv SizeSSZ_bytes [OF w] Let_def un buf_def [symmetric] ff_def [symmetric] wf_def [symmetric] s1 blob
    using small guard s2 s3 off dyn pb by simp
qed


section \<open>The decoder\<close>

lemma get_fields_iff:
  "get_fields ws offset buf = Some xs \<longleftrightarrow>
   map length xs = ws \<and> (ws = [] \<or> offset + sum_list ws \<le> length buf) \<and> take (sum_list ws) (drop offset buf) = concat xs"
proof (induction ws arbitrary: offset xs)
  case Nil
  then show ?case by auto
next
  case (Cons w ws)
  have split: "take (w + sum_list ws) (drop offset buf) = take w (drop offset buf) @ take (sum_list ws) (drop (offset + w) buf)"
    by (simp add: take_add add.commute)
  show ?case
  proof (cases "offset + w \<le> length buf")
    case False
    then show ?thesis by (auto simp: go_slice_def)
  next
    case True
    then have "get_fields (w # ws) offset buf = Some xs \<longleftrightarrow>
        (\<exists>ys. xs = take w (drop offset buf) # ys \<and> get_fields ws (offset + w) buf = Some ys)"
      by (auto simp: go_slice_def)
    also have "\<dots> \<longleftrightarrow> map length xs = w # ws \<and> (w # ws = [] \<or> offset + sum_list (w # ws) \<le> length buf) \<and>
        take (sum_list (w # ws)) (drop offset buf) = concat xs"
    proof
      assume "\<exists>ys. xs = take w (drop offset buf) # ys \<and> get_fields ws (offset + w) buf = Some ys"
      then obtain ys where ys: "xs = take w (drop offset buf) # ys" "get_fields ws (offset + w) buf = Some ys" by blast
      then show "map length xs = w # ws \<and> (w # ws = [] \<or> offset + sum_list (w # ws) \<le> length buf) \<and>
          take (sum_list (w # ws)) (drop offset buf) = concat xs"
        using True Cons.IH [of "offset + w" ys] split by auto
    next
      assume a: "map length xs = w # ws \<and> (w # ws = [] \<or> offset + sum_list (w # ws) \<le> length buf) \<and>
          take (sum_list (w # ws)) (drop offset buf) = concat xs"
      then obtain x ys where xs: "xs = x # ys" "length x = w" "map length ys = ws" by (cases xs) auto
      have "take w (drop offset buf) @ take (sum_list ws) (drop (offset + w) buf) = x @ concat ys" using a xs(1) split by simp
      then have "take w (drop offset buf) = x" "take (sum_list ws) (drop (offset + w) buf) = concat ys"
        using xs(2) True by (simp_all add: append_eq_append_conv)
      then show "\<exists>ys. xs = take w (drop offset buf) # ys \<and> get_fields ws (offset + w) buf = Some ys"
        using xs a Cons.IH [of "offset + w" ys] by auto
    qed
    finally show ?thesis .
  qed
qed

lemma get_fields_total:
  assumes "offset + sum_list ws \<le> length buf"
  obtains xs where "get_fields ws offset buf = Some xs"
proof -
  have "\<exists>xs. get_fields ws offset buf = Some xs"
    using assms by (induction ws arbitrary: offset) (auto simp: go_slice_def add.assoc)
  then show thesis using that by blast
qed

declare get_fields.simps [simp del]

lemma map_sum_id_Inr: "map_sum id f x = Inr y \<longleftrightarrow> (\<exists>z. x = Inr z \<and> y = f z)"
  by (cases x) auto

lemma untx_step:
  assumes l: "length i < 2 ^ 32" and s: "scope = of_nat (length i)" and n: "0 < n"
    and o: "unat offset + 4 * n \<le> length i"
  shows "untx_loop i scope (Suc n) offset cur =
    (let next = Uint32LE (take 4 (drop (unat offset) i)) in
     if next < cur \<or> next > scope then Some (Inl BadNextTxOffset)
     else map_option (map_sum id (\<lambda>txs. take (unat next - unat cur) (drop (unat cur) i) # txs)) (untx_loop i scope n (offset + 4) next))"
proof -
  have u: "unat (offset + 4) = unat offset + 4" using unat_add_u32 [of offset 4] l o n by simp
  have us: "unat scope = length i" using l s by (simp add: unat_of_nat)
  have sl: "go_slice (unat offset) (unat (offset + 4)) i = Some (take 4 (drop (unat offset) i))"
    using u o n by (simp add: go_slice_def)
  have "go_slice (unat cur) (unat next) i = Some (take (unat next - unat cur) (drop (unat cur) i))"
    if "\<not> (next < cur \<or> next > scope)" for "next" :: u32
    using that us by (simp add: go_slice_def word_less_nat_alt)
  then show ?thesis using n sl by (simp add: Let_def)
qed

lemma untx_last:
  assumes l: "length i < 2 ^ 32" and s: "scope = of_nat (length i)" and c: "unat cur \<le> length i"
  shows "untx_loop i scope (Suc 0) offset cur = Some (Inr [drop (unat cur) i])"
proof -
  have us: "unat scope = length i" using l s by (simp add: unat_of_nat)
  then have "\<not> (scope < cur \<or> scope > scope)" using c by (simp add: word_less_nat_alt)
  then show ?thesis using us c by (simp add: go_slice_def)
qed

declare untx_loop.simps(2) [simp del]

lemma untx_loop_iff:
  assumes l: "length i < 2 ^ 32" and s: "scope = of_nat (length i)"
  shows "unat offset + 4 * n \<le> length i \<Longrightarrow> unat cur \<le> length i \<Longrightarrow>
   untx_loop i scope (Suc n) offset cur = Some (Inr txs) \<longleftrightarrow>
     length txs = Suc n \<and> concat txs = drop (unat cur) i \<and>
     take (4 * n) (drop (unat offset) i) = drop 4 (tx_offsets (unat cur) txs)"
proof (induction n arbitrary: offset cur txs)
  case 0
  then show ?case using untx_last [OF l s 0(2)] by (auto simp: length_Suc_conv)
next
  case (Suc n)
  define nx where "nx = Uint32LE (take 4 (drop (unat offset) i))"
  have us: "unat scope = length i" using l s by (simp add: unat_of_nat)
  have put: "PutUint32LE nx = take 4 (drop (unat offset) i)" unfolding nx_def by (rule Put_Uint(5)) (use Suc.prems(1) in simp)
  have u: "unat (offset + 4) = unat offset + 4" using unat_add_u32 [of offset 4] l Suc.prems(1) by simp
  have tk: "take (4 * Suc n) (drop (unat offset) i) = take 4 (drop (unat offset) i) @ take (4 * n) (drop (unat (offset + 4)) i)"
    using take_add [of 4 "4 * n" "drop (unat offset) i"] u by (simp add: add.commute)
  have step: "untx_loop i scope (Suc (Suc n)) offset cur =
      (if nx < cur \<or> nx > scope then Some (Inl BadNextTxOffset)
       else map_option (map_sum id (\<lambda>txs. take (unat nx - unat cur) (drop (unat cur) i) # txs)) (untx_loop i scope (Suc n) (offset + 4) nx))"
    unfolding nx_def using untx_step [OF l s zero_less_Suc Suc.prems(1)] by (simp add: Let_def)
  have off: "drop 4 (tx_offsets m (tx # ys)) = PutUint32LE (of_nat (m + length tx)) @ drop 4 (tx_offsets (m + length tx) ys)"
    if "length ys = Suc n" for m tx ys using that by (cases ys) simp_all
  have IH: "untx_loop i scope (Suc n) (offset + 4) nx = Some (Inr ys) \<longleftrightarrow> length ys = Suc n \<and> concat ys = drop (unat nx) i \<and>
      take (4 * n) (drop (unat (offset + 4)) i) = drop 4 (tx_offsets (unat nx) ys)" if "unat nx \<le> length i" for ys
    using Suc.prems(1) u that by (intro Suc.IH) simp_all
  show ?case
  proof
    assume a: "untx_loop i scope (Suc (Suc n)) offset cur = Some (Inr txs)"
    then have g: "unat cur \<le> unat nx" "unat nx \<le> length i" using step us by (auto simp: word_less_nat_alt split: if_splits)
    then obtain ys where ys: "txs = take (unat nx - unat cur) (drop (unat cur) i) # ys" "untx_loop i scope (Suc n) (offset + 4) nx = Some (Inr ys)"
      using a step us by (auto simp: word_less_nat_alt map_sum_id_Inr split: if_splits)
    note Y = IH [OF g(2), THEN iffD1, OF ys(2)]
    let ?tx = "take (unat nx - unat cur) (drop (unat cur) i)"
    have ln: "unat cur + length ?tx = unat nx" using g by simp
    have "?tx @ drop (unat nx) i = drop (unat cur) i"
      using append_take_drop_id [of "unat nx - unat cur" "drop (unat cur) i"] g by simp
    moreover have "drop 4 (tx_offsets (unat cur) txs) = PutUint32LE nx @ drop 4 (tx_offsets (unat nx) ys)"
      unfolding ys(1) using off [of ys "unat cur" ?tx, OF conjunct1 [OF Y]] by (simp only: ln of_nat_unat ucast_id)
    ultimately show "length txs = Suc (Suc n) \<and> concat txs = drop (unat cur) i \<and>
        take (4 * Suc n) (drop (unat offset) i) = drop 4 (tx_offsets (unat cur) txs)"
      using Y ys(1) tk put by simp
  next
    assume a: "length txs = Suc (Suc n) \<and> concat txs = drop (unat cur) i \<and>
        take (4 * Suc n) (drop (unat offset) i) = drop 4 (tx_offsets (unat cur) txs)"
    then obtain tx ys where ys: "txs = tx # ys" "length ys = Suc n" by (cases txs) auto
    have cc: "tx @ concat ys = drop (unat cur) i" using a ys by simp
    have lt: "unat cur + length tx \<le> length i" using arg_cong [OF cc, of length] Suc.prems(2) by simp
    have "PutUint32LE nx @ take (4 * n) (drop (unat (offset + 4)) i) =
        PutUint32LE (of_nat (unat cur + length tx)) @ drop 4 (tx_offsets (unat cur + length tx) ys)"
      using conjunct2 [OF conjunct2 [OF a]] unfolding ys(1) tk put off [OF ys(2)] .
    then have e: "PutUint32LE nx = PutUint32LE (of_nat (unat cur + length tx))"
      "take (4 * n) (drop (unat (offset + 4)) i) = drop 4 (tx_offsets (unat cur + length tx) ys)"
      by (simp_all only: append_eq_append_conv [OF disjI1] length_PutUint)
    have "nx = of_nat (unat cur + length tx)" using arg_cong [OF e(1), of Uint32LE] by simp
    then have un: "unat nx = unat cur + length tx" using lt l by (simp only: unat_of_nat_u32)
    have d: "drop (unat nx) i = concat ys" using arg_cong [OF cc, of "drop (length tx)"] un by (simp add: add.commute)
    have t: "take (unat nx - unat cur) (drop (unat cur) i) = tx" using un by (simp flip: cc)
    have "untx_loop i scope (Suc n) (offset + 4) nx = Some (Inr ys)" using IH lt un ys(2) d e(2) by simp
    moreover have "\<not> (nx < cur \<or> nx > scope)" using un lt us by (simp add: word_less_nat_alt)
    ultimately show "untx_loop i scope (Suc (Suc n)) offset cur = Some (Inr txs)" using step t ys(1) by simp
  qed
qed

lemma untx_loop_total:
  assumes l: "length i < 2 ^ 32" and s: "scope = of_nat (length i)"
  shows "unat offset + 4 * n \<le> length i \<Longrightarrow> unat cur \<le> length i \<Longrightarrow> \<exists>res. untx_loop i scope (Suc n) offset cur = Some res"
proof (induction n arbitrary: offset cur)
  case 0
  then show ?case using untx_last [OF l s 0(2)] by blast
next
  case (Suc n)
  have us: "unat scope = length i" using l s by (simp add: unat_of_nat)
  have u: "unat (offset + 4) = unat offset + 4" using unat_add_u32 [of offset 4] l Suc.prems(1) by simp
  let ?nx = "Uint32LE (take 4 (drop (unat offset) i))"
  show ?case
  proof (cases "?nx < cur \<or> ?nx > scope")
    case True
    then show ?thesis using untx_step [OF l s zero_less_Suc Suc.prems(1)] by (simp add: Let_def)
  next
    case False
    then have "\<exists>res. untx_loop i scope (Suc n) (offset + 4) ?nx = Some res"
      using Suc.prems(1) u us by (intro Suc.IH) (simp_all add: word_less_nat_alt)
    then show ?thesis using False untx_step [OF l s zero_less_Suc Suc.prems(1)] by (auto simp: Let_def)
  qed
qed


text \<open>
  The transactions section that decodes to \<open>txs\<close>: the canonical one, or, for no transactions, anything that
  begins with a zero offset.
\<close>

definition tx_decodes :: "bytes list \<Rightarrow> bytes \<Rightarrow> bool" where
  "tx_decodes txs i \<longleftrightarrow>
     length txs \<le> 2 ^ 20 \<and> (i = tx_section txs \<or> (txs = [] \<and> take 4 i = [0, 0, 0, 0]))"

lemma PutUint32LE_0: "PutUint32LE 0 = [0, 0, 0, 0]"
  by code_simp

lemma firstTx:
  assumes "4 \<le> length i"
  shows "PutUint32LE (Uint32LE (take 4 i)) = take 4 i"
  by (rule Put_Uint(5)) (use assms in simp)

lemma section_conv:
  assumes n: "length txs = Suc n" and l: "4 * Suc n \<le> length i" "length i < 2 ^ 32"
  shows "i = tx_section txs \<longleftrightarrow> Uint32LE (take 4 i) = of_nat (4 * Suc n) \<and> concat txs = drop (4 * Suc n) i \<and>
    take (4 * n) (drop 4 i) = drop 4 (tx_offsets (4 * Suc n) txs)"
proof -
  have o: "tx_offsets (4 * Suc n) txs = PutUint32LE (of_nat (4 * Suc n)) @ drop 4 (tx_offsets (4 * Suc n) txs)"
    using n by (cases txs) simp_all
  have tk: "take 4 i @ take (4 * n) (drop 4 i) = take (4 * Suc n) i" using take_add [of 4 "4 * n" i] by simp
  have i: "i = (take 4 i @ take (4 * n) (drop 4 i)) @ drop (4 * Suc n) i"
    unfolding tk by (simp only: append_take_drop_id)
  have four: "4 \<le> length i" using l(1) by simp
  have li: "length (take 4 i @ take (4 * n) (drop 4 i)) = 4 * Suc n" using l(1) by simp
  have "i = tx_section txs \<longleftrightarrow> take 4 i @ take (4 * n) (drop 4 i) = tx_offsets (4 * Suc n) txs \<and> drop (4 * Suc n) i = concat txs"
    unfolding tx_section_def n by (subst i) (rule append_eq_append_conv, simp only: li length_tx_offsets n simp_thms)
  also have "take 4 i @ take (4 * n) (drop 4 i) = tx_offsets (4 * Suc n) txs \<longleftrightarrow>
      take 4 i = PutUint32LE (of_nat (4 * Suc n)) \<and> take (4 * n) (drop 4 i) = drop 4 (tx_offsets (4 * Suc n) txs)"
    by (subst o) (rule append_eq_append_conv, use l(1) in simp)
  also have "take 4 i = PutUint32LE (of_nat (4 * Suc n)) \<longleftrightarrow> Uint32LE (take 4 i) = of_nat (4 * Suc n)"
    using firstTx [OF four] Uint_PutUint(2) [of "of_nat (4 * Suc n)"] by metis
  finally show ?thesis using eq_commute [of "concat txs" "drop (4 * Suc n) i"] by blast
qed

lemma tx_decodes_length:
  assumes "tx_decodes txs i"
  shows "(i = [] \<and> txs = []) \<or> 4 \<le> length i"
proof -
  consider "i = tx_section txs" | "take 4 i = [0, 0, 0, 0]" using assms by (auto simp: tx_decodes_def)
  then show ?thesis
  proof cases
    case 1
    then show ?thesis using length_tx_section [of txs] by (cases txs) (simp_all add: tx_section_def)
  next
    case 2
    show ?thesis using arg_cong [OF 2, of length] by (simp add: min_def split: if_splits)
  qed
qed

lemma tx_decodes_Nil [simp]: "tx_decodes [] []"
  by (simp add: tx_decodes_def tx_section_def)

lemma unmarshalTransactions_iff:
  assumes l: "length i < 2 ^ 32"
  shows "unmarshalTransactions i = Some (Inr txs) \<longleftrightarrow> tx_decodes txs i"
proof -
  let ?s = "of_nat (length i) :: u32" and ?f = "Uint32LE (take 4 i)"
  have us: "unat ?s = length i" using l by (simp add: unat_of_nat)
  consider (empty) "i = []" | (short) "i \<noteq> []" "length i < 4" | (long) "4 \<le> length i" by fastforce
  then show ?thesis
  proof cases
    case empty
    then show ?thesis using tx_decodes_length [of txs i] by (auto simp: unmarshalTransactions_def)
  next
    case short
    then have "\<not> tx_decodes txs i" using tx_decodes_length [of txs i] by auto
    moreover have "?s \<noteq> 0" "?s < 4" using short us by (auto simp: word_less_nat_alt unat_eq_zero)
    ultimately show ?thesis by (simp add: unmarshalTransactions_def)
  next
    case long
    have s0: "?s \<noteq> 0" "\<not> ?s < 4" using long us by (auto simp: word_less_nat_alt unat_eq_zero)
    have sl: "go_slice 0 4 i = Some (take 4 i)" using long by (simp add: go_slice_def)
    have main: "unmarshalTransactions i =
        (if ?f mod 4 \<noteq> 0 then Some (Inl FirstTxOffsetUnaligned)
         else if ?f > ?s then Some (Inl FirstTxOffsetOutOfScope)
         else if ?f div 4 > maxTransactionsPerPayload then Some (Inl TooManyTransactions)
         else untx_loop i ?s (unat (?f div 4)) 4 ?f)"
      using s0 sl by (simp add: unmarshalTransactions_def Let_def)
    have c1: "?f mod 4 \<noteq> 0 \<longleftrightarrow> unat ?f mod 4 \<noteq> 0" using unat_mod [of ?f 4] unat_eq_zero [of "?f mod 4"] by simp
    have c2: "?f > ?s \<longleftrightarrow> \<not> unat ?f \<le> length i" by (simp add: word_less_nat_alt us not_le)
    have c3: "?f div 4 > maxTransactionsPerPayload \<longleftrightarrow> \<not> unat ?f div 4 \<le> 2 ^ 20"
      using unat_div [of ?f 4] by (simp add: word_less_nat_alt maxTransactionsPerPayload_def not_le)
    have c4: "unat (?f div 4) = unat ?f div 4" using unat_div [of ?f 4] by simp
    note main = main [unfolded c1 c2 c3 c4]
    have z: "take 4 i = [0, 0, 0, 0] \<longleftrightarrow> ?f = 0"
      using firstTx [OF long] PutUint32LE_0 Uint_PutUint(2) [of 0] by metis
    have canon: "unat ?f = 4 * length txs \<and> 4 * length txs \<le> length i" if h: "i = tx_section txs" "txs \<noteq> []"
    proof -
      obtain n where n: "length txs = Suc n" using h(2) by (cases txs) auto
      have le: "4 * Suc n \<le> length i" using length_tx_section [of txs] h(1) n by simp
      have "?f = of_nat (4 * Suc n)" using section_conv [OF n le l] h(1) by blast
      then have "unat ?f = 4 * Suc n" using le l by (simp only: unat_of_nat_u32)
      then show ?thesis using le n by simp
    qed
    have sec0: "tx_section [] = []" by (simp add: tx_section_def)
    show ?thesis
    proof (cases "unat ?f mod 4 = 0 \<and> unat ?f \<le> length i \<and> unat ?f div 4 \<le> 2 ^ 20")
      case False
      then have "unmarshalTransactions i \<noteq> Some (Inr txs)"
        unfolding main by auto
      moreover have "\<not> tx_decodes txs i"
      proof
        assume d: "tx_decodes txs i"
        then consider "i = tx_section txs" "txs \<noteq> []" | "?f = 0" using z sec0 long by (cases "txs = []") (auto simp: tx_decodes_def)
        then show False using False canon d by cases (auto simp: tx_decodes_def)
      qed
      ultimately show ?thesis by simp
    next
      case True
      then have e: "unmarshalTransactions i = untx_loop i ?s (unat ?f div 4) 4 ?f"
        unfolding main by simp
      show ?thesis
      proof (cases "unat ?f div 4")
        case 0
        then have f0: "?f = 0" using True by (metis mod_eq_self_iff_div_eq_0 unat_eq_zero)
        have "\<not> (i = tx_section txs \<and> txs \<noteq> [])"
        proof
          assume a: "i = tx_section txs \<and> txs \<noteq> []"
          then have "unat ?f = 4 * length txs" using canon by blast
          then show False using f0 a by simp
        qed
        then show ?thesis using e 0 z f0 sec0 long by (cases "txs = []") (auto simp: tx_decodes_def)
      next
        case (Suc n)
        have f: "unat ?f = 4 * Suc n" using Suc True by presburger
        have le: "4 * Suc n \<le> length i" using True f by simp
        have "?f = of_nat (unat ?f)" by simp
        then have fw: "?f = of_nat (4 * Suc n)" by (simp only: f)
        have "unmarshalTransactions i = Some (Inr txs) \<longleftrightarrow> length txs = Suc n \<and> i = tx_section txs"
          unfolding e Suc using untx_loop_iff [OF l refl, of 4 n ?f txs] section_conv [OF _ le l, of txs] le f fw by auto
        moreover have "tx_decodes txs i \<longleftrightarrow> length txs = Suc n \<and> i = tx_section txs"
          using canon f z True Suc sec0 long by (cases "txs = []") (simp_all add: tx_decodes_def, auto)
        ultimately show ?thesis by simp
      qed
    qed
  qed
qed


lemma unmarshalTransactions_total:
  assumes l: "length i < 2 ^ 32"
  shows "\<exists>res. unmarshalTransactions i = Some res"
proof (cases "4 \<le> length i")
  case False
  then have "(of_nat (length i) :: u32) < 4" using l by (simp add: word_less_nat_alt unat_of_nat)
  then show ?thesis by (simp add: unmarshalTransactions_def Let_def)
next
  case True
  let ?s = "of_nat (length i) :: u32" and ?f = "Uint32LE (take 4 i)"
  have us: "unat ?s = length i" using l by (simp add: unat_of_nat)
  have "go_slice 0 4 i = Some (take 4 i)" using True by (simp add: go_slice_def)
  moreover have "\<exists>res. untx_loop i ?s (unat (?f div 4)) 4 ?f = Some res" if "\<not> ?f > ?s"
  proof (cases "unat (?f div 4)")
    case (Suc n)
    have "unat ?f div 4 = Suc n" using Suc unat_div [of ?f 4] by simp
    then show ?thesis unfolding Suc using that us by (intro untx_loop_total [OF l refl]) (simp_all add: word_less_nat_alt)
  qed simp
  ultimately show ?thesis by (simp add: unmarshalTransactions_def Let_def)
qed

lemma unwd_loop_iff:
  "offset + 44 * n = length i \<Longrightarrow>
   unwd_loop i n offset = Some ws \<longleftrightarrow>
     length ws = n \<and> list_all (\<lambda>w. length (wd_Address w) = 20) ws \<and> drop offset i = concat (map wd_bytes ws)"
proof (induction n arbitrary: offset ws)
  case 0
  then show ?case by auto
next
  case (Suc n)
  obtain xs where xs: "get_fields [8, 8, 20, 8] offset i = Some xs" using get_fields_total [of offset "[8, 8, 20, 8]" i] Suc.prems by auto
  then have g: "map length xs = [8, 8, 20, 8]" "take 44 (drop offset i) = concat xs" by (simp_all add: get_fields_iff)
  then obtain a b c d where abcd: "xs = [a, b, c, d]" "length a = 8" "length b = 8" "length c = 20" "length d = 8"
    by (auto simp: map_eq_Cons_conv)
  let ?w = "\<lparr>wd_Index = Uint64LE a, wd_Validator = Uint64LE b, wd_Address = c, wd_Amount = Uint64LE d\<rparr>"
  have enc: "wd_bytes ?w = take 44 (drop offset i)" using g(2) abcd by (simp add: wd_bytes_def Put_Uint(4))
  have drp: "drop offset i = take 44 (drop offset i) @ drop (offset + 44) i"
    using append_take_drop_id [of 44 "drop offset i"] by (simp add: add.commute)
  have IH: "unwd_loop i n (offset + 44) = Some ws' \<longleftrightarrow> length ws' = n \<and> list_all (\<lambda>w. length (wd_Address w) = 20) ws' \<and>
      drop (offset + 44) i = concat (map wd_bytes ws')" for ws' using Suc.prems by (intro Suc.IH) simp
  have step: "unwd_loop i (Suc n) offset = Some ws \<longleftrightarrow> (\<exists>ws'. ws = ?w # ws' \<and> unwd_loop i n (offset + 44) = Some ws')"
    using xs abcd(1) by (auto simp: withdrawalLen_def)
  show ?case
  proof
    assume "unwd_loop i (Suc n) offset = Some ws"
    then obtain ws' where "ws = ?w # ws'" "unwd_loop i n (offset + 44) = Some ws'" using step by blast
    then show "length ws = Suc n \<and> list_all (\<lambda>w. length (wd_Address w) = 20) ws \<and> drop offset i = concat (map wd_bytes ws)"
      using IH drp enc abcd(4) by simp
  next
    assume r: "length ws = Suc n \<and> list_all (\<lambda>w. length (wd_Address w) = 20) ws \<and> drop offset i = concat (map wd_bytes ws)"
    then obtain w ws' where ws: "ws = w # ws'" "length ws' = n" "length (wd_Address w) = 20" by (cases ws) auto
    have "take 44 (drop offset i) @ drop (offset + 44) i = wd_bytes w @ concat (map wd_bytes ws')"
      unfolding drp [symmetric] using r ws(1) by simp
    moreover have "length (take 44 (drop offset i)) = length (wd_bytes w)" using Suc.prems ws(3) by (simp add: length_wd_bytes)
    ultimately have e: "wd_bytes ?w = wd_bytes w" "drop (offset + 44) i = concat (map wd_bytes ws')" unfolding enc by simp_all
    have "?w = w" using e(1) abcd ws(3) unfolding wd_bytes_def
      by (cases w) (auto simp: append_eq_append_conv dest: arg_cong [where f = Uint64LE])
    then show "unwd_loop i (Suc n) offset = Some ws" using step IH r ws e(2) by auto
  qed
qed

lemma unmarshalWithdrawals_iff:
  "unmarshalWithdrawals i = Some (Inr ws) \<longleftrightarrow>
   length ws \<le> 16 \<and> list_all (\<lambda>w. length (wd_Address w) = 20) ws \<and> i = concat (map wd_bytes ws)"
proof -
  have len: "list_all (\<lambda>w. length (wd_Address w) = 20) ws \<Longrightarrow> length (concat (map wd_bytes ws)) = 44 * length ws"
    by (induction ws) (auto simp: length_wd_bytes)
  show ?thesis
  proof (cases "length i mod 44 = 0")
    case True
    then have "0 + 44 * (length i div 44) = length i" by auto
    note L = unwd_loop_iff [OF this, of ws]
    show ?thesis using True L len by (auto simp: unmarshalWithdrawals_def withdrawalLen_def maxWithdrawalsPerPayload_def)
  next
    case False
    then show ?thesis using len by (auto simp: unmarshalWithdrawals_def withdrawalLen_def)
  qed
qed

lemma unwd_loop_total: "offset + 44 * n = length i \<Longrightarrow> \<exists>ws. unwd_loop i n offset = Some ws"
proof (induction n arbitrary: offset)
  case (Suc n)
  obtain xs where xs: "get_fields [8, 8, 20, 8] offset i = Some xs" using get_fields_total [of offset "[8, 8, 20, 8]" i] Suc.prems by auto
  then obtain a b c d where "xs = [a, b, c, d]" by (auto simp: get_fields_iff map_eq_Cons_conv)
  then show ?case using xs Suc.IH [of "offset + 44"] Suc.prems by (auto simp: withdrawalLen_def)
qed simp

lemma unmarshalWithdrawals_total: "\<exists>res. unmarshalWithdrawals i = Some res"
proof (cases "length i mod 44 = 0")
  case True
  then have "0 + 44 * (length i div 44) = length i" by auto
  then show ?thesis using unwd_loop_total [of 0 "length i div 44" i] by (auto simp: unmarshalWithdrawals_def withdrawalLen_def)
qed (simp add: unmarshalWithdrawals_def withdrawalLen_def)

end
