(* ===== verification/Ssz_Props.thy ===== *)
theory Ssz_Props
  imports Ssz_Proofs
begin

text \<open>The payload codec: which byte strings are payloads, and that neither direction panics.\<close>

definition valid_payload :: "BlockVersion \<Rightarrow> ExecutionPayload \<Rightarrow> bool" where
  "valid_payload v p \<longleftrightarrow>
     array_widths p \<and> version_fields v p \<and> length (ep_ExtraData p) \<le> 32 \<and>
     length (case ep_Withdrawals p of None \<Rightarrow> [] | Some ws \<Rightarrow> ws) \<le> 16"

section \<open>The dynamic part\<close>

lemma unat_fixed_plus: "unat (executionPayloadFixedPart v + 32) = unat (executionPayloadFixedPart v) + 32"
  by (cases v) (simp_all add: blockV1FixedPart_def blockV2FixedPart_def blockV3FixedPart_def)

lemma unmarshal_dynamic_iff:
  assumes buf: "length buf = unat scope" and le: "executionPayloadFixedPart v \<le> T" "T \<le> W" "W \<le> scope"
    and w: "HasWithdrawals v \<or> W = scope"
  shows "unmarshal_dynamic v scope (executionPayloadFixedPart v) T W buf p0 = Some (Inr p) \<longleftrightarrow>
    (\<exists>extra txs sec wd. drop (unat (executionPayloadFixedPart v)) buf = extra @ sec @ wd \<and>
       unat T = unat (executionPayloadFixedPart v) + length extra \<and> unat W = unat T + length sec \<and> length extra \<le> 32 \<and>
       tx_decodes txs sec \<and>
       (if HasWithdrawals v
        then \<exists>ws. length ws \<le> 16 \<and> list_all (\<lambda>w. length (wd_Address w) = 20) ws \<and> wd = concat (map wd_bytes ws) \<and>
               p = p0\<lparr>ep_ExtraData := extra, ep_Transactions := txs, ep_Withdrawals := Some ws\<rparr>
        else wd = [] \<and> p = p0\<lparr>ep_ExtraData := extra, ep_Transactions := txs\<rparr>))"
proof -
  let ?F = "executionPayloadFixedPart v"
  let ?extra = "take (unat T - unat ?F) (drop (unat ?F) buf)" and ?sec = "take (unat W - unat T) (drop (unat T) buf)"
  let ?wd = "drop (unat W) buf"
  have l: "unat ?F \<le> unat T" "unat T \<le> unat W" "unat W \<le> length buf" using le buf by (simp_all add: word_le_nat_alt)
  have split: "drop (unat ?F) buf = ?extra @ ?sec @ ?wd"
    using append_take_drop_id [of "unat T - unat ?F" "drop (unat ?F) buf"] append_take_drop_id [of "unat W - unat T" "drop (unat T) buf"] l
    by simp
  have uniq: "drop (unat ?F) buf = extra @ sec @ wd \<and> unat T = unat ?F + length extra \<and> unat W = unat T + length sec \<longleftrightarrow>
      extra = ?extra \<and> sec = ?sec \<and> wd = ?wd" for extra sec wd
  proof
    assume a: "drop (unat ?F) buf = extra @ sec @ wd \<and> unat T = unat ?F + length extra \<and> unat W = unat T + length sec"
    then have "?extra @ ?sec @ ?wd = extra @ sec @ wd" using split by simp
    moreover have "length ?extra = length extra" "length ?sec = length sec" using a l by auto
    ultimately show "extra = ?extra \<and> sec = ?sec \<and> wd = ?wd" by (metis append_eq_append_conv)
  next
    assume "extra = ?extra \<and> sec = ?sec \<and> wd = ?wd"
    then show "drop (unat ?F) buf = extra @ sec @ wd \<and> unat T = unat ?F + length extra \<and> unat W = unat T + length sec"
      using split l by auto
  qed
  have sl: "go_slice (unat ?F) (unat T) buf = Some ?extra" "go_slice (unat T) (unat W) buf = Some ?sec"
    "go_slice (unat W) (length buf) buf = Some ?wd" using l by (simp_all add: go_slice_def)
  have ls: "length ?sec < 2 ^ 32" using l unsigned_less [of W, where ?'a = nat] by simp
  have guard: "(T > ?F + 32 \<or> T > scope) \<longleftrightarrow> \<not> length ?extra \<le> 32"
    using l buf unat_fixed_plus [of v] by (auto simp: word_less_nat_alt)
  have wd0: "\<not> HasWithdrawals v \<Longrightarrow> ?wd = []" using w buf by simp
  define ext sec wd where "ext = ?extra" and "sec = ?sec" and "wd = ?wd"
  define P where "P = (\<lambda>extra txs wd. if HasWithdrawals v
        then \<exists>ws. length ws \<le> 16 \<and> list_all (\<lambda>w. length (wd_Address w) = 20) ws \<and> wd = concat (map wd_bytes ws) \<and>
               p = p0\<lparr>ep_ExtraData := extra, ep_Transactions := txs, ep_Withdrawals := Some ws\<rparr>
        else wd = [] \<and> p = p0\<lparr>ep_ExtraData := extra, ep_Transactions := txs\<rparr>)"
  have txs: "unmarshalTransactions sec = Some (Inr txs) \<longleftrightarrow> tx_decodes txs sec" for txs
    unfolding sec_def by (rule unmarshalTransactions_iff [OF ls])
  have body: "unmarshal_dynamic v scope ?F T W buf p0 =
      (if \<not> length ext \<le> 32 then Some (Inl ExtraDataTooLong)
       else (case unmarshalTransactions sec of
               None \<Rightarrow> None
             | Some (Inl e) \<Rightarrow> Some (Inl e)
             | Some (Inr txs) \<Rightarrow>
                 if HasWithdrawals v
                 then map_option (map_sum id (\<lambda>ws. p0\<lparr>ep_ExtraData := ext, ep_Transactions := txs, ep_Withdrawals := Some ws\<rparr>))
                        (unmarshalWithdrawals wd)
                 else Some (Inr (p0\<lparr>ep_ExtraData := ext, ep_Transactions := txs\<rparr>))))"
    unfolding unmarshal_dynamic_def guard sl ext_def sec_def wd_def by (simp only: Let_def prod.case option.case)
  have tail: "(if HasWithdrawals v
      then map_option (map_sum id (\<lambda>ws. p0\<lparr>ep_ExtraData := ext, ep_Transactions := txs, ep_Withdrawals := Some ws\<rparr>))
             (unmarshalWithdrawals wd)
      else Some (Inr (p0\<lparr>ep_ExtraData := ext, ep_Transactions := txs\<rparr>))) = Some (Inr p) \<longleftrightarrow> P ext txs wd" for txs
  proof (cases "HasWithdrawals v")
    case True
    then show ?thesis unfolding P_def using unmarshalWithdrawals_iff [of wd] by (simp add: map_sum_id_Inr) blast
  next
    case False
    then show ?thesis unfolding P_def using wd0 by (auto simp: wd_def)
  qed
  have "unmarshal_dynamic v scope ?F T W buf p0 = Some (Inr p) \<longleftrightarrow>
      length ext \<le> 32 \<and> (\<exists>txs. tx_decodes txs sec \<and> P ext txs wd)"
    unfolding body tail [symmetric] txs [symmetric] by (simp only: split: option.split sum.split if_split) auto
  also have "\<dots> \<longleftrightarrow> (\<exists>extra txs sec wd. drop (unat ?F) buf = extra @ sec @ wd \<and> unat T = unat ?F + length extra \<and>
      unat W = unat T + length sec \<and> length extra \<le> 32 \<and> tx_decodes txs sec \<and> P extra txs wd)"
    (is "?L \<longleftrightarrow> ?R")
  proof
    assume ?L
    then obtain txs where a: "length ext \<le> 32" "tx_decodes txs sec" "P ext txs wd" by (elim exE conjE)
    have "drop (unat ?F) buf = ext @ sec @ wd \<and> unat T = unat ?F + length ext \<and> unat W = unat T + length sec"
      unfolding uniq ext_def sec_def wd_def by (intro conjI refl)
    then show ?R using a by (intro exI [of _ ext] exI [of _ txs] exI [of _ sec] exI [of _ wd]) simp
  next
    assume ?R
    then obtain extra txs sec' wd' where a: "drop (unat ?F) buf = extra @ sec' @ wd' \<and> unat T = unat ?F + length extra \<and>
        unat W = unat T + length sec'" "length extra \<le> 32" "tx_decodes txs sec'" "P extra txs wd'" by (elim exE conjE) simp
    have "extra = ext \<and> sec' = sec \<and> wd' = wd" using a(1) unfolding uniq ext_def sec_def wd_def .
    then show ?L using a(2-4) by (intro conjI exI [of _ txs]) simp_all
  qed
  finally show ?thesis unfolding P_def .
qed


section \<open>The fixed part\<close>

definition base_payload :: "BlockVersion \<Rightarrow> bytes list \<Rightarrow> ExecutionPayload" where
  "base_payload v xs = zero_payload\<lparr>ep_ParentHash := xs ! 0, ep_FeeRecipient := xs ! 1, ep_StateRoot := xs ! 2,
     ep_ReceiptsRoot := xs ! 3, ep_LogsBloom := xs ! 4, ep_PrevRandao := xs ! 5,
     ep_BlockNumber := Uint64LE (xs ! 6), ep_GasLimit := Uint64LE (xs ! 7),
     ep_GasUsed := Uint64LE (xs ! 8), ep_Timestamp := Uint64LE (xs ! 9),
     ep_BaseFeePerGas := unmarshalBytes32LE (xs ! 11), ep_BlockHash := xs ! 12,
     ep_BlobGasUsed := (if v = BlockV3 then Some (Uint64LE (xs ! 15)) else None),
     ep_ExcessBlobGas := (if v = BlockV3 then Some (Uint64LE (xs ! 16)) else None)\<rparr>"

lemma fixed_widths_cases:
  assumes "map length xs = fixed_widths v"
  obtains x0 x1 x2 x3 x4 x5 x6 x7 x8 x9 x10 x11 x12 x13 dyn where
    "xs = x0 # x1 # x2 # x3 # x4 # x5 # x6 # x7 # x8 # x9 # x10 # x11 # x12 # x13 # dyn"
    "map length dyn = (if HasWithdrawals v then [4] else []) @ (if v = BlockV3 then [8, 8] else [])"
    "length x0 = 32" "length x1 = 20" "length x2 = 32" "length x3 = 32" "length x4 = 256" "length x5 = 32" "length x6 = 8"
    "length x7 = 8" "length x8 = 8" "length x9 = 8" "length x10 = 4" "length x11 = 32" "length x12 = 32" "length x13 = 4"
proof -
  have h: "map length (take 14 xs) = [32, 20, 32, 32, 256, 32, 8, 8, 8, 8, 4, 32, 32, 4]"
    unfolding take_map [symmetric] assms fixed_widths_def by simp
  have d: "map length (drop 14 xs) = (if HasWithdrawals v then [4] else []) @ (if v = BlockV3 then [8, 8] else [])"
    unfolding drop_map [symmetric] assms fixed_widths_def by simp
  obtain x0 x1 x2 x3 x4 x5 x6 x7 x8 x9 x10 x11 x12 x13 where
    e: "take 14 xs = [x0, x1, x2, x3, x4, x5, x6, x7, x8, x9, x10, x11, x12, x13]"
    and l: "length x0 = 32" "length x1 = 20" "length x2 = 32" "length x3 = 32" "length x4 = 256" "length x5 = 32" "length x6 = 8"
    "length x7 = 8" "length x8 = 8" "length x9 = 8" "length x10 = 4" "length x11 = 32" "length x12 = 32" "length x13 = 4"
    using h unfolding map_eq_Cons_conv by (elim exE conjE) (simp only: list.map map_is_Nil_conv)
  have "xs = x0 # x1 # x2 # x3 # x4 # x5 # x6 # x7 # x8 # x9 # x10 # x11 # x12 # x13 # drop 14 xs"
    using append_take_drop_id [of 14 xs] unfolding e by simp
  then show thesis using d l by (rule that)
qed

lemma dyn_cases:
  assumes "map length dyn = (if HasWithdrawals v then [4] else []) @ (if v = BlockV3 then [8, 8] else [])"
  shows "(HasWithdrawals v \<longrightarrow> dyn \<noteq> [] \<and> length (hd dyn) = 4) \<and> (v = BlockV3 \<longrightarrow> length dyn = 3 \<and> length (dyn ! 1) = 8 \<and> length (dyn ! 2) = 8) \<and>
    (v = BlockV1 \<longrightarrow> dyn = []) \<and> (v = BlockV2 \<longrightarrow> length dyn = 1)"
  using assms by (cases v) (auto simp: HasWithdrawals_def map_eq_Cons_conv)

lemma UnmarshalSSZ_head:
  assumes s: "executionPayloadFixedPart v \<le> scope" "unat scope \<le> length r"
    and xs: "get_fields (fixed_widths v) 0 (take (unat scope) r) = Some xs"
  shows "UnmarshalSSZ v scope r zero_payload =
    (let F = executionPayloadFixedPart v; T = Uint32LE (xs ! 13); W = (if HasWithdrawals v then Uint32LE (xs ! 14) else scope) in
     if Uint32LE (xs ! 10) \<noteq> F then Some (Inl BadExtraDataOffset)
     else if T < F then Some (Inl ErrBadTransactionOffset)
     else if HasWithdrawals v \<and> W < T then Some (Inl ErrBadWithdrawalsOffset)
     else if HasWithdrawals v \<and> W > scope then Some (Inl WithdrawalsOffsetTooLarge)
     else map_option (map_sum id (\<lambda>p2. (p2, drop (unat scope) r)))
            (unmarshal_dynamic v scope F T W (take (unat scope) r) (base_payload v xs)))"
proof -
  have ml: "map length xs = fixed_widths v" using xs by (simp add: get_fields_iff)
  obtain x0 x1 x2 x3 x4 x5 x6 x7 x8 x9 x10 x11 x12 x13 dyn where
    e: "xs = x0 # x1 # x2 # x3 # x4 # x5 # x6 # x7 # x8 # x9 # x10 # x11 # x12 # x13 # dyn"
    and d: "map length dyn = (if HasWithdrawals v then [4] else []) @ (if v = BlockV3 then [8, 8] else [])"
    by (rule fixed_widths_cases [OF ml])
  have hd: "HasWithdrawals v \<Longrightarrow> hd dyn = dyn ! 0" using dyn_cases [OF d] by (simp add: hd_conv_nth)
  have s': "\<not> scope < executionPayloadFixedPart v" "\<not> length r < unat scope" using s by simp_all
  show ?thesis
    unfolding UnmarshalSSZ_def Let_def xs unfolding e option.case list.case using s' hd
    by (cases "v = BlockV3"; cases "HasWithdrawals v") (simp_all add: base_payload_def zero_payload_def)
qed


lemma sum_fixed_widths: "sum_list (fixed_widths v) = unat (executionPayloadFixedPart v)"
  by (cases v) (simp_all add: fixed_widths_def HasWithdrawals_def fixed_part_nat)

lemma unmarshal_marshal_32 [simp]: "unmarshalBytes32LE (marshalBytes32LE z) = z"
  by (cases z) (simp add: unmarshalBytes32LE_def)

lemma marshal_unmarshal_32:
  assumes "length x = 32"
  shows "marshalBytes32LE (unmarshalBytes32LE x) = x"
proof -
  have "x = take 8 x @ take 8 (drop 8 x) @ take 8 (drop 16 x) @ take 8 (drop 24 x)"
    using append_take_drop_id [of 8 x] append_take_drop_id [of 8 "drop 8 x"] append_take_drop_id [of 8 "drop 16 x"] assms
    by simp
  then show ?thesis using assms by (simp add: unmarshalBytes32LE_def Put_Uint(4))
qed

lemma head_fields_nth:
  "head_fields v p n ! 10 = PutUint32LE (executionPayloadFixedPart v)"
  "head_fields v p n ! 13 = PutUint32LE (executionPayloadFixedPart v + of_nat (length (ep_ExtraData p)))"
  "HasWithdrawals v \<Longrightarrow> head_fields v p n ! 14 = PutUint32LE (executionPayloadFixedPart v + of_nat (length (ep_ExtraData p)) + of_nat n)"
  by (simp_all add: head_fields_def Let_def)

lemma base_payload_head:
  assumes "version_fields v p"
  shows "p = (base_payload v (head_fields v p n))\<lparr>ep_ExtraData := ep_ExtraData p, ep_Transactions := ep_Transactions p,
    ep_Withdrawals := ep_Withdrawals p\<rparr>"
  using assms by (cases v; cases p)
    (auto simp: base_payload_def head_fields_def Let_def version_fields_def HasWithdrawals_def zero_payload_def)

lemma UnmarshalSSZ_complete:
  assumes v: "valid_payload v p" and sec: "tx_decodes (ep_Transactions p) sec" and r: "r = payload_with v p sec @ rest"
    and s: "unat scope = length (payload_with v p sec)"
  shows "UnmarshalSSZ v scope r zero_payload = Some (Inr (p, rest))"
proof -
  let ?F = "executionPayloadFixedPart v" and ?e = "ep_ExtraData p" and ?xs = "head_fields v p (length sec)"
  let ?T = "?F + of_nat (length ?e)"
  let ?W = "if HasWithdrawals v then ?T + of_nat (length sec) else scope"
  have w: "array_widths p" "version_fields v p" "length ?e \<le> 32"
    "length (case ep_Withdrawals p of None \<Rightarrow> [] | Some ws \<Rightarrow> ws) \<le> 16" using v by (auto simp: valid_payload_def)
  note len = length_head [OF w(1), of v "length sec"]
  have sl: "unat scope = unat ?F + length ?e + length sec + length (wd_section p)" using s len by (simp add: payload_with_def)
  have small: "unat scope < 2 ^ 32" using unsigned_less [of scope, where ?'a = nat] by simp
  have buf: "take (unat scope) r = payload_with v p sec" "drop (unat scope) r = rest" using s r by simp_all
  have uT: "unat ?T = unat ?F + length ?e" using sl small by (intro unat_add_u32) simp
  have uW: "unat ?W = unat ?T + length sec" 
  proof (cases "HasWithdrawals v")
    case True
    then show ?thesis using sl small uT unat_add_u32 [of ?T "length sec"] by simp
  next
    case False
    then show ?thesis using sl uT w(2) by (simp add: version_fields_def wd_section_def)
  qed
  have g: "get_fields (fixed_widths v) 0 (take (unat scope) r) = Some ?xs"
    unfolding get_fields_iff buf sum_fixed_widths using map_length_head [OF w(1)] len sl s by (simp add: payload_with_def)
  have le: "?F \<le> ?T" "?T \<le> ?W" "?W \<le> scope" using uT uW sl by (simp_all add: word_le_nat_alt)
  have dyn: "unmarshal_dynamic v scope ?F ?T ?W (take (unat scope) r) (base_payload v ?xs) = Some (Inr p)"
  proof (subst unmarshal_dynamic_iff [OF _ le])
    show "length (take (unat scope) r) = unat scope" using buf s by simp
    have "drop (unat ?F) (take (unat scope) r) = ?e @ sec @ wd_section p" unfolding buf using len by (simp add: payload_with_def)
    moreover have "if HasWithdrawals v
        then \<exists>ws. length ws \<le> 16 \<and> list_all (\<lambda>w. length (wd_Address w) = 20) ws \<and> wd_section p = concat (map wd_bytes ws) \<and>
               p = (base_payload v ?xs)\<lparr>ep_ExtraData := ?e, ep_Transactions := ep_Transactions p, ep_Withdrawals := Some ws\<rparr>
        else wd_section p = [] \<and> p = (base_payload v ?xs)\<lparr>ep_ExtraData := ?e, ep_Transactions := ep_Transactions p\<rparr>"
    proof (cases "ep_Withdrawals p")
      case None
      then have "\<not> HasWithdrawals v" using w(2) by (simp add: version_fields_def)
      moreover have "ep_Withdrawals (base_payload v ?xs) = None" by (simp add: base_payload_def zero_payload_def)
      then have "(base_payload v ?xs)\<lparr>ep_ExtraData := ?e, ep_Transactions := ep_Transactions p, ep_Withdrawals := None\<rparr> =
          (base_payload v ?xs)\<lparr>ep_ExtraData := ?e, ep_Transactions := ep_Transactions p\<rparr>" by (cases "base_payload v ?xs") simp
      ultimately show ?thesis using None base_payload_head [OF w(2), of "length sec"] by (simp add: wd_section_def)
    next
      case (Some ws)
      then have "HasWithdrawals v" using w(2) by (simp add: version_fields_def)
      then show ?thesis using Some base_payload_head [OF w(2), of "length sec"] w(1,4) by (auto simp: wd_section_def array_widths_def)
    qed
    ultimately show "\<exists>extra txs sec wd. drop (unat ?F) (take (unat scope) r) = extra @ sec @ wd \<and>
       unat ?T = unat ?F + length extra \<and> unat ?W = unat ?T + length sec \<and> length extra \<le> 32 \<and> tx_decodes txs sec \<and>
       (if HasWithdrawals v
        then \<exists>ws. length ws \<le> 16 \<and> list_all (\<lambda>w. length (wd_Address w) = 20) ws \<and> wd = concat (map wd_bytes ws) \<and>
               p = (base_payload v ?xs)\<lparr>ep_ExtraData := extra, ep_Transactions := txs, ep_Withdrawals := Some ws\<rparr>
        else wd = [] \<and> p = (base_payload v ?xs)\<lparr>ep_ExtraData := extra, ep_Transactions := txs\<rparr>)"
      using uT uW w(3) sec by (intro exI [of _ ?e] exI [of _ "ep_Transactions p"] exI [of _ sec] exI [of _ "wd_section p"] conjI) assumption+
  qed simp
  have F: "?F \<le> scope" "unat scope \<le> length r" using sl r s by (simp_all add: word_le_nat_alt)
  have W: "(if HasWithdrawals v then Uint32LE (?xs ! 14) else scope) = ?W" by (simp add: head_fields_nth)
  show ?thesis
    unfolding UnmarshalSSZ_head [OF F g] Let_def W head_fields_nth(1,2) Uint_PutUint dyn buf(2)
    using le by (cases "HasWithdrawals v") (simp_all add: not_less)
qed


lemma head_fields_base:
  assumes xs: "map length xs = fixed_widths v" and F: "Uint32LE (xs ! 10) = executionPayloadFixedPart v"
    and T: "Uint32LE (xs ! 13) = executionPayloadFixedPart v + of_nat (length extra)"
    and W: "HasWithdrawals v \<Longrightarrow> Uint32LE (xs ! 14) = executionPayloadFixedPart v + of_nat (length extra) + of_nat n"
    and p: "p = (base_payload v xs)\<lparr>ep_ExtraData := extra, ep_Transactions := txs, ep_Withdrawals := ws\<rparr>"
  shows "head_fields v p n = xs"
proof -
  obtain x0 x1 x2 x3 x4 x5 x6 x7 x8 x9 x10 x11 x12 x13 dyn where
    e: "xs = x0 # x1 # x2 # x3 # x4 # x5 # x6 # x7 # x8 # x9 # x10 # x11 # x12 # x13 # dyn"
    and d: "map length dyn = (if HasWithdrawals v then [4] else []) @ (if v = BlockV3 then [8, 8] else [])"
    and l: "length x6 = 8" "length x7 = 8" "length x8 = 8" "length x9 = 8" "length x10 = 4" "length x11 = 32" "length x13 = 4"
    by (rule fixed_widths_cases [OF xs])
  have F': "PutUint32LE (executionPayloadFixedPart v) = x10" using F l(5) Put_Uint(5) [of x10] unfolding e by simp
  have T': "PutUint32LE (executionPayloadFixedPart v + of_nat (length extra)) = x13" using T l(7) Put_Uint(5) [of x13] unfolding e by simp
  have W': "HasWithdrawals v \<Longrightarrow> length (dyn ! 0) = 4 \<Longrightarrow>
      PutUint32LE (executionPayloadFixedPart v + of_nat (length extra) + of_nat n) = dyn ! 0"
    using W Put_Uint(5) [of "dyn ! 0"] unfolding e by simp
  have dyn: "(if HasWithdrawals v then [PutUint32LE (executionPayloadFixedPart v + of_nat (length extra) + of_nat n)] else []) @
      (if v = BlockV3 then [PutUint64LE (Uint64LE (dyn ! 1)), PutUint64LE (Uint64LE (dyn ! 2))] else []) = dyn"
    using d W' by (cases v) (auto simp: HasWithdrawals_def map_eq_Cons_conv Put_Uint(4))
  have "PutUint64LE (Uint64LE x6) = x6" "PutUint64LE (Uint64LE x7) = x7" "PutUint64LE (Uint64LE x8) = x8" "PutUint64LE (Uint64LE x9) = x9"
    using l by (simp_all add: Put_Uint(4))
  then show ?thesis unfolding head_fields_def Let_def p e using F' T' dyn marshal_unmarshal_32 [OF l(6)]
    by (cases v) (simp_all add: base_payload_def HasWithdrawals_def)
qed

lemma UnmarshalSSZ_sound:
  assumes u: "UnmarshalSSZ v scope r zero_payload = Some (Inr (p, rest))"
  shows "\<exists>sec. valid_payload v p \<and> tx_decodes (ep_Transactions p) sec \<and> r = payload_with v p sec @ rest \<and>
    unat scope = length (payload_with v p sec)"
proof -
  let ?F = "executionPayloadFixedPart v" and ?buf = "take (unat scope) r"
  have s: "?F \<le> scope" "unat scope \<le> length r" using u by (auto simp: UnmarshalSSZ_def Let_def split: if_splits)
  have lb: "length ?buf = unat scope" using s(2) by simp
  obtain xs where xs: "get_fields (fixed_widths v) 0 ?buf = Some xs"
    using get_fields_total [of 0 "fixed_widths v" ?buf] s by (auto simp: sum_fixed_widths word_le_nat_alt)
  have G: "map length xs = fixed_widths v" "take (unat ?F) ?buf = concat xs"
    using xs by (simp_all add: get_fields_iff sum_fixed_widths)
  define T W where "T = Uint32LE (xs ! 13)" and "W = (if HasWithdrawals v then Uint32LE (xs ! 14) else scope)"
  note H = u [unfolded UnmarshalSSZ_head [OF s xs] Let_def, folded T_def W_def]
  have c: "Uint32LE (xs ! 10) = ?F" "?F \<le> T" "HasWithdrawals v \<Longrightarrow> T \<le> W \<and> W \<le> scope"
    and dyn: "unmarshal_dynamic v scope ?F T W ?buf (base_payload v xs) = Some (Inr p)" and rest: "rest = drop (unat scope) r"
    using H by (auto simp: map_sum_id_Inr not_less split: if_splits)
  have "T \<le> scope" using dyn by (auto simp: unmarshal_dynamic_def not_less split: if_splits)
  then have TW: "T \<le> W" "W \<le> scope" using c(3) by (auto simp: W_def)
  have w: "HasWithdrawals v \<or> W = scope" by (simp add: W_def)
  obtain extra txs sec wd where E: "drop (unat ?F) ?buf = extra @ sec @ wd" "unat T = unat ?F + length extra" "unat W = unat T + length sec"
      "length extra \<le> 32" "tx_decodes txs sec" and P: "if HasWithdrawals v
        then \<exists>ws. length ws \<le> 16 \<and> list_all (\<lambda>w. length (wd_Address w) = 20) ws \<and> wd = concat (map wd_bytes ws) \<and>
               p = (base_payload v xs)\<lparr>ep_ExtraData := extra, ep_Transactions := txs, ep_Withdrawals := Some ws\<rparr>
        else wd = [] \<and> p = (base_payload v xs)\<lparr>ep_ExtraData := extra, ep_Transactions := txs\<rparr>"
    using dyn unfolding unmarshal_dynamic_iff [OF lb c(2) TW w] by (elim exE conjE)
  obtain ws where p: "p = (base_payload v xs)\<lparr>ep_ExtraData := extra, ep_Transactions := txs, ep_Withdrawals := ws\<rparr>"
    and ws: "(ws \<noteq> None) = HasWithdrawals v" "wd = concat (map wd_bytes (case ws of None \<Rightarrow> [] | Some ws \<Rightarrow> ws))"
      "length (case ws of None \<Rightarrow> [] | Some ws \<Rightarrow> ws) \<le> 16"
      "list_all (\<lambda>w. length (wd_Address w) = 20) (case ws of None \<Rightarrow> [] | Some ws \<Rightarrow> ws)"
  proof (cases "HasWithdrawals v")
    case True
    then obtain ws where "length ws \<le> 16" "list_all (\<lambda>w. length (wd_Address w) = 20) ws" "wd = concat (map wd_bytes ws)"
      "p = (base_payload v xs)\<lparr>ep_ExtraData := extra, ep_Transactions := txs, ep_Withdrawals := Some ws\<rparr>" using P by auto
    then show thesis using that [of "Some ws"] True by simp
  next
    case False
    then have "wd = []" "p = (base_payload v xs)\<lparr>ep_ExtraData := extra, ep_Transactions := txs\<rparr>" using P by simp_all
    moreover have "(base_payload v xs)\<lparr>ep_ExtraData := extra, ep_Transactions := txs\<rparr> =
        (base_payload v xs)\<lparr>ep_ExtraData := extra, ep_Transactions := txs, ep_Withdrawals := None\<rparr>"
      by (simp add: base_payload_def zero_payload_def)
    ultimately show thesis using that [of None] False by simp
  qed
  have fld: "ep_ExtraData p = extra" "ep_Transactions p = txs" "ep_Withdrawals p = ws" unfolding p by simp_all
  have Tw: "T = ?F + of_nat (length extra)"
    by (rule unsigned_word_eqI [where ?'a = nat]) (use E(2) unat_add_u32 [of ?F "length extra"] unsigned_less [of T, where ?'a = nat] in simp)
  have Ww: "W = ?F + of_nat (length extra) + of_nat (length sec)"
    unfolding Tw [symmetric]
    by (rule unsigned_word_eqI [where ?'a = nat]) (use E(3) unat_add_u32 [of T "length sec"] unsigned_less [of W, where ?'a = nat] in simp)
  have head: "head_fields v p (length sec) = xs"
    by (rule head_fields_base [OF G(1) c(1) _ _ p]) (use Tw Ww in \<open>simp_all add: T_def W_def\<close>)
  have "?buf = payload_with v p sec"
    unfolding payload_with_def head G(2) [symmetric] fld wd_section_def ws(2) [symmetric] E(1) [symmetric]
    by (rule append_take_drop_id [symmetric])
  moreover have "array_widths p"
  proof -
    obtain x0 x1 x2 x3 x4 x5 x6 x7 x8 x9 x10 x11 x12 x13 dyn where
      "xs = x0 # x1 # x2 # x3 # x4 # x5 # x6 # x7 # x8 # x9 # x10 # x11 # x12 # x13 # dyn"
      "length x0 = 32" "length x1 = 20" "length x2 = 32" "length x3 = 32" "length x4 = 256" "length x5 = 32" "length x12 = 32"
      by (rule fixed_widths_cases [OF G(1)])
    then show ?thesis unfolding array_widths_def fld(3) using ws(4) unfolding p by (simp add: base_payload_def)
  qed
  then have "valid_payload v p"
    using E(4) ws(1,3) fld unfolding valid_payload_def version_fields_def by (simp add: p base_payload_def)
  ultimately show ?thesis using E(5) fld(2) rest lb append_take_drop_id [of "unat scope" r] by (intro exI [of _ sec]) simp
qed


lemma unmarshal_dynamic_total:
  assumes buf: "length buf = unat scope" and le: "executionPayloadFixedPart v \<le> T" "T \<le> W" "W \<le> scope"
  shows "\<exists>res. unmarshal_dynamic v scope (executionPayloadFixedPart v) T W buf p = Some res"
proof -
  let ?F = "executionPayloadFixedPart v"
  let ?sec = "take (unat W - unat T) (drop (unat T) buf)" and ?wd = "drop (unat W) buf"
  have l: "unat ?F \<le> unat T" "unat T \<le> unat W" "unat W \<le> length buf" using le buf by (simp_all add: word_le_nat_alt)
  have sl: "go_slice (unat ?F) (unat T) buf \<noteq> None" "go_slice (unat T) (unat W) buf = Some ?sec"
    "go_slice (unat W) (length buf) buf = Some ?wd" using l by (simp_all add: go_slice_def)
  have "length ?sec < 2 ^ 32" using l unsigned_less [of W, where ?'a = nat] by simp
  then obtain res where "unmarshalTransactions ?sec = Some res" using unmarshalTransactions_total by blast
  moreover obtain res' where "unmarshalWithdrawals ?wd = Some res'" using unmarshalWithdrawals_total by blast
  ultimately show ?thesis unfolding unmarshal_dynamic_def using sl by (auto simp: Let_def split: sum.split option.split)
qed

lemma UnmarshalSSZ_total: "\<exists>res. UnmarshalSSZ v scope r zero_payload = Some res"
proof (cases "executionPayloadFixedPart v \<le> scope \<and> unat scope \<le> length r")
  case False
  then show ?thesis by (auto simp: UnmarshalSSZ_def Let_def not_le)
next
  case True
  let ?F = "executionPayloadFixedPart v"
  obtain xs where xs: "get_fields (fixed_widths v) 0 (take (unat scope) r) = Some xs"
    using get_fields_total [of 0 "fixed_widths v" "take (unat scope) r"] True by (auto simp: sum_fixed_widths word_le_nat_alt)
  define T W where "T = Uint32LE (xs ! 13)" and "W = (if HasWithdrawals v then Uint32LE (xs ! 14) else scope)"
  note H = UnmarshalSSZ_head [OF conjunct1 [OF True] conjunct2 [OF True] xs, unfolded Let_def, folded T_def W_def]
  have "\<exists>res. unmarshal_dynamic v scope ?F T W (take (unat scope) r) (base_payload v xs) = Some res"
    if g: "?F \<le> T" "HasWithdrawals v \<longrightarrow> T \<le> W \<and> W \<le> scope"
  proof (cases "T \<le> scope")
    case True
    then have "T \<le> W" "W \<le> scope" using g(2) by (auto simp: W_def)
    then show ?thesis using g(1) \<open>?F \<le> scope \<and> unat scope \<le> length r\<close> by (intro unmarshal_dynamic_total) simp_all
  next
    case False
    then show ?thesis by (simp add: unmarshal_dynamic_def not_le)
  qed
  then show ?thesis unfolding H by (auto simp: not_less)
qed

section \<open>Properties\<close>

text \<open>C7. The encoder writes the reference encoding, whatever the pooled buffer held and however large it is:
  the 32-bit offsets, the bounds of the slices and the consistency checks of the fixed part never fail
  for a payload whose encoding is shorter than 4 GiB and whose optional fields fit one version.\<close>

theorem MarshalSSZ_writes_reference:
  assumes "array_widths p" "version_fields v p" "length pool < 2 ^ 32" "length (payload_bytes p) < 2 ^ 32"
  shows "MarshalSSZ pool p = Some (Inr (payload_bytes p)) \<and> unat (SizeSSZ p) = length (payload_bytes p)"
  using MarshalSSZ_ok [OF assms] SizeSSZ_bytes [OF assms(1)] unat_of_nat_u32 [OF assms(4)] by simp

definition ex_payload :: ExecutionPayload where
  "ex_payload = zero_payload\<lparr>ep_ExtraData := [1, 2], ep_Transactions := [[3], [4, 5]],
     ep_Withdrawals := Some [], ep_BlobGasUsed := Some 6, ep_ExcessBlobGas := Some 7\<rparr>"

lemma ex_payload_ok: "array_widths ex_payload" "version_fields BlockV3 ex_payload" "length (payload_bytes ex_payload) = 541"
proof -
  show w: "array_widths ex_payload" by (simp add: array_widths_def ex_payload_def zero_payload_def)
  show v: "version_fields BlockV3 ex_payload" by (simp add: version_fields_def ex_payload_def HasWithdrawals_def)
  have "ep_ExtraData ex_payload = [1, 2]" "wd_section ex_payload = []" "ep_Transactions ex_payload = [[3], [4, 5]]"
    by (simp_all add: ex_payload_def wd_section_def)
  then show "length (payload_bytes ex_payload) = 541"
    unfolding payload_bytes_def version_fields_infer [OF v] payload_with_def length_append length_head [OF w] length_tx_section
    by (simp add: fixed_part_nat)
qed

theorem MarshalSSZ_writes_reference_witness:
  "MarshalSSZ [9, 9, 9] ex_payload = Some (Inr (payload_bytes ex_payload)) \<and> unat (SizeSSZ ex_payload) = 541"
  using MarshalSSZ_writes_reference [OF ex_payload_ok(1,2), of "[9, 9, 9]"] ex_payload_ok(3) by simp

text \<open>C6. The decoder accepts exactly the encodings of valid payloads of the version, of the length it is told,
  and returns the payload and the unread rest. The only slack is in the transactions section: with no
  transactions it accepts, besides the empty section, every section that begins with a zero offset.\<close>

theorem UnmarshalSSZ_accepts_iff:
  "UnmarshalSSZ v scope r zero_payload = Some (Inr (p, rest)) \<longleftrightarrow>
   (\<exists>sec. valid_payload v p \<and> tx_decodes (ep_Transactions p) sec \<and> r = payload_with v p sec @ rest \<and>
      unat scope = length (payload_with v p sec))"
  using UnmarshalSSZ_complete [of v p _ r rest scope] UnmarshalSSZ_sound [of v scope r p rest] by blast

text \<open>C37. What the encoder writes for a valid payload with a bounded number of transactions is decoded to the
  same payload, with what follows it left unread.\<close>

theorem payload_round_trip:
  assumes "valid_payload v p" "length (ep_Transactions p) \<le> 2 ^ 20" "length (payload_bytes p) < 2 ^ 32" "length pool < 2 ^ 32"
  shows "\<exists>enc. MarshalSSZ pool p = Some (Inr enc) \<and>
    UnmarshalSSZ v (of_nat (length enc)) (enc @ rest) zero_payload = Some (Inr (p, rest))"
proof (intro exI conjI)
  have w: "array_widths p" "version_fields v p" using assms(1) by (auto simp: valid_payload_def)
  show "MarshalSSZ pool p = Some (Inr (payload_bytes p))" by (rule MarshalSSZ_ok [OF w assms(4,3)])
  show "UnmarshalSSZ v (of_nat (length (payload_bytes p))) (payload_bytes p @ rest) zero_payload = Some (Inr (p, rest))"
    using assms(2) unat_of_nat_u32 [OF assms(3)] version_fields_infer [OF w(2)]
    by (intro UnmarshalSSZ_complete [OF assms(1), where sec = "tx_section (ep_Transactions p)"])
      (simp_all add: tx_decodes_def payload_bytes_def)
qed

theorem payload_round_trip_witness:
  "\<exists>enc. MarshalSSZ [] ex_payload = Some (Inr enc) \<and>
     UnmarshalSSZ BlockV3 (of_nat (length enc)) (enc @ [1, 1]) zero_payload = Some (Inr (ex_payload, [1, 1]))"
  by (rule payload_round_trip)
    (use ex_payload_ok in \<open>simp_all add: valid_payload_def ex_payload_def\<close>)

text \<open>The decoder never panics, on any input and for any claimed length: no slice of it is out of
  bounds.\<close>

theorem UnmarshalSSZ_never_panics: "UnmarshalSSZ v scope r zero_payload \<noteq> None"
  using UnmarshalSSZ_total [of v scope r] by auto

text \<open>A transactions section that begins with a zero offset decodes to no transactions, whatever bytes
  follow: two different encodings are accepted for the same payload.\<close>

theorem zero_tx_offset_hides_bytes:
  assumes "length junk + 4 < 2 ^ 32"
  shows "unmarshalTransactions ([0, 0, 0, 0] @ junk) = Some (Inr [])"
  using unmarshalTransactions_iff [of "[0, 0, 0, 0] @ junk" "[]"] assms by (simp add: tx_decodes_def)

theorem zero_tx_offset_hides_bytes_witness:
  "unmarshalTransactions ([0, 0, 0, 0] @ [1, 2, 3]) = unmarshalTransactions []"
  using zero_tx_offset_hides_bytes [of "[1, 2, 3]"] by (simp add: unmarshalTransactions_def)

text \<open>The bytes a field takes in the fixed part of an SSZ container.\<close>

fun fixed_width :: "SszField \<Rightarrow> nat" where
  "fixed_width (DefineUint64 v) = 8"
| "fixed_width (DefineUint256 v) = 32"
| "fixed_width (DefineBool b) = 1"
| "fixed_width (DefineStaticBytes b) = length b"
| "fixed_width DefineOffset = 4"
| "fixed_width (DefineDynamicBytesContent b n) = 0"
| "fixed_width (DefineSliceOfDynamicBytesContent b m n) = 0"

fun is_content :: "SszField \<Rightarrow> bool" where
  "is_content (DefineDynamicBytesContent b n) = True"
| "is_content (DefineSliceOfDynamicBytesContent b m n) = True"
| "is_content f = False"

text \<open>The declared layouts against the reported sizes: the fixed parts of frag and env have the reported
  sizes, the seal takes 32 bytes more than \<^verbatim>\<open>SizeSSZ\<close> reports, the constant for the fixed part of a
  frag is 8 too large, and the env declares a fixed field after its dynamic content.\<close>

theorem declared_ssz_sizes:
  assumes "list_all (\<lambda>h. length h = 32) [env_ParentHash e, env_Prevrandao e, env_ParentBeaconBlockRoot e]" "length (env_Beneficiary e) = 20"
    and "list_all (\<lambda>h. length h = 32)
      [seal_ParentHash s, seal_TransactionsRoot s, seal_ReceiptsRoot s, seal_StateRoot s, seal_BlockHash s]"
  shows "sum_list (map fixed_width (NewFrag_DefineSSZ f)) = unat (NewFrag_SizeSSZ 0 True) \<and>
    sum_list (map fixed_width (Env_DefineSSZ e)) = unat (Env_SizeSSZ 0 True) \<and>
    sum_list (map fixed_width (Seal_DefineSSZ s)) = unat Seal_SizeSSZ + 32 \<and>
    unat NewFragFixedSize = unat (NewFrag_SizeSSZ 0 True) + 8 \<and>
    is_content (Env_DefineSSZ e ! 9) \<and> fixed_width (last (Env_DefineSSZ e)) = 32"
  using assms by (simp add: NewFrag_DefineSSZ_def NewFrag_SizeSSZ_def Env_DefineSSZ_def Env_SizeSSZ_def Seal_DefineSSZ_def
      Seal_SizeSSZ_def NewFragFixedSize_def Let_def)

definition ex_size_seal :: Seal where
  "ex_size_seal = \<lparr>seal_TotalFrags = 1, seal_BlockNumber = 2, seal_GasUsed = 3, seal_GasLimit = 4,
     seal_ParentHash = replicate 32 0, seal_TransactionsRoot = replicate 32 0, seal_ReceiptsRoot = replicate 32 0,
     seal_StateRoot = replicate 32 0, seal_BlockHash = replicate 32 0\<rparr>"

definition ex_size_env :: Env where
  "ex_size_env = \<lparr>env_Number = 1, env_ParentHash = replicate 32 0, env_Beneficiary = replicate 20 0, env_Timestamp = 2,
     env_GasLimit = 3, env_Basefee = 4, env_Difficulty = 0, env_Prevrandao = replicate 32 0, env_ExtraData = [],
     env_ParentBeaconBlockRoot = replicate 32 0\<rparr>"

theorem declared_ssz_sizes_witness:
  "sum_list (map fixed_width (Seal_DefineSSZ ex_size_seal)) = 192 \<and> unat Seal_SizeSSZ = 160 \<and>
   sum_list (map fixed_width (Env_DefineSSZ ex_size_env)) = 184"
proof -
  have "list_all (\<lambda>h. length h = 32) [env_ParentHash ex_size_env, env_Prevrandao ex_size_env, env_ParentBeaconBlockRoot ex_size_env]"
    "length (env_Beneficiary ex_size_env) = 20"
    "list_all (\<lambda>h. length h = 32) [seal_ParentHash ex_size_seal, seal_TransactionsRoot ex_size_seal, seal_ReceiptsRoot ex_size_seal,
       seal_StateRoot ex_size_seal, seal_BlockHash ex_size_seal]" by (simp_all add: ex_size_env_def ex_size_seal_def)
  from declared_ssz_sizes [OF this] show ?thesis by (simp add: Seal_SizeSSZ_def Env_SizeSSZ_def Let_def)
qed

end
