(* ===== verification/Registry_Props.thy ===== *)
theory Registry_Props
  imports Registry
begin

text \<open>
  The registry cache stays bounded and keeps its newest entry, and a fetch whose answers fit a slice does
  not panic, tries the registry a bounded number of times and stops at the first complete answer.
\<close>

section \<open>The cache\<close>

lemma length_set_bytes: "length (set_bytes n b) = n"
  by (simp add: set_bytes_def Let_def)

lemma foldl_gm_del_get: "gm_get (foldl (\<lambda>g num. gm_del num g) g ks) k = (if k \<in> set ks then None else gm_get g k)"
  by (induction ks arbitrary: g) (auto simp: gomap_simps)

lemma foldl_gm_del_wf: "gm_wf g \<Longrightarrow> gm_wf (foldl (\<lambda>g num. gm_del num g) g ks)"
  by (induction ks arbitrary: g) auto

lemma gm_keys: "fst ` set g = {k. gm_get g k \<noteq> None}"
  by (auto simp: gm_get_def map_of_eq_None_iff)

lemma gm_length: "gm_wf g \<Longrightarrow> length g = card (fst ` set g)"
  using distinct_card [of "map fst g"] by (simp add: gm_wf_def)

text \<open>The keys lie at or below the mark, and the mark is cached unless nothing is.\<close>

definition reg_marks :: "RegistryClient \<Rightarrow> bool" where
  "reg_marks r \<longleftrightarrow>
     gm_wf (rc_gateways r) \<and>
     (\<forall>k \<in> fst ` set (rc_gateways r). k \<le> rc_latestFetchedBlock r) \<and>
     (rc_gateways r \<noteq> [] \<longrightarrow> rc_latestFetchedBlock r \<in> fst ` set (rc_gateways r))"

definition reg_inv :: "RegistryClient \<Rightarrow> bool" where
  "reg_inv r \<longleftrightarrow> reg_marks r \<and> length (rc_gateways r) \<le> 100"

lemma reg_inv_gateways:
  "gm_wf g \<Longrightarrow> \<forall>k \<in> fst ` set g. k \<le> rc_latestFetchedBlock r \<Longrightarrow> rc_latestFetchedBlock r \<in> fst ` set g \<Longrightarrow>
   length g \<le> 100 \<Longrightarrow> reg_inv (r\<lparr>rc_gateways := g\<rparr>)"
  by (simp add: reg_inv_def reg_marks_def)

lemma gm_put_nonempty: "gm_put k v g \<noteq> []"
  by (metis gm.get_put gm.get_empty option.distinct(1))

lemma gm_put_keys: "fst ` set (gm_put k v g) = insert k (fst ` set g)"
  by (auto simp: gm_keys gomap_simps split: if_splits)

lemma update_marks: "(rc_gateways r = [] \<longrightarrow> rc_latestFetchedBlock r = 0) \<and> reg_marks r \<Longrightarrow>
  (rc_gateways (updateGatewayInfo rs r) = [] \<longrightarrow> rc_latestFetchedBlock (updateGatewayInfo rs r) = 0) \<and> reg_marks (updateGatewayInfo rs r)"
proof (induction rs arbitrary: r)
  case (Cons x rs)
  let ?r = "\<lparr>rc_gateways = gm_put (rr_BlockNumber x) x (rc_gateways r),
      rc_latestFetchedBlock = (if rr_BlockNumber x > rc_latestFetchedBlock r then rr_BlockNumber x else rc_latestFetchedBlock r)\<rparr>"
  have "reg_marks ?r"
    unfolding reg_marks_def using Cons.prems by (cases "rc_gateways r = []") (auto simp: reg_marks_def gm_put_keys not_less)
  then show ?case using Cons.IH [of ?r] by (simp add: updateGatewayInfo_def gm_put_nonempty)
qed (simp add: updateGatewayInfo_def)

lemma cleanup_ok:
  assumes m: "reg_marks r"
  shows "\<exists>r'. cleanupOldGateways 100 50 r = Some r' \<and> reg_inv r' \<and> rc_latestFetchedBlock r' = rc_latestFetchedBlock r \<and>
    (rc_gateways r' = [] \<longrightarrow> rc_gateways r = [])"
proof (cases "length (rc_gateways r) \<le> 100")
  case True
  then show ?thesis using m by (simp add: cleanupOldGateways_def reg_inv_def)
next
  case False
  let ?g = "rc_gateways r" and ?m = "rc_latestFetchedBlock r"
  let ?s = "sort (map fst ?g)"
  let ?del = "take (length ?s - 50) ?s"
  let ?g' = "foldl (\<lambda>g num. gm_del num g) ?g ?del"
  let ?r' = "r\<lparr>rc_gateways := ?g'\<rparr>"
  have wf: "gm_wf ?g" using m by (simp add: reg_marks_def)
  then have ds: "distinct ?s" by (simp add: gm_wf_def)
  have e: "cleanupOldGateways 100 50 r = Some ?r'" using False by (simp add: cleanupOldGateways_def Let_def)
  have keys: "fst ` set ?g' = fst ` set ?g - set ?del" by (auto simp: gm_keys foldl_gm_del_get split: if_splits)
  have sub: "set ?del \<subseteq> fst ` set ?g" using set_take_subset [of "length ?s - 50" ?s] by simp
  have "length ?g' = card (fst ` set ?g - set ?del)" using gm_length [OF foldl_gm_del_wf [OF wf]] keys by simp
  also have "\<dots> = card (fst ` set ?g) - card (set ?del)" using sub by (intro card_Diff_subset) simp_all
  also have "card (set ?del) = length ?g - 50" using ds by (subst distinct_card) simp_all
  also have "card (fst ` set ?g) = length ?g" using gm_length [OF wf] by simp
  finally have len: "length ?g' = 50" using False by simp
  have ne: "?s \<noteq> []" using False by (metis length_sort length_map list.size(3) zero_le)
  have last: "?m = last ?s"
  proof (rule antisym)
    have "last ?s \<in> fst ` set ?g" using last_in_set [OF ne] by simp
    then show "last ?s \<le> ?m" using m by (auto simp: reg_marks_def)
    have "?m \<in> set ?s" using m False by (auto simp: reg_marks_def)
    then obtain i where i: "i < length ?s" "?s ! i = ?m" unfolding in_set_conv_nth by blast
    have "?s ! i \<le> ?s ! (length ?s - 1)" using i(1) by (intro sorted_nth_mono) simp_all
    then show "?m \<le> last ?s" using i by (simp add: last_conv_nth [OF ne])
  qed
  have "?m \<notin> set ?del"
  proof
    assume "?m \<in> set ?del"
    then obtain i where i: "i < length ?s - 50" "?s ! i = ?m" by (auto simp: in_set_conv_nth)
    have "?s ! i = ?s ! (length ?s - 1)" using i(2) last by (simp add: last_conv_nth [OF ne])
    then show False using ds i(1) False by (simp add: nth_eq_iff_index_eq)
  qed
  moreover have "?m \<in> fst ` set ?g" using m False by (auto simp: reg_marks_def)
  ultimately have c: "?m \<in> fst ` set ?g'" unfolding keys by blast
  have b: "\<forall>k \<in> fst ` set ?g'. k \<le> ?m" unfolding keys using m by (auto simp: reg_marks_def)
  have "length ?g' \<le> 100" using len by simp
  then have "reg_inv ?r'"
    by (rule reg_inv_gateways [OF foldl_gm_del_wf [OF wf] b c])
  then show ?thesis using e len by auto
qed

section \<open>Fetching\<close>

definition reg_ok :: "RegistryClient \<Rightarrow> bool" where
  "reg_ok r \<longleftrightarrow> reg_inv r \<and> (rc_gateways r = [] \<longrightarrow> rc_latestFetchedBlock r = 0)"

lemma fetch_answers_ok:
  assumes "unat n < maxSliceLen"
  obtains a where "fetch_answers rpc n = Some a"
proof -
  have n: "unat n < 2 ^ 48" using assms by (simp add: maxSliceLen_def)
  then have u: "unat (n + 1) = unat n + 1" using unat_add_lem [THEN iffD1, of n 1] by simp
  then have "n + 1 \<noteq> 0" by (metis add_is_0 one_neq_zero unat_0)
  moreover have "\<not> unat (n + 1) > maxSliceLen" using u assms by simp
  ultimately show thesis using that by (cases "CurrentGateway rpc") (auto simp: fetch_answers_def)
qed

lemma fetch_single_ok:
  assumes "reg_ok r" and n: "unat n < maxSliceLen"
  shows "\<exists>e r'. fetchNextNGatewaysSingle rpc n r = Some (e, r') \<and> reg_ok r' \<and>
    (case fetch_answers rpc n of None \<Rightarrow> False | Some (Inl e') \<Rightarrow> e = Some e' \<and> r' = r
     | Some (Inr gs) \<Rightarrow> e = None \<and> cleanupOldGateways 100 50 (updateGatewayInfo gs r) = Some r')"
proof -
  obtain a where a: "fetch_answers rpc n = Some a" by (rule fetch_answers_ok [OF n])
  show ?thesis
  proof (cases a)
    case (Inl e)
    then show ?thesis using assms a by (simp add: fetchNextNGatewaysSingle_def)
  next
    case (Inr gs)
    have "(rc_gateways (updateGatewayInfo gs r) = [] \<longrightarrow> rc_latestFetchedBlock (updateGatewayInfo gs r) = 0) \<and> reg_marks (updateGatewayInfo gs r)"
      using assms by (intro update_marks) (simp add: reg_ok_def reg_inv_def)
    then show ?thesis using Inr a cleanup_ok [of "updateGatewayInfo gs r"] by (auto simp: fetchNextNGatewaysSingle_def reg_ok_def)
  qed
qed

text \<open>The number of the first complete answer among the attempts from \<open>a\<close> on.\<close>

definition fetch_succeeds :: "(nat \<Rightarrow> RegistryRpc) \<Rightarrow> u64 \<Rightarrow> nat \<Rightarrow> bool" where
  "fetch_succeeds rpcs n k \<longleftrightarrow> (\<exists>gs. fetch_answers (rpcs k) n = Some (Inr gs))"

lemma fetch_loop_spec:
  assumes "reg_ok r" "attempt \<le> maxRetries" "unat n < maxSliceLen"
  shows "\<exists>e r'. fetch_loop rpcs n maxRetries attempt r = Some (e, r') \<and> reg_ok r' \<and>
    (e = None \<longleftrightarrow> (\<exists>k. unat attempt \<le> k \<and> k \<le> unat maxRetries \<and> fetch_succeeds rpcs n k)) \<and> (e \<noteq> None \<longrightarrow> r' = r)"
  using assms
proof (induction rpcs n maxRetries attempt r rule: fetch_loop.induct)
  case (1 rpcs n maxRetries attempt r)
  from fetch_single_ok [OF "1.prems"(1,3), of "rpcs (unat attempt)"]
  obtain e r1 where s: "fetchNextNGatewaysSingle (rpcs (unat attempt)) n r = Some (e, r1)" "reg_ok r1"
    "case fetch_answers (rpcs (unat attempt)) n of None \<Rightarrow> False | Some (Inl e') \<Rightarrow> e = Some e' \<and> r1 = r
     | Some (Inr gs) \<Rightarrow> e = None \<and> cleanupOldGateways 100 50 (updateGatewayInfo gs r) = Some r1" by blast
  obtain a where a: "fetch_answers (rpcs (unat attempt)) n = Some a" by (rule fetch_answers_ok [OF "1.prems"(3)])
  show ?case
  proof (cases e)
    case None
    then have "fetch_succeeds rpcs n (unat attempt)" using s(3) a by (cases a) (auto simp: fetch_succeeds_def)
    then show ?thesis using s(1,2) None "1.prems"(2) by (subst fetch_loop.simps) (auto simp: word_le_nat_alt)
  next
    case (Some err)
    then have fail: "\<not> fetch_succeeds rpcs n (unat attempt)" and r1: "r1 = r"
      using s(3) a by (cases a; auto simp: fetch_succeeds_def)+
    show ?thesis
    proof (cases "maxRetries \<le> attempt")
      case True
      then have "maxRetries = attempt" using "1.prems"(2) by simp
      then show ?thesis using s Some fail r1 by (subst fetch_loop.simps) (auto simp: le_antisym)
    next
      case False
      have lt: "unat attempt < unat maxRetries" using False by (simp add: word_le_nat_alt not_le)
      then have "unat attempt + unat (1 :: u64) < 2 ^ LENGTH(64)" using unsigned_less [of maxRetries, where ?'a = nat] by simp
      then have u: "unat (attempt + 1) = unat attempt + 1" using unat_add_lem [THEN iffD1] by fastforce
      have "attempt + 1 \<le> maxRetries" using lt u by (simp add: word_le_nat_alt)
      from "1.IH" [OF s(1) refl Some False s(2) this "1.prems"(3)] obtain e' r'
        where f: "fetch_loop rpcs n maxRetries (attempt + 1) r1 = Some (e', r')" "reg_ok r'"
          "e' = None \<longleftrightarrow> (\<exists>k. unat (attempt + 1) \<le> k \<and> k \<le> unat maxRetries \<and> fetch_succeeds rpcs n k)" "e' \<noteq> None \<longrightarrow> r' = r1" by blast
      have "(\<exists>k. unat (attempt + 1) \<le> k \<and> k \<le> unat maxRetries \<and> fetch_succeeds rpcs n k) \<longleftrightarrow>
          (\<exists>k. unat attempt \<le> k \<and> k \<le> unat maxRetries \<and> fetch_succeeds rpcs n k)"
        using fail u by (metis Suc_eq_plus1 le_SucI le_antisym not_less_eq_eq)
      then show ?thesis using f s(1) Some False r1 by (subst fetch_loop.simps) auto
    qed
  qed
qed

text \<open>The client as a machine over its fetches.\<close>

type_synonym FetchCall = "(nat \<Rightarrow> RegistryRpc) \<times> u64 \<times> u64"

definition registry_step :: "RegistryClient option \<Rightarrow> FetchCall \<Rightarrow> RegistryClient option" where
  "registry_step s = (\<lambda>(rpcs, n, maxRetries).
     (case s of None \<Rightarrow> None | Some r \<Rightarrow> map_option snd (FetchNextNGateways rpcs n maxRetries r)))"

text \<open>Calls whose slice of answers can be allocated. The node asks for the next two gateways.\<close>

definition fetch_call_ok :: "FetchCall \<Rightarrow> bool" where
  "fetch_call_ok = (\<lambda>(rpcs, n, maxRetries). unat n < maxSliceLen)"

interpretation registry_run: guarded_machine registry_step "\<lambda>s. \<exists>r. s = Some r \<and> reg_ok r" fetch_call_ok
proof
  fix s and i :: FetchCall assume ok: "fetch_call_ok i" and "\<exists>r. s = Some r \<and> reg_ok r"
  then obtain r where r: "s = Some r" "reg_ok r" by blast
  obtain rpcs n mx where i: "i = (rpcs, n, mx)" by (rule prod_cases3)
  show "\<exists>r. registry_step s i = Some r \<and> reg_ok r"
    using fetch_loop_spec [OF r(2), of 0 mx n rpcs] ok r(1) i
    by (auto simp: registry_step_def FetchNextNGateways_def fetch_call_ok_def)
qed

lemma reg_ok_new: "reg_ok NewRegistryClient"
  by (simp add: reg_ok_def reg_inv_def reg_marks_def NewRegistryClient_def)

section \<open>Properties\<close>

text \<open>C12. After any sequence of fetches with any answers of the registry server, each asking for fewer
  gateways than a slice can hold (the node asks for two), the client has not panicked, holds at most 100 gateways, none of them for a block above the latest fetched one, and the gateway of
  the latest fetched block is cached as soon as any is.\<close>

theorem registry_cache_invariant:
  assumes "\<And>rpcs n maxRetries. (rpcs, n, maxRetries) \<in> set calls \<Longrightarrow> unat n < maxSliceLen"
  shows "\<exists>r. foldl registry_step (Some NewRegistryClient) calls = Some r \<and> length (rc_gateways r) \<le> 100 \<and>
     distinct (map fst (rc_gateways r)) \<and> fst ` set (rc_gateways r) \<subseteq> {..rc_latestFetchedBlock r} \<and>
     (rc_gateways r = [] \<or> (\<exists>a. GatewayForBlock r (rc_latestFetchedBlock r) = Inr a))"
proof -
  have "\<exists>r. Some NewRegistryClient = Some r \<and> reg_ok r" using reg_ok_new by blast
  moreover have "\<forall>c \<in> set calls. fetch_call_ok c" using assms by (auto simp: fetch_call_ok_def)
  ultimately obtain r
    where r: "foldl registry_step (Some NewRegistryClient) calls = Some r" "reg_ok r" using registry_run.inv_run_ok by blast
  have "rc_gateways r = [] \<or> (\<exists>a. GatewayForBlock r (rc_latestFetchedBlock r) = Inr a)"
    using r(2) by (auto simp: reg_ok_def reg_inv_def reg_marks_def GatewayForBlock_def gm_keys split: option.splits)
  then show ?thesis using r by (auto simp: reg_ok_def reg_inv_def reg_marks_def gm_wf_def)
qed

text \<open>The gateways of blocks 7, 8 and 9 are fetched.\<close>

definition ex_server :: "nat \<Rightarrow> RegistryRpc" where
  "ex_server k = \<lparr>rpc_currentGateway = Inr (Some [JFloat 7, JString ''u'', JString ''0x01'', JString ''0x02'']),
     rpc_futureGateway = (\<lambda>i. Inr (Some [JFloat (7 + i), JString ''u'', JString ''0x01'', JString ''0x02'']))\<rparr>"

theorem registry_cache_invariant_witness:
  "\<exists>r. foldl registry_step (Some NewRegistryClient) [(ex_server, 2, 3)] = Some r \<and> length (rc_gateways r) \<le> 100 \<and>
     distinct (map fst (rc_gateways r)) \<and> fst ` set (rc_gateways r) \<subseteq> {..rc_latestFetchedBlock r} \<and>
     (rc_gateways r = [] \<or> (\<exists>a. GatewayForBlock r (rc_latestFetchedBlock r) = Inr a))"
  by (rule registry_cache_invariant) (simp add: maxSliceLen_def)

text \<open>A fetch ends: it succeeds exactly when one of the first \<open>maxRetries + 1\<close> attempts gets a complete
  answer, and a fetch that fails leaves the cache as it was.\<close>

theorem fetch_ends:
  assumes "reg_ok r" "unat n < maxSliceLen"
  shows "\<exists>e r'. FetchNextNGateways rpcs n maxRetries r = Some (e, r') \<and>
    (e = None \<longleftrightarrow> (\<exists>k \<le> unat maxRetries. fetch_succeeds rpcs n k)) \<and> (e = None \<or> r' = r)"
  using fetch_loop_spec [OF assms(1) _ assms(2), of 0 maxRetries rpcs] by (auto simp: FetchNextNGateways_def)

text \<open>The server is down for the first attempt.\<close>

definition ex_rpc :: "nat \<Rightarrow> RegistryRpc" where
  "ex_rpc k = \<lparr>rpc_currentGateway =
       (if k = 0 then Inl (RpcErr ''down'') else Inr (Some [JFloat 7, JString ''u'', JString ''0x01'', JString ''0x02''])),
     rpc_futureGateway = (\<lambda>i. Inl (RpcErr ''down''))\<rparr>"

lemma ex_rpc_answers: "fetch_answers (ex_rpc 1) 0 = Some (Inr [\<lparr>rr_BlockNumber = 7, rr_Url = ''u'',
    rr_GatewayAddress = HexToAddress ''0x01'', rr_JwtSecret = HexToHash ''0x02''\<rparr>])"
  by (simp add: maxSliceLen_def fetch_answers_def CurrentGateway_def ex_rpc_def RegistryResponseFromTuple_def)

theorem fetch_ends_witness: "\<exists>r'. FetchNextNGateways ex_rpc 0 3 NewRegistryClient = Some (None, r')"
proof -
  have "fetch_succeeds ex_rpc 0 1" using ex_rpc_answers by (auto simp: fetch_succeeds_def)
  then have "\<exists>k \<le> unat (3 :: u64). fetch_succeeds ex_rpc 0 k" by (intro exI [of _ 1]) simp
  then show ?thesis using fetch_ends [OF reg_ok_new, of 0 ex_rpc 3] by (auto simp: maxSliceLen_def)
qed

end
