(* ===== verification/Gossip_Props.thy ===== *)
theory Gossip_Props
  imports Gossip Ssz_Props Registry_Props Preconf_Proofs Rollup_Props
begin

text \<open>
  What gossip lets through: only preconfirmations of the registered gateway reach the engine, only
  well-formed recent blocks of the sequencer are accepted and at most six per height, and a block the
  sequencer publishes is accepted by the other nodes.
\<close>

section \<open>Preconfirmations\<close>

text \<open>The message carries a signature of the gateway that the registry has for its block.\<close>

definition signed_by :: "('pub, 'lru) P2POps \<Rightarrow> bytes \<Rightarrow> Hash \<Rightarrow> Address \<Rightarrow> bool" where
  "signed_by ops s root a \<longleftrightarrow> (\<exists>pub. SigToPub ops root s = Some pub \<and> PubkeyToAddress ops pub = a)"

fun msg_block :: "PreconfMsg \<Rightarrow> u64" where
  "msg_block (EnvMsg e) = env_Number (se_Env e)"
| "msg_block (FragMsg f) = frag_BlockNumber (sf_Frag f)"
| "msg_block (SealMsg s) = seal_BlockNumber (ss_Seal s)"

fun msg_root :: "('pub, 'lru) P2POps \<Rightarrow> PreconfMsg \<Rightarrow> Hash" where
  "msg_root ops (EnvMsg e) = Env_Root (Sha256 ops) (HashEnv ops) (se_Env e)"
| "msg_root ops (FragMsg f) = NewFrag_Root (Sha256 ops) (HashNewFrag ops) (sf_Frag f)"
| "msg_root ops (SealMsg s) = Seal_Root (Sha256 ops) (HashSeal ops) (ss_Seal s)"

fun msg_signature :: "PreconfMsg \<Rightarrow> bytes" where
  "msg_signature (EnvMsg e) = se_Signature e"
| "msg_signature (FragMsg f) = sf_Signature f"
| "msg_signature (SealMsg s) = ss_Signature s"

definition authorised :: "('pub, 'lru) P2POps \<Rightarrow> RegistryClient \<Rightarrow> PreconfMsg \<Rightarrow> bool" where
  "authorised ops reg m \<longleftrightarrow>
     (\<exists>gateway. GatewayForBlock reg (msg_block m) = Inr gateway \<and> signed_by ops (msg_signature m) (msg_root ops m) gateway)"

lemma verify_accepts:
  "verifyGatewaySignature ops sig root a = (ValidationAccept, s) \<Longrightarrow> signed_by ops s root a"
  by (auto simp: verifyGatewaySignature_def signed_by_def Let_def split: if_splits option.splits)

lemma frag_validator_authorised:
  "BuildNewFragValidator ops reg data = (res, Some frag) \<Longrightarrow> authorised ops reg (FragMsg frag)"
  by (auto simp: BuildNewFragValidator_def authorised_def dest!: verify_accepts
      split: sum.splits prod.splits ValidationResult.splits)

lemma seal_validator_authorised:
  "BuildSealFragValidator ops reg data = (res, Some seal) \<Longrightarrow> authorised ops reg (SealMsg seal)"
  by (auto simp: BuildSealFragValidator_def authorised_def dest!: verify_accepts
      split: sum.splits prod.splits ValidationResult.splits)

lemma env_validator_authorised:
  "BuildEnvValidator ops reg data = (res, Some env) \<Longrightarrow> authorised ops reg (EnvMsg env)"
  by (auto simp: BuildEnvValidator_def authorised_def dest!: verify_accepts
      split: sum.splits prod.splits ValidationResult.splits)

lemma node_step_inputs:
  "Msg m \<in> set (nd_inputs (node_step ops n e)) \<Longrightarrow> Msg m \<in> set (nd_inputs n) \<or> authorised ops (nd_registry n) m"
  by (cases e) (auto simp: OnNewFrag_def OnSealFrag_def OnEnv_def
      dest: frag_validator_authorised seal_validator_authorised env_validator_authorised
      split: prod.splits option.splits)

lemma node_run_inputs:
  "Msg m \<in> set (nd_inputs (foldl (node_step ops) n evs)) \<Longrightarrow>
   Msg m \<in> set (nd_inputs n) \<or> (\<exists>i < length evs. authorised ops (nd_registry (foldl (node_step ops) n (take i evs))) m)"
proof (induction evs rule: rev_induct)
  case (snoc e evs)
  let ?n = "foldl (node_step ops) n evs"
  have "Msg m \<in> set (nd_inputs ?n) \<or> authorised ops (nd_registry ?n) m" using snoc.prems node_step_inputs by fastforce
  then show ?case
  proof
    assume "Msg m \<in> set (nd_inputs ?n)"
    from snoc.IH [OF this] show ?thesis
    proof
      assume "\<exists>i < length evs. authorised ops (nd_registry (foldl (node_step ops) n (take i evs))) m"
      then obtain i where "i < length evs" "authorised ops (nd_registry (foldl (node_step ops) n (take i evs))) m" by blast
      then show ?thesis by (intro disjI2 exI [of _ i]) simp
    qed simp
  next
    assume "authorised ops (nd_registry ?n) m"
    then show ?thesis by (intro disjI2 exI [of _ "length evs"]) simp
  qed
qed simp

section \<open>Blocks\<close>

text \<open>
  What the validator relies on of the LRU cache: \<open>holds c\<close> are the entries of \<open>c\<close>; a lookup finds only entries
  and adds none, an insertion adds at most the new one.
\<close>

definition lru_contract :: "('pub, 'lru) P2POps \<Rightarrow> ('lru \<Rightarrow> (u64 \<times> nat) set) \<Rightarrow> bool" where
  "lru_contract ops holds \<longleftrightarrow>
     (\<forall>c k r c'. lru_Get ops c k = (Some r, c') \<longrightarrow> (k, r) \<in> holds c) \<and>
     (\<forall>c k. holds (snd (lru_Get ops c k)) \<subseteq> holds c) \<and>
     (\<forall>c k r. holds (lru_Add ops c k r) \<subseteq> insert (k, r) (holds c))"

definition seen_inv :: "('lru \<Rightarrow> (u64 \<times> nat) set) \<Rightarrow> 'lru BlocksValidator \<Rightarrow> bool" where
  "seen_inv holds st \<longleftrightarrow>
     (\<forall>k r. (k, r) \<in> holds (bv_lru st) \<longrightarrow> r < length (bv_heap st)) \<and>
     list_all (\<lambda>sb. distinct sb \<and> length sb \<le> 6) (bv_heap st)"

lemma note_seen_inv:
  assumes c: "lru_contract ops holds" and inv: "seen_inv holds st"
  shows "seen_inv holds (snd (note_seen ops p st))"
proof -
  obtain found lru1 where g: "lru_Get ops (bv_lru st) (ep_BlockNumber p) = (found, lru1)" by (rule prod.exhaust)
  have h1: "holds lru1 \<subseteq> holds (bv_lru st)" using c g unfolding lru_contract_def by (metis snd_conv)
  obtain ref lru2 heap where r: "(case found of
               Some ref \<Rightarrow> (ref, lru1, bv_heap st)
             | None \<Rightarrow> (length (bv_heap st), lru_Add ops lru1 (ep_BlockNumber p) (length (bv_heap st)), bv_heap st @ [[]])) =
      (ref, lru2, heap)" by (rule prod_cases3)
  have ok: "ref < length heap" "\<forall>k r. (k, r) \<in> holds lru2 \<longrightarrow> r < length heap" "list_all (\<lambda>sb. distinct sb \<and> length sb \<le> 6) heap"
  proof (atomize (full), cases found)
    case None
    have "lru2 = lru_Add ops lru1 (ep_BlockNumber p) (length (bv_heap st))" using r None by auto
    then have "holds lru2 \<subseteq> insert (ep_BlockNumber p, length (bv_heap st)) (holds lru1)" using c by (simp add: lru_contract_def)
    then have "\<forall>k r. (k, r) \<in> holds lru2 \<longrightarrow> r \<le> length (bv_heap st)" using h1 inv unfolding seen_inv_def by fastforce
    then show "ref < length heap \<and> (\<forall>k r. (k, r) \<in> holds lru2 \<longrightarrow> r < length heap) \<and> list_all (\<lambda>sb. distinct sb \<and> length sb \<le> 6) heap"
      using r None inv by (auto simp: seen_inv_def less_Suc_eq_le)
  next
    case (Some x)
    then have "(ep_BlockNumber p, x) \<in> holds (bv_lru st)" using c g by (auto simp: lru_contract_def)
    then show "ref < length heap \<and> (\<forall>k r. (k, r) \<in> holds lru2 \<longrightarrow> r < length heap) \<and> list_all (\<lambda>sb. distinct sb \<and> length sb \<le> 6) heap"
      using r Some inv h1 by (auto simp: seen_inv_def)
  qed
  have "distinct (heap ! ref) \<and> length (heap ! ref) \<le> 6" using ok(1,3) by (simp add: list_all_length)
  then show ?thesis using ok unfolding note_seen_def g prod.case r
    by (auto simp: Let_def hasSeen_def markSeen_def seen_inv_def list_all_length nth_list_update)
qed

text \<open>A run of the validator over messages with the clock and the sequencer key of their time.\<close>

definition blocks_step ::
    "('pub, 'lru) P2POps \<Rightarrow> Config \<Rightarrow> BlockVersion \<Rightarrow> 'lru BlocksValidator \<Rightarrow> RuntimeConfig \<times> u64 \<times> bytes \<Rightarrow> 'lru BlocksValidator" where
  "blocks_step ops cfg v st = (\<lambda>(runCfg, now, msg).
     snd (snd (guardGossipValidator (BuildBlocksValidator ops cfg runCfg v now msg st) (None, st))))"

lemma blocks_step_inv:
  assumes "lru_contract ops holds" "seen_inv holds st"
  shows "seen_inv holds (blocks_step ops cfg v st i)"
proof -
  obtain runCfg now msg where i: "i = (runCfg, now, msg)" by (rule prod_cases3)
  have "BuildBlocksValidator ops cfg runCfg v now msg st = None \<or>
      (\<exists>r e st'. BuildBlocksValidator ops cfg runCfg v now msg st = Some (r, e, st') \<and> (st' = st \<or> (\<exists>p. st' = snd (note_seen ops p st))))"
    unfolding BuildBlocksValidator_def
    by (auto split: option.split sum.split ValidationResult.split prod.split) (metis snd_conv)+
  then show ?thesis using note_seen_inv [OF assms] assms(2) by (auto simp: i blocks_step_def guardGossipValidator_def)
qed


text \<open>The checks on a decoded payload, all at once.\<close>

definition acceptable :: "('pub, 'lru) P2POps \<Rightarrow> BlockVersion \<Rightarrow> u64 \<Rightarrow> Hash option \<Rightarrow> ExecutionPayload \<Rightarrow> bool" where
  "acceptable ops v now beaconRoot p \<longleftrightarrow>
     now - 60 \<le> ep_Timestamp p \<and> ep_Timestamp p \<le> now + 5 \<and> snd (CheckBlockHash ops beaconRoot p) \<and>
     ep_Withdrawals p = (if HasWithdrawals v then Some [] else None) \<and>
     ep_BlobGasUsed p = (if HasBlobProperties v then Some 0 else None) \<and>
     ep_ExcessBlobGas p = (if HasBlobProperties v then Some 0 else None) \<and>
     (HasParentBeaconBlockRoot v \<longrightarrow> beaconRoot \<noteq> None)"

lemma check_payload_None: "check_payload ops v now beaconRoot p = None \<longleftrightarrow> acceptable ops v now beaconRoot p"
  by (cases "HasWithdrawals v"; cases "HasBlobProperties v")
    (auto simp: check_payload_def acceptable_def not_less HasWithdrawals_def HasBlobProperties_def)

definition sequencer_signed :: "('pub, 'lru) P2POps \<Rightarrow> Config \<Rightarrow> RuntimeConfig \<Rightarrow> bytes \<Rightarrow> bytes \<Rightarrow> bool" where
  "sequencer_signed ops cfg runCfg s payloadBytes \<longleftrightarrow>
     run_p2pBlockSignerAddr runCfg \<noteq> zero_address \<and>
     (\<exists>h. BlockSigningHash ops cfg payloadBytes = Some (Some h) \<and> signed_by ops s h (run_p2pBlockSignerAddr runCfg))"

lemma verifyBlockSignature_accepts:
  "verifyBlockSignature ops cfg runCfg s payloadBytes = Some ValidationAccept \<longleftrightarrow> sequencer_signed ops cfg runCfg s payloadBytes"
  by (auto simp: verifyBlockSignature_def sequencer_signed_def signed_by_def split: option.splits)

text \<open>The bytes of a block message after the signature.\<close>

definition block_bytes :: "BlockVersion \<Rightarrow> ExecutionPayloadEnvelope \<Rightarrow> ExecutionPayload \<Rightarrow> bytes \<Rightarrow> bytes" where
  "block_bytes v envelope p sec =
     (case env_ParentBeaconRoot envelope of Some r \<Rightarrow> r | None \<Rightarrow> []) @ payload_with v p sec"

lemma decode_block_sound:
  assumes d: "decode_block v b = Some (Inr envelope)" "env_ExecutionPayload envelope = Some p" and l: "length b < 2 ^ 32"
  shows "\<exists>sec. valid_payload v p \<and> tx_decodes (ep_Transactions p) sec \<and> b = block_bytes v envelope p sec"
proof (cases "v = BlockV3")
  case True
  have u: "unat (of_nat (length b) :: u32) = length b" by (rule unat_of_nat_u32 [OF l])
  obtain rest where e: "Envelope_UnmarshalSSZ (of_nat (length b)) b \<lparr>env_ParentBeaconRoot = None, env_ExecutionPayload = None\<rparr> =
      Some (Inr (envelope, rest))" using d(1) True by (auto simp: decode_block_def map_sum_id_Inr)
  then have ge: "32 \<le> length b" using u by (auto simp: Envelope_UnmarshalSSZ_def word_less_nat_alt split: if_splits)
  then have rd: "reader_Read 32 b = Inr (take 32 b, drop 32 b)" "length (take 32 b) = 32" by (auto simp: reader_Read_def)
  have "(32 :: u32) \<le> of_nat (length b)" using ge u by (simp add: word_le_nat_alt)
  then have us: "unat ((of_nat (length b) :: u32) - 32) = length b - 32" using u by (simp add: unat_sub)
  from e rd have "UnmarshalSSZ BlockV3 (of_nat (length b) - 32) (drop 32 b) zero_payload = Some (Inr (p, rest))"
    "env_ParentBeaconRoot envelope = Some (take 32 b)"
    using d(2) by (auto simp: Envelope_UnmarshalSSZ_def split: if_splits option.splits sum.splits)
  moreover from this(1) obtain sec where "valid_payload v p" "tx_decodes (ep_Transactions p) sec" "drop 32 b = payload_with v p sec @ rest"
    "length b - 32 = length (payload_with v p sec)" using UnmarshalSSZ_sound True us by metis
  moreover from this(3,4) have "rest = []" by (metis length_drop length_append add_cancel_right_right length_0_conv)
  ultimately show ?thesis using append_take_drop_id [of 32 b] by (intro exI [of _ sec]) (simp add: block_bytes_def)
next
  case False
  have u: "unat (of_nat (length b) :: u32) = length b" by (rule unat_of_nat_u32 [OF l])
  obtain rest where "UnmarshalSSZ v (of_nat (length b)) b zero_payload = Some (Inr (p, rest))" "env_ParentBeaconRoot envelope = None"
    using d False by (auto simp: decode_block_def map_sum_id_Inr)
  moreover from this(1) obtain sec where "valid_payload v p" "tx_decodes (ep_Transactions p) sec" "b = payload_with v p sec @ rest"
    "length b = length (payload_with v p sec)" using UnmarshalSSZ_sound u by metis
  moreover from this(3,4) have "rest = []" by (metis append_self_conv length_append add_cancel_right_right length_0_conv)
  ultimately show ?thesis by (intro exI [of _ sec]) (simp add: block_bytes_def)
qed

lemma decode_block_complete:
  assumes p: "valid_payload v p" "length (ep_Transactions p) \<le> 2 ^ 20" and e: "env_ExecutionPayload envelope = Some p"
    "map_option length (env_ParentBeaconRoot envelope) = (if v = BlockV3 then Some 32 else None)"
    and l: "length (block_bytes v envelope p (tx_section (ep_Transactions p))) < 2 ^ 32"
  shows "decode_block v (block_bytes v envelope p (tx_section (ep_Transactions p))) = Some (Inr envelope)"
proof -
  let ?sec = "tx_section (ep_Transactions p)" let ?b = "block_bytes v envelope p ?sec"
  have t: "tx_decodes (ep_Transactions p) ?sec" using p(2) by (simp add: tx_decodes_def)
  have u: "unat (of_nat (length ?b) :: u32) = length ?b" by (rule unat_of_nat_u32 [OF l])
  show ?thesis
  proof (cases "v = BlockV3")
    case True
    then obtain r where r: "env_ParentBeaconRoot envelope = Some r" "length r = 32" using e(2) by auto
    have b: "?b = r @ payload_with v p ?sec" using r by (simp add: block_bytes_def)
    then have ge: "32 \<le> length ?b" using r(2) by simp
    have le: "(32 :: u32) \<le> of_nat (length ?b)" using ge u by (simp add: word_le_nat_alt)
    then have "unat ((of_nat (length ?b) :: u32) - 32) = length ?b - 32" using u by (simp add: unat_sub)
    then have "UnmarshalSSZ BlockV3 (of_nat (length ?b) - 32) (payload_with v p ?sec) zero_payload = Some (Inr (p, []))"
      using True b r(2) p(1) t by (intro UnmarshalSSZ_complete [where sec = ?sec]) simp_all
    moreover have "reader_Read 32 ?b = Inr (r, payload_with v p ?sec)" using b r(2) by (auto simp: reader_Read_def)
    moreover have "envelope = \<lparr>env_ParentBeaconRoot = Some r, env_ExecutionPayload = Some p\<rparr>" using r(1) e(1) by (cases envelope) simp
    ultimately show ?thesis using True r(2) le by (simp add: decode_block_def Envelope_UnmarshalSSZ_def not_less)
  next
    case False
    then have r: "env_ParentBeaconRoot envelope = None" using e(2) by simp
    then have b: "?b = payload_with v p ?sec" by (simp add: block_bytes_def)
    have "UnmarshalSSZ v (of_nat (length ?b)) ?b zero_payload = Some (Inr (p, []))"
      using u b p(1) t by (intro UnmarshalSSZ_complete [where sec = ?sec]) simp_all
    moreover have "envelope = \<lparr>env_ParentBeaconRoot = None, env_ExecutionPayload = Some p\<rparr>" using r e(1) by (cases envelope) simp
    ultimately show ?thesis using False by (simp add: decode_block_def)
  qed
qed


lemma blocks_validator_accepts:
  "BuildBlocksValidator ops cfg runCfg v now msg st = Some (ValidationAccept, e, st') \<longleftrightarrow>
   (\<exists>n data envelope p. snappy_DecodedLen ops msg = Some n \<and> minGossipSize \<le> n \<and> n \<le> maxGossipSize \<and>
      snappy_Decode ops msg = Some data \<and> 65 \<le> length data \<and>
      sequencer_signed ops cfg runCfg (take 65 data) (drop 65 data) \<and> decode_block v (drop 65 data) = Some (Inr envelope) \<and>
      env_ExecutionPayload envelope = Some p \<and> acceptable ops v now (env_ParentBeaconRoot envelope) p \<and>
      note_seen ops p st = (ValidationAccept, st') \<and> e = Some envelope)"
  unfolding BuildBlocksValidator_def verifyBlockSignature_accepts [symmetric] check_payload_None [symmetric]
  by (auto simp: not_less split: option.split sum.split ValidationResult.split prod.split)

section \<open>Properties\<close>

text \<open>C2. Whatever arrives by gossip and whatever the registry answers, every message that the engine gets and
  every message the preconfirmation state holds carries a signature, over its own root, of the gateway
  that the registry cache had for its block when the message was validated.\<close>

theorem only_gateway_preconfs_reach_engine:
  "from_inputs {m. \<exists>i < length evs. authorised ops (nd_registry (foldl (node_step ops) NewNode (take i evs))) m}
     (preconfHandler (nd_inputs (foldl (node_step ops) NewNode evs)))"
proof (rule provenance.I_preconfHandler)
  fix x assume x: "x \<in> set (nd_inputs (foldl (node_step ops) NewNode evs))"
  show "input_in {m. \<exists>i < length evs. authorised ops (nd_registry (foldl (node_step ops) NewNode (take i evs))) m} x"
  proof (cases x)
    case (Msg m)
    then show ?thesis using node_run_inputs [of m ops NewNode evs] x by (auto simp: NewNode_def)
  qed simp
qed

text \<open>C10. A block message is accepted only if it is signed by the sequencer the node knows and decodes to a
  payload of the version of the topic that is at most 60 seconds old and 5 seconds ahead, hashes to its
  own block hash and has no withdrawals and no blob gas. The signed bytes are the canonical encoding of
  that payload, except that with no transactions the transactions section may also be any bytes that
  begin with a zero offset, which the decoder drops: the message is then not canonical.\<close>

theorem accepted_block_is_sequenced:
  assumes "BuildBlocksValidator ops cfg runCfg v now msg st = Some (ValidationAccept, Some envelope, st')"
    and "\<And>d. snappy_Decode ops msg = Some d \<Longrightarrow> length d < 2 ^ 32"
  shows "\<exists>sig p sec. snappy_Decode ops msg = Some (sig @ block_bytes v envelope p sec) \<and> length sig = 65 \<and>
    env_ExecutionPayload envelope = Some p \<and> sequencer_signed ops cfg runCfg sig (block_bytes v envelope p sec) \<and>
    valid_payload v p \<and> length (ep_Transactions p) \<le> 2 ^ 20 \<and>
    (sec = tx_section (ep_Transactions p) \<or> ep_Transactions p = [] \<and> take 4 sec = [0, 0, 0, 0]) \<and>
    acceptable ops v now (env_ParentBeaconRoot envelope) p"
proof -
  obtain n data p where d: "snappy_Decode ops msg = Some data" "65 \<le> length data"
    "sequencer_signed ops cfg runCfg (take 65 data) (drop 65 data)" "decode_block v (drop 65 data) = Some (Inr envelope)"
    "env_ExecutionPayload envelope = Some p" "acceptable ops v now (env_ParentBeaconRoot envelope) p"
    using assms(1) unfolding blocks_validator_accepts by auto
  have "length (drop 65 data) < 2 ^ 32" using assms(2) [OF d(1)] by simp
  from decode_block_sound [OF d(4,5) this] obtain sec where
    "valid_payload v p" "tx_decodes (ep_Transactions p) sec" "drop 65 data = block_bytes v envelope p sec" by blast
  then show ?thesis using d append_take_drop_id [of 65 data] by (intro exI [of _ "take 65 data"] exI [of _ p] exI [of _ sec]) (simp add: tx_decodes_def)
qed

text \<open>Per entry of the height cache at most six different blocks are accepted, and none twice: this holds
  of the seen lists after any sequence of messages, clocks and sequencer keys.\<close>

theorem seen_blocks_bounded:
  assumes "lru_contract ops holds" "holds lru0 = {}"
  shows "list_all (\<lambda>sb. distinct sb \<and> length sb \<le> 6) (bv_heap (foldl (blocks_step ops cfg v) \<lparr>bv_lru = lru0, bv_heap = []\<rparr> msgs))"
proof -
  have "seen_inv holds (foldl (blocks_step ops cfg v) \<lparr>bv_lru = lru0, bv_heap = []\<rparr> msgs)"
  proof (induction msgs rule: rev_induct)
    case Nil
    then show ?case using assms(2) by (simp add: seen_inv_def)
  next
    case (snoc m msgs)
    then show ?case using blocks_step_inv [OF assms(1)] by simp
  qed
  then show ?thesis by (simp add: seen_inv_def)
qed

text \<open>C11. A block that the sequencer publishes is accepted on the topic it is published on: by every node
  whose clock is close, that knows the sequencer key, and that has seen fewer than six blocks at the
  height and not this one.\<close>

theorem published_block_is_accepted:
  assumes payload: "env_ExecutionPayload envelope = Some p" "valid_payload v p" "length (ep_Transactions p) \<le> 2 ^ 20"
    and topic: "v = (if IsEcotone cfg (ep_Timestamp p) then BlockV3 else if IsCanyon cfg (ep_Timestamp p) then BlockV2 else BlockV1)"
    and root: "map_option length (env_ParentBeaconRoot envelope) = (if v = BlockV3 then Some 32 else None)"
    and ok: "acceptable ops v now (env_ParentBeaconRoot envelope) p"
    and pool: "length pool < 2 ^ 32"
    and size: "length (block_bytes v envelope p (tx_section (ep_Transactions p))) + 65 \<le> maxGossipSize"
    and chain: "cfg_L2ChainID cfg = Some chainID"
    and sign: "\<And>b. \<exists>s. sign SigningDomainBlocksV1 chainID b = Some s \<and> length s = 65 \<and> sequencer_signed ops cfg runCfg s b"
    and snappy: "\<And>d. snappy_DecodedLen ops (snappy_Encode ops d) = Some (length d) \<and> snappy_Decode ops (snappy_Encode ops d) = Some d"
    and fresh: "fst (note_seen ops p st) = ValidationAccept"
  shows "\<exists>out st'. PublishL2Payload ops cfg sign pool envelope = Some (Inr (v, out)) \<and>
    BuildBlocksValidator ops cfg runCfg v now out st = Some (ValidationAccept, Some envelope, st')"
proof -
  let ?b = "block_bytes v envelope p (tx_section (ep_Transactions p))"
  have iv: "array_widths p" "version_fields v p" using payload(2) by (auto simp: valid_payload_def)
  have pw: "payload_bytes p = payload_with v p (tx_section (ep_Transactions p))"
    by (simp add: payload_bytes_def version_fields_infer [OF iv(2)])
  have small: "length ?b < 2 ^ 32" "length (payload_bytes p) < 2 ^ 32"
    using size pw by (simp_all add: maxGossipSize_def block_bytes_def split: option.splits)
  have m: "MarshalSSZ pool p = Some (Inr (payload_bytes p))" by (rule MarshalSSZ_ok [OF iv pool small(2)])
  have enc: "(case env_ParentBeaconRoot envelope of Some _ \<Rightarrow> Envelope_MarshalSSZ pool envelope | None \<Rightarrow> MarshalSSZ pool p) = Some (Inr ?b)"
    using m pw payload(1) by (auto simp: Envelope_MarshalSSZ_def block_bytes_def split: option.splits)
  obtain s where s: "sign SigningDomainBlocksV1 chainID ?b = Some s" "length s = 65" "sequencer_signed ops cfg runCfg s ?b"
    using sign by blast
  have pub: "PublishL2Payload ops cfg sign pool envelope = Some (Inr (v, snappy_Encode ops (s @ ?b)))"
    using payload(1) chain enc s(1) topic by (simp add: PublishL2Payload_def Let_def)
  have dec: "decode_block v ?b = Some (Inr envelope)" by (rule decode_block_complete [OF payload(2,3,1) root small(1)])
  have "1 \<le> length ?b" using length_head [OF iv(1), of v] by (cases v) (simp_all add: block_bytes_def payload_with_def fixed_part_nat split: option.splits)
  then have "BuildBlocksValidator ops cfg runCfg v now (snappy_Encode ops (s @ ?b)) st = Some (ValidationAccept, Some envelope, snd (note_seen ops p st))"
    unfolding blocks_validator_accepts using snappy [of "s @ ?b"] s(2,3) size dec payload(1) ok fresh
    by (auto simp: minGossipSize_def intro!: exI [of _ envelope] prod_eqI)
  then show ?thesis using pub by blast
qed


text \<open>A network without compression whose signatures begin with the address of the signer.\<close>

definition ex_p2p :: "(bytes, (u64 \<times> nat) list) P2POps" where
  "ex_p2p = \<lparr>SigToPub = (\<lambda>h s. Some s), PubkeyToAddress = take 20, Keccak256 = (\<lambda>b. replicate 32 1), Sha256 = (\<lambda>b. replicate 32 2),
     snappy_DecodedLen = (\<lambda>b. Some (length b)), snappy_Decode = Some, snappy_Encode = id,
     lru_Get = (\<lambda>c k. (map_of c k, c)), lru_Add = (\<lambda>c k r. (k, r) # c),
     DeriveSha_txs = (\<lambda>_. replicate 32 3), DeriveSha_withdrawals = (\<lambda>_. replicate 32 4), Header_Hash = (\<lambda>_. replicate 32 0),
     DecodeNewFrag = (\<lambda>n r. Inl ReadFailed), DecodeSeal = (\<lambda>n r. Inl ReadFailed), DecodeEnv = (\<lambda>n r. Inl ReadFailed),
     EncodeNewFrag = (\<lambda>f. Inr []), EncodeSeal = (\<lambda>f. Inr []), EncodeEnv = (\<lambda>f. Inr []),
     HashNewFrag = (\<lambda>f. replicate 32 5), HashSeal = (\<lambda>f. replicate 32 6), HashEnv = (\<lambda>f. replicate 32 7)\<rparr>"

definition ex_run_cfg :: RuntimeConfig where
  "ex_run_cfg = \<lparr>run_l1Ref = \<lparr>l1_Hash = [], l1_Number = 0, l1_ParentHash = [], l1_Time = 0\<rparr>,
     run_p2pBlockSignerAddr = replicate 20 9, run_recommended = [], run_required = []\<rparr>"

definition ex_v1 :: ExecutionPayload where
  "ex_v1 = zero_payload\<lparr>ep_BlockNumber := 30, ep_Timestamp := 1050, ep_Transactions := [[1, 2]]\<rparr>"

definition ex_v1_envelope :: ExecutionPayloadEnvelope where
  "ex_v1_envelope = \<lparr>env_ParentBeaconRoot = None, env_ExecutionPayload = Some ex_v1\<rparr>"

abbreviation ex_v1_bytes :: bytes where
  "ex_v1_bytes \<equiv> block_bytes BlockV1 ex_v1_envelope ex_v1 (tx_section (ep_Transactions ex_v1))"

lemma ex_v1_ok:
  "valid_payload BlockV1 ex_v1" "acceptable ex_p2p BlockV1 1050 None ex_v1" "length ex_v1_bytes = 514"
  "sequencer_signed ex_p2p ex_cfg ex_run_cfg (replicate 65 9) b"
  "note_seen ex_p2p ex_v1 \<lparr>bv_lru = [], bv_heap = []\<rparr> =
     (ValidationAccept, \<lparr>bv_lru = [(30, 0)], bv_heap = [[replicate 32 0]]\<rparr>)"
proof -
  have w: "array_widths ex_v1" by (simp add: array_widths_def ex_v1_def zero_payload_def)
  show "valid_payload BlockV1 ex_v1" using w
    by (simp add: valid_payload_def version_fields_def HasWithdrawals_def ex_v1_def zero_payload_def)
  show "acceptable ex_p2p BlockV1 1050 None ex_v1"
    by (simp add: acceptable_def ex_v1_def zero_payload_def HasWithdrawals_def HasBlobProperties_def HasParentBeaconBlockRoot_def
        CheckBlockHash_def ex_p2p_def)
  have "ep_ExtraData ex_v1 = []" "wd_section ex_v1 = []" "ep_Transactions ex_v1 = [[1, 2]]"
    by (simp_all add: ex_v1_def zero_payload_def wd_section_def)
  then show "length ex_v1_bytes = 514"
    unfolding block_bytes_def payload_with_def length_append length_head [OF w] length_tx_section
    by (simp add: fixed_part_nat ex_v1_envelope_def)
  have "replicate 20 9 \<noteq> zero_address" by (simp add: zero_address_def)
  then show "sequencer_signed ex_p2p ex_cfg ex_run_cfg (replicate 65 9) b"
    by (simp add: sequencer_signed_def signed_by_def BlockSigningHash_def SigningHash_def ex_cfg_def ex_run_cfg_def ex_p2p_def)
  show "note_seen ex_p2p ex_v1 \<lparr>bv_lru = [], bv_heap = []\<rparr> =
     (ValidationAccept, \<lparr>bv_lru = [(30, 0)], bv_heap = [[replicate 32 0]]\<rparr>)"
    by (simp add: note_seen_def ex_p2p_def ex_v1_def zero_payload_def hasSeen_def markSeen_def Let_def)
qed

theorem published_block_is_accepted_witness:
  "\<exists>out st'. PublishL2Payload ex_p2p ex_cfg (\<lambda>d i b. Some (replicate 65 9)) [] ex_v1_envelope = Some (Inr (BlockV1, out)) \<and>
     BuildBlocksValidator ex_p2p ex_cfg ex_run_cfg BlockV1 1050 out \<lparr>bv_lru = [], bv_heap = []\<rparr> =
       Some (ValidationAccept, Some ex_v1_envelope, st')"
proof (rule published_block_is_accepted [where p = ex_v1 and chainID = 10])
  show "BlockV1 = (if IsEcotone ex_cfg (ep_Timestamp ex_v1) then BlockV3 else if IsCanyon ex_cfg (ep_Timestamp ex_v1) then BlockV2 else BlockV1)"
    by (simp add: fork_defs active_at_def ex_cfg_def ex_v1_def)
  show "acceptable ex_p2p BlockV1 1050 (env_ParentBeaconRoot ex_v1_envelope) ex_v1" using ex_v1_ok(2) by (simp add: ex_v1_envelope_def)
  show "length ex_v1_bytes + 65 \<le> maxGossipSize" unfolding ex_v1_ok(3) by (simp add: maxGossipSize_def)
  show "\<exists>s. Some (replicate 65 9) = Some s \<and> length s = 65 \<and> sequencer_signed ex_p2p ex_cfg ex_run_cfg s b" for b
    using ex_v1_ok(4) by simp
  show "snappy_DecodedLen ex_p2p (snappy_Encode ex_p2p d) = Some (length d) \<and> snappy_Decode ex_p2p (snappy_Encode ex_p2p d) = Some d" for d
    by (simp add: ex_p2p_def)
  show "valid_payload BlockV1 ex_v1" by (rule ex_v1_ok(1))
  show "fst (note_seen ex_p2p ex_v1 \<lparr>bv_lru = [], bv_heap = []\<rparr>) = ValidationAccept" by (simp add: ex_v1_ok(5))
qed (simp_all add: ex_v1_envelope_def ex_v1_def ex_cfg_def)

theorem accepted_block_is_sequenced_witness:
  "\<exists>sig p sec. snappy_Decode ex_p2p (replicate 65 9 @ ex_v1_bytes) = Some (sig @ block_bytes BlockV1 ex_v1_envelope p sec) \<and>
     length sig = 65 \<and> env_ExecutionPayload ex_v1_envelope = Some p \<and>
     sequencer_signed ex_p2p ex_cfg ex_run_cfg sig (block_bytes BlockV1 ex_v1_envelope p sec) \<and>
     valid_payload BlockV1 p \<and> length (ep_Transactions p) \<le> 2 ^ 20 \<and>
     (sec = tx_section (ep_Transactions p) \<or> ep_Transactions p = [] \<and> take 4 sec = [0, 0, 0, 0]) \<and>
     acceptable ex_p2p BlockV1 1050 (env_ParentBeaconRoot ex_v1_envelope) p"
proof (rule accepted_block_is_sequenced)
  have "decode_block BlockV1 ex_v1_bytes = Some (Inr ex_v1_envelope)"
    by (rule decode_block_complete [OF ex_v1_ok(1)]) (use ex_v1_ok(3) in \<open>simp_all add: ex_v1_envelope_def ex_v1_def\<close>)
  moreover have "snappy_DecodedLen ex_p2p d = Some (length d)" "snappy_Decode ex_p2p d = Some d" for d by (simp_all add: ex_p2p_def)
  ultimately show "BuildBlocksValidator ex_p2p ex_cfg ex_run_cfg BlockV1 1050 (replicate 65 9 @ ex_v1_bytes) \<lparr>bv_lru = [], bv_heap = []\<rparr> =
      Some (ValidationAccept, Some ex_v1_envelope, \<lparr>bv_lru = [(30, 0)], bv_heap = [[replicate 32 0]]\<rparr>)"
    unfolding blocks_validator_accepts using ex_v1_ok by (simp add: minGossipSize_def maxGossipSize_def ex_v1_envelope_def)
  show "length d < 2 ^ 32" if "snappy_Decode ex_p2p (replicate 65 9 @ ex_v1_bytes) = Some d" for d
    using that ex_v1_ok(3) by (auto simp: ex_p2p_def)
qed

theorem seen_blocks_bounded_witness:
  "list_all (\<lambda>sb. distinct sb \<and> length sb \<le> 6)
     (bv_heap (foldl (blocks_step ex_p2p ex_cfg BlockV1) \<lparr>bv_lru = [], bv_heap = []\<rparr> [(ex_run_cfg, 1050, replicate 65 9 @ ex_v1_bytes)]))"
  by (rule seen_blocks_bounded [where holds = set]) (auto simp: lru_contract_def ex_p2p_def dest: map_of_SomeD)

end
