(* ===== verification/Rlp.thy ===== *)
theory Rlp
  imports Based_Prelude
begin

text \<open>
  The RLP codec of op-geth (\<^verbatim>\<open>rlp/\<close>): the encoder with its deferred list headers (\<^verbatim>\<open>encode.go\<close>,
  \<^verbatim>\<open>encbuffer.go\<close>), the streaming decoder (\<^verbatim>\<open>decode.go\<close>) and the slice functions (\<^verbatim>\<open>raw.go\<close>,
  \<^verbatim>\<open>iterator.go\<close>). The reflection that picks a writer or decoder for a Go type is the case distinction over
  \<open>GoVal\<close> and \<open>GoType\<close>.
\<close>

section \<open>Integers and headers (encode.go)\<close>

datatype RlpErr =
  EOL | ErrExpectedString | ErrExpectedList | ErrCanonInt | ErrCanonSize | ErrElemTooLarge | ErrValueTooLarge
| ErrMoreThanOneValue | ErrNotInList | ErrNotAtEOL | ErrUintOverflow | ErrNegativeBigInt
| RlpEOF | RlpUnexpectedEOF | InvalidBool u64 | WrongSize | DecodeError string

definition byte_of :: "u64 \<Rightarrow> byte" where
  "byte_of i = ucast i"

text \<open>The bytes that \<^verbatim>\<open>putint\<close> writes to the beginning of its buffer; it returns their number.\<close>

definition putint :: "u64 \<Rightarrow> bytes" where
  "putint i =
     (if i < 2 ^ 8 then [byte_of i]
      else if i < 2 ^ 16 then [byte_of (drop_bit 8 i), byte_of i]
      else if i < 2 ^ 24 then [byte_of (drop_bit 16 i), byte_of (drop_bit 8 i), byte_of i]
      else if i < 2 ^ 32 then
        [byte_of (drop_bit 24 i), byte_of (drop_bit 16 i), byte_of (drop_bit 8 i), byte_of i]
      else if i < 2 ^ 40 then
        [byte_of (drop_bit 32 i), byte_of (drop_bit 24 i), byte_of (drop_bit 16 i), byte_of (drop_bit 8 i), byte_of i]
      else if i < 2 ^ 48 then
        [byte_of (drop_bit 40 i), byte_of (drop_bit 32 i), byte_of (drop_bit 24 i), byte_of (drop_bit 16 i),
         byte_of (drop_bit 8 i), byte_of i]
      else if i < 2 ^ 56 then
        [byte_of (drop_bit 48 i), byte_of (drop_bit 40 i), byte_of (drop_bit 32 i), byte_of (drop_bit 24 i),
         byte_of (drop_bit 16 i), byte_of (drop_bit 8 i), byte_of i]
      else
        [byte_of (drop_bit 56 i), byte_of (drop_bit 48 i), byte_of (drop_bit 40 i), byte_of (drop_bit 32 i),
         byte_of (drop_bit 24 i), byte_of (drop_bit 16 i), byte_of (drop_bit 8 i), byte_of i])"

lemma unat_drop_bit_8: "unat (drop_bit 8 (i :: u64)) = unat i div 256"
  by (simp only: unat_drop_bit_eq) (simp add: drop_bit_eq_div)

function intsize_loop :: "nat \<Rightarrow> u64 \<Rightarrow> nat" where
  "intsize_loop sz i =
     (let i' = drop_bit 8 i in if i' = 0 then sz else intsize_loop (sz + 1) i')"
  by pat_completeness auto
termination
proof (relation "measure (\<lambda>(sz, i). unat i)")
  fix sz :: nat and i i' :: u64
  assume i': "i' = drop_bit 8 i" and nz: "i' \<noteq> 0"
  have "unat i' = unat i div 256" by (simp add: i' unat_drop_bit_8)
  moreover have "unat i' \<noteq> 0" using nz unat_eq_zero by blast
  ultimately show "((sz + 1, i'), sz, i) \<in> measure (\<lambda>(sz, i). unat i)" by simp
qed simp

declare intsize_loop.simps [simp del]

definition intsize :: "u64 \<Rightarrow> nat" where
  "intsize i = intsize_loop 1 i"

definition headsize :: "u64 \<Rightarrow> nat" where
  "headsize sz = (if sz < 56 then 1 else 1 + intsize sz)"

definition puthead :: "byte \<Rightarrow> byte \<Rightarrow> u64 \<Rightarrow> bytes" where
  "puthead smalltag largetag sz =
     (if sz < 56 then [smalltag + byte_of sz]
      else (let b = putint sz in (largetag + of_nat (length b)) # b))"

section \<open>The encoding buffer (encbuffer.go)\<close>

text \<open>
  String data and list headers are kept apart: the size of a list is known only at its end, so the headers
  are merged into the output when it is produced. The counters are Go ints that only grow.
\<close>

record listhead =
  lh_offset :: nat
  lh_size :: nat

record encBuffer =
  eb_str :: bytes
  eb_lheads :: "listhead list"
  eb_lhsize :: nat

definition encBuffer_reset :: encBuffer where
  "encBuffer_reset = \<lparr>eb_str = [], eb_lheads = [], eb_lhsize = 0\<rparr>"

definition encBuffer_size :: "encBuffer \<Rightarrow> nat" where
  "encBuffer_size buf = length (eb_str buf) + eb_lhsize buf"

definition append_str :: "bytes \<Rightarrow> encBuffer \<Rightarrow> encBuffer" where
  "append_str b buf = buf\<lparr>eb_str := eb_str buf @ b\<rparr>"

definition listhead_encode :: "listhead \<Rightarrow> bytes" where
  "listhead_encode h = puthead 0xC0 0xF7 (of_nat (lh_size h))"

text \<open>\<^verbatim>\<open>copy(dst[pos:], src)\<close>: as much as fits; slicing beyond the end panics.\<close>

definition copy_at :: "nat \<Rightarrow> bytes \<Rightarrow> bytes \<Rightarrow> (bytes \<times> nat) option" where
  "copy_at pos src dst =
     (if pos \<le> length dst
      then (let n = min (length src) (length dst - pos) in Some (take pos dst @ take n src @ drop (pos + n) dst, n))
      else None)"

text \<open>Writing a header at \<open>pos\<close> indexes the destination, so a header that does not fit panics.\<close>

definition put_at :: "nat \<Rightarrow> bytes \<Rightarrow> bytes \<Rightarrow> bytes option" where
  "put_at pos src dst =
     (if pos + length src \<le> length dst then Some (take pos dst @ src @ drop (pos + length src) dst) else None)"

fun copy_heads :: "listhead list \<Rightarrow> bytes \<Rightarrow> nat \<Rightarrow> nat \<Rightarrow> bytes \<Rightarrow> bytes option" where
  "copy_heads [] str strpos pos dst =
     (case copy_at pos (drop strpos str) dst of None \<Rightarrow> None | Some (dst', _) \<Rightarrow> Some dst')"
| "copy_heads (head # heads) str strpos pos dst =
     (case go_slice strpos (lh_offset head) str of
        None \<Rightarrow> None
      | Some piece \<Rightarrow>
          (case copy_at pos piece dst of
             None \<Rightarrow> None
           | Some (dst1, n) \<Rightarrow>
               (case put_at (pos + n) (listhead_encode head) dst1 of
                  None \<Rightarrow> None
                | Some dst2 \<Rightarrow>
                    copy_heads heads str (strpos + n) (pos + n + length (listhead_encode head)) dst2)))"

definition copyTo :: "encBuffer \<Rightarrow> bytes \<Rightarrow> bytes option" where
  "copyTo buf dst = copy_heads (eb_lheads buf) (eb_str buf) 0 0 dst"

definition makeBytes :: "encBuffer \<Rightarrow> bytes option" where
  "makeBytes buf = copyTo buf (replicate (encBuffer_size buf) 0)"

text \<open>\<^verbatim>\<open>writeTo\<close> into a writer that accepts everything: the written bytes.\<close>

fun write_heads :: "listhead list \<Rightarrow> bytes \<Rightarrow> nat \<Rightarrow> bytes \<Rightarrow> bytes option" where
  "write_heads [] str strpos out = Some (if strpos < length str then out @ drop strpos str else out)"
| "write_heads (head # heads) str strpos out =
     (if lh_offset head > strpos
      then (case go_slice strpos (lh_offset head) str of
              None \<Rightarrow> None
            | Some piece \<Rightarrow>
                write_heads heads str (strpos + length piece) (out @ piece @ listhead_encode head))
      else write_heads heads str strpos (out @ listhead_encode head))"

definition writeTo :: "encBuffer \<Rightarrow> bytes option" where
  "writeTo buf = write_heads (eb_lheads buf) (eb_str buf) 0 []"

definition enc_writeBool :: "bool \<Rightarrow> encBuffer \<Rightarrow> encBuffer" where
  "enc_writeBool b buf = append_str (if b then [0x01] else [0x80]) buf"

definition writeUint64 :: "u64 \<Rightarrow> encBuffer \<Rightarrow> encBuffer" where
  "writeUint64 i buf =
     (if i = 0 then append_str [0x80] buf
      else if i < 128 then append_str [byte_of i] buf
      else (let b = putint i in append_str ((0x80 + of_nat (length b)) # b) buf))"

definition encodeStringHeader :: "nat \<Rightarrow> encBuffer \<Rightarrow> encBuffer" where
  "encodeStringHeader sz buf =
     (if sz < 56 then append_str [0x80 + of_nat sz] buf
      else (let b = putint (of_nat sz) in append_str ((0xB7 + of_nat (length b)) # b) buf))"

definition enc_writeBytes :: "bytes \<Rightarrow> encBuffer \<Rightarrow> encBuffer" where
  "enc_writeBytes b buf =
     (case b of
        [x] \<Rightarrow> if x \<le> 0x7F then append_str [x] buf else append_str b (encodeStringHeader (length b) buf)
      | _ \<Rightarrow> append_str b (encodeStringHeader (length b) buf))"

text \<open>
  \<^verbatim>\<open>big.Int\<close>: \<open>big_BitLen\<close> and the 64-bit words of \<^verbatim>\<open>Bits\<close>, least significant first, of an absolute value.
\<close>

fun big_BitLen :: "nat \<Rightarrow> nat" where
  "big_BitLen n = (if n = 0 then 0 else Suc (big_BitLen (n div 2)))"

declare big_BitLen.simps [simp del]

fun big_Bits :: "nat \<Rightarrow> u64 list" where
  "big_Bits n = (if n = 0 then [] else of_nat (n mod 2 ^ 64) # big_Bits (n div 2 ^ 64))"

declare big_Bits.simps [simp del]

fun put_word :: "nat \<Rightarrow> u64 \<Rightarrow> nat \<Rightarrow> bytes \<Rightarrow> nat \<times> bytes" where
  "put_word 0 d index b = (index, b)"
| "put_word (Suc j) d index b =
     (if index > 0 then put_word j (drop_bit 8 d) (index - 1) (b[index - 1 := byte_of d]) else (index, b))"

fun put_words :: "u64 list \<Rightarrow> nat \<Rightarrow> bytes \<Rightarrow> bytes" where
  "put_words [] index b = b"
| "put_words (d # ds) index b = (case put_word 8 d index b of (index', b') \<Rightarrow> put_words ds index' b')"

definition writeBigInt :: "nat \<Rightarrow> encBuffer \<Rightarrow> encBuffer" where
  "writeBigInt i buf =
     (let bitlen = big_BitLen i in
      if bitlen \<le> 64 then writeUint64 (of_nat i) buf
      else (let len = (bitlen + 7) div 8 in
            append_str (put_words (big_Bits i) len (replicate len 0)) (encodeStringHeader len buf)))"

definition enc_list :: "encBuffer \<Rightarrow> nat \<times> encBuffer" where
  "enc_list buf =
     (length (eb_lheads buf),
      buf\<lparr>eb_lheads := eb_lheads buf @ [\<lparr>lh_offset = length (eb_str buf), lh_size = eb_lhsize buf\<rparr>]\<rparr>)"

definition enc_listEnd :: "nat \<Rightarrow> encBuffer \<Rightarrow> encBuffer" where
  "enc_listEnd index buf =
     (let lh = eb_lheads buf ! index;
          sz = encBuffer_size buf - lh_offset lh - lh_size lh;
          buf1 = buf\<lparr>eb_lheads := (eb_lheads buf)[index := lh\<lparr>lh_size := sz\<rparr>]\<rparr>
      in if sz < 56 then buf1\<lparr>eb_lhsize := eb_lhsize buf1 + 1\<rparr>
         else buf1\<lparr>eb_lhsize := eb_lhsize buf1 + 1 + intsize (of_nat sz)\<rparr>)"

section \<open>Writers (encode.go)\<close>

datatype RlpKind = KByte | KString | KList

text \<open>
  Go values by the class of their type, as \<^verbatim>\<open>makeWriter\<close> distinguishes them. A pointer carries the kind that stands for
  nil (\<^verbatim>\<open>typeNilKind\<close>), an interface may hold nothing. Raw values, custom encoders and optional struct fields
  are left out.
\<close>

datatype GoVal =
  GBigInt "int option" | GUint u64 | GBool bool | GString bytes | GBytes bytes | GByteArray bytes
| GSlice "GoVal list" | GStruct "GoVal list" | GPtr RlpKind "GoVal option" | GInterface "GoVal option"

definition writeBigIntPtr :: "int option \<Rightarrow> encBuffer \<Rightarrow> RlpErr + encBuffer" where
  "writeBigIntPtr ptr w =
     (case ptr of
        None \<Rightarrow> Inr (append_str [0x80] w)
      | Some i \<Rightarrow> if i < 0 then Inl ErrNegativeBigInt else Inr (writeBigInt (nat i) w))"

definition write_string :: "bytes \<Rightarrow> encBuffer \<Rightarrow> encBuffer" where
  "write_string s w =
     (if length s = 1 \<and> s ! 0 \<le> 0x7f then append_str [s ! 0] w
      else append_str s (encodeStringHeader (length s) w))"

definition write_byte_array :: "bytes \<Rightarrow> encBuffer \<Rightarrow> encBuffer" where
  "write_byte_array b w =
     (case b of
        [] \<Rightarrow> append_str [0x80] w
      | [x] \<Rightarrow> if x \<le> 0x7f then append_str [x] w else append_str [0x81, x] w
      | _ \<Rightarrow> append_str b (encodeStringHeader (length b) w))"

definition nilEncoding :: "RlpKind \<Rightarrow> byte" where
  "nilEncoding nk = (if nk = KString then 0x80 else 0xC0)"

fun write_val :: "GoVal \<Rightarrow> encBuffer \<Rightarrow> RlpErr + encBuffer"
and write_vals :: "GoVal list \<Rightarrow> encBuffer \<Rightarrow> RlpErr + encBuffer" where
  "write_val (GBigInt ptr) w = writeBigIntPtr ptr w"
| "write_val (GUint n) w = Inr (writeUint64 n w)"
| "write_val (GBool b) w = Inr (enc_writeBool b w)"
| "write_val (GString s) w = Inr (write_string s w)"
| "write_val (GBytes b) w = Inr (enc_writeBytes b w)"
| "write_val (GByteArray b) w = Inr (write_byte_array b w)"
| "write_val (GSlice vs) w =
     (if vs = [] then Inr (append_str [0xC0] w)
      else (let (listOffset, w1) = enc_list w in
            case write_vals vs w1 of Inl e \<Rightarrow> Inl e | Inr w2 \<Rightarrow> Inr (enc_listEnd listOffset w2)))"
| "write_val (GStruct vs) w =
     (let (lh, w1) = enc_list w in
      case write_vals vs w1 of Inl e \<Rightarrow> Inl e | Inr w2 \<Rightarrow> Inr (enc_listEnd lh w2))"
| "write_val (GPtr nk None) w = Inr (append_str [nilEncoding nk] w)"
| "write_val (GPtr nk (Some v)) w = write_val v w"
| "write_val (GInterface None) w = Inr (append_str [0xC0] w)"
| "write_val (GInterface (Some v)) w = write_val v w"
| "write_vals [] w = Inr w"
| "write_vals (v # vs) w = (case write_val v w of Inl e \<Rightarrow> Inl e | Inr w1 \<Rightarrow> write_vals vs w1)"

text \<open>The outer \<open>None\<close> is a panic.\<close>

definition EncodeToBytes :: "GoVal \<Rightarrow> (RlpErr + bytes) option" where
  "EncodeToBytes val =
     (case write_val val encBuffer_reset of
        Inl e \<Rightarrow> Some (Inl e)
      | Inr buf \<Rightarrow> (case makeBytes buf of None \<Rightarrow> None | Some out \<Rightarrow> Some (Inr out)))"

definition rlp_Encode :: "GoVal \<Rightarrow> (RlpErr + bytes) option" where
  "rlp_Encode val =
     (case write_val val encBuffer_reset of
        Inl e \<Rightarrow> Some (Inl e)
      | Inr buf \<Rightarrow> (case writeTo buf of None \<Rightarrow> None | Some out \<Rightarrow> Some (Inr out)))"

section \<open>The decoding stream (decode.go)\<close>

text \<open>
  The stack of list limits has its top first; a kind of \<open>None\<close> is the rearmed state, \<^verbatim>\<open>-1\<close>. The reader is a byte slice,
  its content the unread bytes. Operations return their result and the new state.
\<close>

record RStream =
  st_r :: bytes
  st_remaining :: u64
  st_size :: u64
  st_kinderr :: "RlpErr option"
  st_stack :: "u64 list"
  st_kind :: "RlpKind option"
  st_byteval :: byte
  st_limited :: bool

type_synonym 'a rlp_res = "(RlpErr + 'a) \<times> RStream"

text \<open>\<open>auto_limit\<close> says that the reader is one whose length \<^verbatim>\<open>Reset\<close> discovers (\<^verbatim>\<open>bytes.Reader\<close>).\<close>

definition Stream_Reset :: "bool \<Rightarrow> bytes \<Rightarrow> u64 \<Rightarrow> RStream" where
  "Stream_Reset auto_limit r inputLimit =
     \<lparr>st_r = r,
      st_remaining = (if inputLimit > 0 then inputLimit else if auto_limit then of_nat (length r) else 0),
      st_size = 0, st_kinderr = None, st_stack = [], st_kind = None, st_byteval = 0,
      st_limited = (inputLimit > 0 \<or> auto_limit)\<rparr>"

definition listLimit :: "RStream \<Rightarrow> u64 option" where
  "listLimit s = (case st_stack s of [] \<Rightarrow> None | limit # _ \<Rightarrow> Some limit)"

definition willRead :: "u64 \<Rightarrow> RStream \<Rightarrow> unit rlp_res" where
  "willRead n s =
     (let s1 = s\<lparr>st_kind := None\<rparr>;
          limited = (\<lambda>s2. if st_limited s2
                          then if n > st_remaining s2 then (Inl ErrValueTooLarge, s2)
                               else (Inr (), s2\<lparr>st_remaining := st_remaining s2 - n\<rparr>)
                          else (Inr (), s2))
      in case st_stack s1 of
           [] \<Rightarrow> limited s1
         | limit # lims \<Rightarrow>
             if n > limit then (Inl ErrElemTooLarge, s1) else limited (s1\<lparr>st_stack := (limit - n) # lims\<rparr>))"

definition readByte :: "RStream \<Rightarrow> byte rlp_res" where
  "readByte s =
     (case willRead 1 s of
        (Inl e, s1) \<Rightarrow> (Inl e, s1)
      | (Inr _, s1) \<Rightarrow>
          (case st_r s1 of [] \<Rightarrow> (Inl RlpUnexpectedEOF, s1) | b # r \<Rightarrow> (Inr b, s1\<lparr>st_r := r\<rparr>)))"

definition readFull :: "nat \<Rightarrow> RStream \<Rightarrow> bytes rlp_res" where
  "readFull n s =
     (case willRead (of_nat n) s of
        (Inl e, s1) \<Rightarrow> (Inl e, s1)
      | (Inr _, s1) \<Rightarrow>
          if length (st_r s1) < n then (Inl RlpUnexpectedEOF, s1\<lparr>st_r := []\<rparr>)
          else (Inr (take n (st_r s1)), s1\<lparr>st_r := drop n (st_r s1)\<rparr>))"

definition readUint :: "nat \<Rightarrow> RStream \<Rightarrow> u64 rlp_res" where
  "readUint sz s =
     (if sz = 0 then (Inr 0, s\<lparr>st_kind := None\<rparr>)
      else if sz = 1 then
        (case readByte s of (Inl e, s1) \<Rightarrow> (Inl e, s1) | (Inr b, s1) \<Rightarrow> (Inr (ucast b), s1))
      else
        (case readFull sz s of
           (Inl e, s1) \<Rightarrow> (Inl e, s1)
         | (Inr buffer, s1) \<Rightarrow>
             if hd buffer = 0 then (Inl ErrCanonSize, s1) else (Inr (of_nat (be_val buffer)), s1)))"

definition readKind_size :: "RlpKind \<Rightarrow> nat \<Rightarrow> RStream \<Rightarrow> (RlpKind \<times> u64 \<times> RlpErr option) \<times> RStream" where
  "readKind_size k n s =
     (case readUint n s of
        (Inl e, s1) \<Rightarrow> ((k, 0, Some e), s1)
      | (Inr sz, s1) \<Rightarrow> ((k, sz, if sz < 56 then Some ErrCanonSize else None), s1))"

text \<open>The kind, the size and the error that \<^verbatim>\<open>readKind\<close> returns together.\<close>

definition stream_readKind :: "RStream \<Rightarrow> (RlpKind \<times> u64 \<times> RlpErr option) \<times> RStream" where
  "stream_readKind s =
     (case readByte s of
        (Inl e, s1) \<Rightarrow>
          ((KByte, 0,
            Some (if st_stack s1 = [] then (if e = RlpUnexpectedEOF \<or> e = ErrValueTooLarge then RlpEOF else e) else e)), s1)
      | (Inr b, s1) \<Rightarrow>
          (let s2 = s1\<lparr>st_byteval := 0\<rparr> in
           if b < 0x80 then ((KByte, 0, None), s2\<lparr>st_byteval := b\<rparr>)
           else if b < 0xB8 then ((KString, ucast (b - 0x80), None), s2)
           else if b < 0xC0 then readKind_size KString (unat (b - 0xB7)) s2
           else if b < 0xF8 then ((KList, ucast (b - 0xC0), None), s2)
           else readKind_size KList (unat (b - 0xF7)) s2))"

definition stream_Kind :: "RStream \<Rightarrow> (RlpKind \<times> u64) rlp_res" where
  "stream_Kind s =
     (case st_kind s of
        Some k \<Rightarrow> (case st_kinderr s of None \<Rightarrow> (Inr (k, st_size s), s) | Some e \<Rightarrow> (Inl e, s))
      | None \<Rightarrow>
          if listLimit s = Some 0 then (Inl EOL, s)
          else
            (case stream_readKind s of ((k, sz, err), s1) \<Rightarrow>
               (let err' =
                      (if err = None
                       then if (case listLimit s of Some limit \<Rightarrow> sz > limit | None \<Rightarrow> False) then Some ErrElemTooLarge
                            else if st_limited s1 \<and> sz > st_remaining s1 then Some ErrValueTooLarge
                            else None
                       else err);
                    s2 = s1\<lparr>st_kind := Some k, st_size := sz, st_kinderr := err'\<rparr>
                in case err' of None \<Rightarrow> (Inr (k, sz), s2) | Some e \<Rightarrow> (Inl e, s2))))"

definition rearm :: "RStream \<Rightarrow> RStream" where
  "rearm s = s\<lparr>st_kind := None\<rparr>"

definition stream_Bytes :: "RStream \<Rightarrow> bytes rlp_res" where
  "stream_Bytes s =
     (case stream_Kind s of
        (Inl e, s1) \<Rightarrow> (Inl e, s1)
      | (Inr (k, sz), s1) \<Rightarrow>
          (case k of
             KByte \<Rightarrow> (Inr [st_byteval s1], rearm s1)
           | KString \<Rightarrow>
               (case readFull (unat sz) s1 of
                  (Inl e, s2) \<Rightarrow> (Inl e, s2)
                | (Inr b, s2) \<Rightarrow> if sz = 1 \<and> hd b < 128 then (Inl ErrCanonSize, s2) else (Inr b, s2))
           | KList \<Rightarrow> (Inl ErrExpectedString, s1)))"

definition stream_ReadBytes :: "nat \<Rightarrow> RStream \<Rightarrow> bytes rlp_res" where
  "stream_ReadBytes n s =
     (case stream_Kind s of
        (Inl e, s1) \<Rightarrow> (Inl e, s1)
      | (Inr (k, sz), s1) \<Rightarrow>
          (case k of
             KByte \<Rightarrow> if n \<noteq> 1 then (Inl WrongSize, s1) else (Inr [st_byteval s1], rearm s1)
           | KString \<Rightarrow>
               if of_nat n \<noteq> sz then (Inl WrongSize, s1)
               else
                 (case readFull n s1 of
                    (Inl e, s2) \<Rightarrow> (Inl e, s2)
                  | (Inr b, s2) \<Rightarrow> if sz = 1 \<and> hd b < 128 then (Inl ErrCanonSize, s2) else (Inr b, s2))
           | KList \<Rightarrow> (Inl ErrExpectedString, s1)))"

definition stream_Raw :: "RStream \<Rightarrow> bytes rlp_res" where
  "stream_Raw s =
     (case stream_Kind s of
        (Inl e, s1) \<Rightarrow> (Inl e, s1)
      | (Inr (k, sz), s1) \<Rightarrow>
          if k = KByte then (Inr [st_byteval s1], rearm s1)
          else
            (case readFull (unat sz) s1 of
               (Inl e, s2) \<Rightarrow> (Inl e, s2)
             | (Inr b, s2) \<Rightarrow>
                 (Inr ((if k = KString then puthead 0x80 0xB7 sz else puthead 0xC0 0xF7 sz) @ b), s2)))"

definition stream_uint :: "nat \<Rightarrow> RStream \<Rightarrow> u64 rlp_res" where
  "stream_uint maxbits s =
     (case stream_Kind s of
        (Inl e, s1) \<Rightarrow> (Inl e, s1)
      | (Inr (k, sz), s1) \<Rightarrow>
          (case k of
             KByte \<Rightarrow> if st_byteval s1 = 0 then (Inl ErrCanonInt, s1) else (Inr (ucast (st_byteval s1)), rearm s1)
           | KString \<Rightarrow>
               if sz > of_nat (maxbits div 8) then (Inl ErrUintOverflow, s1)
               else
                 (case readUint (unat sz) s1 of
                    (Inl e, s2) \<Rightarrow> (Inl (if e = ErrCanonSize then ErrCanonInt else e), s2)
                  | (Inr v, s2) \<Rightarrow> if sz > 0 \<and> v < 128 then (Inl ErrCanonSize, s2) else (Inr v, s2))
           | KList \<Rightarrow> (Inl ErrExpectedString, s1)))"

definition stream_Bool :: "RStream \<Rightarrow> bool rlp_res" where
  "stream_Bool s =
     (case stream_uint 8 s of
        (Inl e, s1) \<Rightarrow> (Inl e, s1)
      | (Inr num, s1) \<Rightarrow>
          if num = 0 then (Inr False, s1) else if num = 1 then (Inr True, s1) else (Inl (InvalidBool num), s1))"

definition stream_List :: "RStream \<Rightarrow> u64 rlp_res" where
  "stream_List s =
     (case stream_Kind s of
        (Inl e, s1) \<Rightarrow> (Inl e, s1)
      | (Inr (k, sz), s1) \<Rightarrow>
          if k \<noteq> KList then (Inl ErrExpectedList, s1)
          else
            (let outer = (case st_stack s1 of [] \<Rightarrow> [] | limit # lims \<Rightarrow> (limit - sz) # lims)
             in (Inr sz, s1\<lparr>st_stack := sz # outer, st_kind := None, st_size := 0\<rparr>)))"

definition stream_ListEnd :: "RStream \<Rightarrow> unit rlp_res" where
  "stream_ListEnd s =
     (case st_stack s of
        [] \<Rightarrow> (Inl ErrNotInList, s)
      | limit # lims \<Rightarrow>
          if limit > 0 then (Inl ErrNotAtEOL, s)
          else (Inr (), s\<lparr>st_stack := lims, st_kind := None, st_size := 0\<rparr>))"

definition MoreDataInList :: "RStream \<Rightarrow> bool" where
  "MoreDataInList s = (case listLimit s of None \<Rightarrow> False | Some limit \<Rightarrow> limit > 0)"

definition stream_decodeBigInt :: "RStream \<Rightarrow> nat rlp_res" where
  "stream_decodeBigInt s =
     (let set_bytes = (\<lambda>buffer s'. if buffer \<noteq> [] \<and> hd buffer = 0 then (Inl ErrCanonInt, s') else (Inr (be_val buffer), s'))
      in case stream_Kind s of
           (Inl e, s1) \<Rightarrow> (Inl e, s1)
         | (Inr (k, sz), s1) \<Rightarrow>
             (case k of
                KList \<Rightarrow> (Inl ErrExpectedString, s1)
              | KByte \<Rightarrow> set_bytes [st_byteval s1] (rearm s1)
              | KString \<Rightarrow>
                  if sz = 0 then set_bytes [] (rearm s1)
                  else
                    (case readFull (unat sz) s1 of
                       (Inl e, s2) \<Rightarrow> (Inl e, s2)
                     | (Inr buffer, s2) \<Rightarrow>
                         if sz = 1 \<and> hd buffer < 128 then (Inl ErrCanonSize, s2) else set_bytes buffer s2)))"

section \<open>Typed decoders (decode.go)\<close>

text \<open>
  Go types by the decoder that \<^verbatim>\<open>makeDecoder\<close> chooses. \<open>TNilPtr\<close> is a pointer with the tag \<^verbatim>\<open>nil\<close>; the integers have their
  width in bits. A \<open>big.Int\<close> pointer has its own decoder whatever its tag.
\<close>

datatype GoType =
  TBigInt | TUint nat | TBool | TString | TBytes | TByteArray nat
| TSlice GoType | TStruct "GoType list" | TPtr RlpKind GoType | TNilPtr RlpKind GoType | TInterface

definition wrapStreamError :: "RlpErr \<Rightarrow> RlpErr" where
  "wrapStreamError e =
     (case e of
        ErrCanonInt \<Rightarrow> DecodeError ''non-canonical integer (leading zero bytes)''
      | ErrCanonSize \<Rightarrow> DecodeError ''non-canonical size information''
      | ErrExpectedList \<Rightarrow> DecodeError ''expected input list''
      | ErrExpectedString \<Rightarrow> DecodeError ''expected input string or byte''
      | ErrUintOverflow \<Rightarrow> DecodeError ''input string too long''
      | ErrNotAtEOL \<Rightarrow> DecodeError ''input list has too many elements''
      | _ \<Rightarrow> e)"

definition wrap_res :: "('a \<Rightarrow> 'b) \<Rightarrow> 'a rlp_res \<Rightarrow> 'b rlp_res" where
  "wrap_res f r = (case r of (Inl e, s) \<Rightarrow> (Inl (wrapStreamError e), s) | (Inr x, s) \<Rightarrow> (Inr (f x), s))"

definition decodeUint :: "nat \<Rightarrow> RStream \<Rightarrow> GoVal rlp_res" where
  "decodeUint bits s = wrap_res GUint (stream_uint bits s)"

definition decodeBool :: "RStream \<Rightarrow> GoVal rlp_res" where
  "decodeBool s = wrap_res GBool (stream_Bool s)"

definition decodeString :: "RStream \<Rightarrow> GoVal rlp_res" where
  "decodeString s = wrap_res GString (stream_Bytes s)"

definition decodeBigInt :: "RStream \<Rightarrow> GoVal rlp_res" where
  "decodeBigInt s = wrap_res (\<lambda>n. GBigInt (Some (int n))) (stream_decodeBigInt s)"

definition decodeByteSlice :: "RStream \<Rightarrow> GoVal rlp_res" where
  "decodeByteSlice s = wrap_res GBytes (stream_Bytes s)"

definition decodeByteArray :: "nat \<Rightarrow> RStream \<Rightarrow> GoVal rlp_res" where
  "decodeByteArray n s =
     (case stream_Kind s of
        (Inl e, s1) \<Rightarrow> (Inl e, s1)
      | (Inr (k, sz), s1) \<Rightarrow>
          (case k of
             KByte \<Rightarrow>
               if n = 0 then (Inl (DecodeError ''input string too long''), s1)
               else if n > 1 then (Inl (DecodeError ''input string too short''), s1)
               else (Inr (GByteArray [st_byteval s1]), rearm s1)
           | KString \<Rightarrow>
               if of_nat n < sz then (Inl (DecodeError ''input string too long''), s1)
               else if of_nat n > sz then (Inl (DecodeError ''input string too short''), s1)
               else
                 (case readFull n s1 of
                    (Inl e, s2) \<Rightarrow> (Inl e, s2)
                  | (Inr b, s2) \<Rightarrow>
                      if sz = 1 \<and> hd b < 128 then (Inl (wrapStreamError ErrCanonSize), s2)
                      else (Inr (GByteArray b), s2))
           | KList \<Rightarrow> (Inl (wrapStreamError ErrExpectedString), s1)))"

text \<open>The list decoders, over the decoder of the elements or fields; the outer \<open>None\<close> means out of fuel.\<close>

definition list_end :: "(RlpErr \<Rightarrow> RlpErr) \<Rightarrow> GoVal \<Rightarrow> RStream \<Rightarrow> GoVal rlp_res" where
  "list_end wrap v s =
     (case stream_ListEnd s of (Inl e, s1) \<Rightarrow> (Inl (wrap e), s1) | (Inr _, s1) \<Rightarrow> (Inr v, s1))"

definition decodeListSlice ::
    "(RStream \<Rightarrow> (GoVal list rlp_res) option) \<Rightarrow> RStream \<Rightarrow> (GoVal rlp_res) option" where
  "decodeListSlice elems s =
     (case stream_List s of
        (Inl e, s1) \<Rightarrow> Some (Inl (wrapStreamError e), s1)
      | (Inr sz, s1) \<Rightarrow>
          if sz = 0 then Some (list_end id (GSlice []) s1)
          else
            (case elems s1 of
               None \<Rightarrow> None
             | Some (Inl e, s2) \<Rightarrow> Some (Inl e, s2)
             | Some (Inr vs, s2) \<Rightarrow> Some (list_end id (GSlice vs) s2)))"

definition decodeStruct ::
    "(RStream \<Rightarrow> (GoVal list rlp_res) option) \<Rightarrow> RStream \<Rightarrow> (GoVal rlp_res) option" where
  "decodeStruct flds s =
     (case stream_List s of
        (Inl e, s1) \<Rightarrow> Some (Inl (wrapStreamError e), s1)
      | (Inr sz, s1) \<Rightarrow>
          (case flds s1 of
             None \<Rightarrow> None
           | Some (Inl e, s2) \<Rightarrow> Some (Inl e, s2)
           | Some (Inr vs, s2) \<Rightarrow> Some (list_end wrapStreamError (GStruct vs) s2)))"

definition decodeNilPtr ::
    "RlpKind \<Rightarrow> (RStream \<Rightarrow> (GoVal rlp_res) option) \<Rightarrow> RStream \<Rightarrow> (GoVal rlp_res) option" where
  "decodeNilPtr nilKind elem s =
     (case stream_Kind s of
        (Inl e, s1) \<Rightarrow> Some (Inl (wrapStreamError e), s1)
      | (Inr (k, sz), s1) \<Rightarrow>
          if k \<noteq> KByte \<and> sz = 0 then
            if k \<noteq> nilKind then Some (Inl (DecodeError ''wrong kind of empty value''), s1)
            else Some (Inr (GPtr nilKind None), rearm s1)
          else
            (case elem s1 of
               None \<Rightarrow> None
             | Some (Inl e, s2) \<Rightarrow> Some (Inl e, s2)
             | Some (Inr v, s2) \<Rightarrow> Some (Inr (GPtr nilKind (Some v)), s2)))"

definition decodeSimplePtr ::
    "RlpKind \<Rightarrow> (RStream \<Rightarrow> (GoVal rlp_res) option) \<Rightarrow> RStream \<Rightarrow> (GoVal rlp_res) option" where
  "decodeSimplePtr nk elem s =
     (case elem s of
        None \<Rightarrow> None
      | Some (Inl e, s1) \<Rightarrow> Some (Inl e, s1)
      | Some (Inr v, s1) \<Rightarrow> Some (Inr (GPtr nk (Some v)), s1))"

definition decodeInterface ::
    "(RStream \<Rightarrow> (GoVal list rlp_res) option) \<Rightarrow> RStream \<Rightarrow> (GoVal rlp_res) option" where
  "decodeInterface elems s =
     (case stream_Kind s of
        (Inl e, s1) \<Rightarrow> Some (Inl e, s1)
      | (Inr (k, sz), s1) \<Rightarrow>
          if k = KList then
            (case decodeListSlice elems s1 of
               None \<Rightarrow> None
             | Some (Inl e, s2) \<Rightarrow> Some (Inl e, s2)
             | Some (Inr v, s2) \<Rightarrow> Some (Inr (GInterface (Some v)), s2))
          else
            (case stream_Bytes s1 of
               (Inl e, s2) \<Rightarrow> Some (Inl e, s2)
             | (Inr b, s2) \<Rightarrow> Some (Inr (GInterface (Some (GBytes b))), s2)))"

fun decode_val :: "nat \<Rightarrow> GoType \<Rightarrow> RStream \<Rightarrow> (GoVal rlp_res) option"
and decode_elems :: "nat \<Rightarrow> GoType \<Rightarrow> RStream \<Rightarrow> (GoVal list rlp_res) option"
and decode_fields :: "nat \<Rightarrow> GoType list \<Rightarrow> RStream \<Rightarrow> (GoVal list rlp_res) option" where
  "decode_val fuel TBigInt s = Some (decodeBigInt s)"
| "decode_val fuel (TUint bits) s = Some (decodeUint bits s)"
| "decode_val fuel TBool s = Some (decodeBool s)"
| "decode_val fuel TString s = Some (decodeString s)"
| "decode_val fuel TBytes s = Some (decodeByteSlice s)"
| "decode_val fuel (TByteArray n) s = Some (decodeByteArray n s)"
| "decode_val fuel (TSlice t) s = decodeListSlice (\<lambda>s1. decode_elems fuel t s1) s"
| "decode_val fuel (TStruct ts) s = decodeStruct (\<lambda>s1. decode_fields fuel ts s1) s"
| "decode_val fuel (TPtr nk t) s = decodeSimplePtr nk (\<lambda>s1. decode_val fuel t s1) s"
| "decode_val fuel (TNilPtr nk t) s = decodeNilPtr nk (\<lambda>s1. decode_val fuel t s1) s"
| "decode_val 0 TInterface s = None"
| "decode_val (Suc fuel) TInterface s = decodeInterface (\<lambda>s1. decode_elems fuel TInterface s1) s"
| "decode_elems 0 t s = None"
| "decode_elems (Suc fuel) t s =
     (case decode_val fuel t s of
        None \<Rightarrow> None
      | Some (Inl e, s1) \<Rightarrow> if e = EOL then Some (Inr [], s1) else Some (Inl e, s1)
      | Some (Inr v, s1) \<Rightarrow>
          (case decode_elems fuel t s1 of
             None \<Rightarrow> None
           | Some (Inl e, s2) \<Rightarrow> Some (Inl e, s2)
           | Some (Inr vs, s2) \<Rightarrow> Some (Inr (v # vs), s2)))"
| "decode_fields fuel [] s = Some (Inr [], s)"
| "decode_fields fuel (t # ts) s =
     (case decode_val fuel t s of
        None \<Rightarrow> None
      | Some (Inl e, s1) \<Rightarrow> Some (Inl (if e = EOL then DecodeError ''too few elements'' else e), s1)
      | Some (Inr v, s1) \<Rightarrow>
          (case decode_fields fuel ts s1 of
             None \<Rightarrow> None
           | Some (Inl e, s2) \<Rightarrow> Some (Inl e, s2)
           | Some (Inr vs, s2) \<Rightarrow> Some (Inr (v # vs), s2)))"

text \<open>Two calls for each input byte are enough; \<open>decode_total\<close> in \<open>Rlp_Decode\<close> shows that the fuel never runs out.\<close>

definition decode_fuel :: "bytes \<Rightarrow> nat" where
  "decode_fuel b = 2 * length b + 2"

definition DecodeBytes :: "GoType \<Rightarrow> bytes \<Rightarrow> (RlpErr + GoVal) option" where
  "DecodeBytes t b =
     (case decode_val (decode_fuel b) t (Stream_Reset False b (of_nat (length b))) of
        None \<Rightarrow> None
      | Some (Inl e, s) \<Rightarrow> Some (Inl e)
      | Some (Inr v, s) \<Rightarrow> if length (st_r s) > 0 then Some (Inl ErrMoreThanOneValue) else Some (Inr v))"

text \<open>\<^verbatim>\<open>rlp.Decode\<close> of a \<^verbatim>\<open>bytes.Reader\<close>: the value and what is left in the reader.\<close>

definition rlp_Decode :: "GoType \<Rightarrow> bytes \<Rightarrow> (RlpErr + GoVal \<times> bytes) option" where
  "rlp_Decode t r =
     (case decode_val (decode_fuel r) t (Stream_Reset True r 0) of
        None \<Rightarrow> None
      | Some (Inl e, s) \<Rightarrow> Some (Inl e)
      | Some (Inr v, s) \<Rightarrow> Some (Inr (v, st_r s)))"

section \<open>Slices (raw.go, iterator.go)\<close>

definition BytesSize :: "bytes \<Rightarrow> u64" where
  "BytesSize b =
     (case b of
        [] \<Rightarrow> 1
      | [x] \<Rightarrow> if x \<le> 0x7f then 1 else 2
      | _ \<Rightarrow> of_nat (headsize (of_nat (length b)) + length b))"

definition ListSize :: "u64 \<Rightarrow> u64" where
  "ListSize contentSize = of_nat (headsize contentSize) + contentSize"

definition IntSize :: "u64 \<Rightarrow> nat" where
  "IntSize x = (if x < 0x80 then 1 else 1 + intsize x)"

fun shift_or :: "bytes \<Rightarrow> u64 \<Rightarrow> u64" where
  "shift_or [] acc = acc"
| "shift_or (b # bs) acc = shift_or bs (or (push_bit (8 * length (b # bs) - 8) (ucast b)) acc)"

text \<open>The eight cases of \<^verbatim>\<open>readSize\<close> combine the shifted bytes; another length leaves the size at zero.\<close>

definition readSize :: "bytes \<Rightarrow> nat \<Rightarrow> (RlpErr + u64) option" where
  "readSize b slen =
     (if slen > length b then Some (Inl RlpUnexpectedEOF)
      else
        (let s = (if 1 \<le> slen \<and> slen \<le> 8 then shift_or (take slen b) 0 else 0) in
         if s < 56 then Some (Inl ErrCanonSize)
         else case b of [] \<Rightarrow> None | b0 # _ \<Rightarrow> if b0 = 0 then Some (Inl ErrCanonSize) else Some (Inr s)))"

definition raw_readKind :: "bytes \<Rightarrow> (RlpErr + RlpKind \<times> u64 \<times> u64) option" where
  "raw_readKind buf =
     (case buf of
        [] \<Rightarrow> Some (Inl RlpUnexpectedEOF)
      | b # r \<Rightarrow>
          (let fits = (\<lambda>k tagsize contentsize.
                         if contentsize > of_nat (length buf) - tagsize then Some (Inl ErrValueTooLarge)
                         else Some (Inr (k, tagsize, contentsize)));
               sized = (\<lambda>k n. case readSize r n of
                                None \<Rightarrow> None
                              | Some (Inl e) \<Rightarrow> Some (Inl e)
                              | Some (Inr contentsize) \<Rightarrow> fits k (of_nat n + 1) contentsize)
           in if b < 0x80 then fits KByte 0 1
              else if b < 0xB8 then
                if b - 0x80 = 1 \<and> length buf > 1 \<and> hd r < 128 then Some (Inl ErrCanonSize)
                else fits KString 1 (ucast (b - 0x80))
              else if b < 0xC0 then sized KString (unat (b - 0xB7))
              else if b < 0xF8 then fits KList 1 (ucast (b - 0xC0))
              else sized KList (unat (b - 0xF7))))"

definition rlp_Split :: "bytes \<Rightarrow> (RlpErr + RlpKind \<times> bytes \<times> bytes) option" where
  "rlp_Split b =
     (case raw_readKind b of
        None \<Rightarrow> None
      | Some (Inl e) \<Rightarrow> Some (Inl e)
      | Some (Inr (k, ts, cs)) \<Rightarrow>
          (case (go_slice (unat ts) (unat (ts + cs)) b, go_slice (unat (ts + cs)) (length b) b) of
             (Some content, Some rest) \<Rightarrow> Some (Inr (k, content, rest))
           | _ \<Rightarrow> None))"

definition SplitString :: "bytes \<Rightarrow> (RlpErr + bytes \<times> bytes) option" where
  "SplitString b =
     (case rlp_Split b of
        None \<Rightarrow> None
      | Some (Inl e) \<Rightarrow> Some (Inl e)
      | Some (Inr (k, content, rest)) \<Rightarrow>
          if k = KList then Some (Inl ErrExpectedString) else Some (Inr (content, rest)))"

definition SplitList :: "bytes \<Rightarrow> (RlpErr + bytes \<times> bytes) option" where
  "SplitList b =
     (case rlp_Split b of
        None \<Rightarrow> None
      | Some (Inl e) \<Rightarrow> Some (Inl e)
      | Some (Inr (k, content, rest)) \<Rightarrow>
          if k \<noteq> KList then Some (Inl ErrExpectedList) else Some (Inr (content, rest)))"

definition SplitUint64 :: "bytes \<Rightarrow> (RlpErr + u64 \<times> bytes) option" where
  "SplitUint64 b =
     (case SplitString b of
        None \<Rightarrow> None
      | Some (Inl e) \<Rightarrow> Some (Inl e)
      | Some (Inr (content, rest)) \<Rightarrow>
          (case content of
             [] \<Rightarrow> Some (Inr (0, rest))
           | [c] \<Rightarrow> if c = 0 then Some (Inl ErrCanonInt) else Some (Inr (ucast c, rest))
           | _ \<Rightarrow>
               if length content > 8 then Some (Inl ErrUintOverflow)
               else
                 (case readSize content (length content) of
                    None \<Rightarrow> None
                  | Some (Inl e) \<Rightarrow> Some (Inl ErrCanonInt)
                  | Some (Inr x) \<Rightarrow> Some (Inr (x, rest)))))"

text \<open>The source spells out the same eight cases as in \<open>putint\<close>.\<close>

definition AppendUint64 :: "bytes \<Rightarrow> u64 \<Rightarrow> bytes" where
  "AppendUint64 b i =
     (if i = 0 then b @ [0x80]
      else if i < 128 then b @ [byte_of i]
      else (let p = putint i in b @ (0x80 + of_nat (length p)) # p))"

end
