(* ===== verification/Rlp_Encode.thy ===== *)
theory Rlp_Encode
  imports Rlp
begin

text \<open>
  The RLP format as a reference encoding of trees of strings and lists, and the lemmas that relate the
  encoding buffer and the decoding stream to it.
\<close>

section \<open>The reference encoding\<close>

datatype rlp = RString bytes | RList "rlp list"

fun be_min :: "nat \<Rightarrow> bytes" where
  "be_min n = (if n = 0 then [] else be_min (n div 256) @ [of_nat (n mod 256)])"

declare be_min.simps [simp del]

definition rlp_head :: "byte \<Rightarrow> byte \<Rightarrow> nat \<Rightarrow> bytes" where
  "rlp_head small large n =
     (if n < 56 then [small + of_nat n] else (large + of_nat (length (be_min n))) # be_min n)"

definition rlp_str :: "bytes \<Rightarrow> bytes" where
  "rlp_str bs = (if length bs = 1 \<and> hd bs < 0x80 then bs else rlp_head 0x80 0xB7 (length bs) @ bs)"

fun rlp_enc :: "rlp \<Rightarrow> bytes" where
  "rlp_enc (RString bs) = rlp_str bs"
| "rlp_enc (RList xs) = (let c = concat (map rlp_enc xs) in rlp_head 0xC0 0xF7 (length c) @ c)"

section \<open>Minimal big-endian integers\<close>

lemma be_val_snoc: "be_val (xs @ [x]) = 256 * be_val xs + unat x"
  by (simp add: be_val_def)

lemma be_val_Nil [simp]: "be_val [] = 0"
  by (simp add: be_val_def)

lemma be_min_0 [simp]: "be_min 0 = []"
  by (simp add: be_min.simps)

lemma be_min_step: "0 < n \<Longrightarrow> be_min n = be_min (n div 256) @ [of_nat (n mod 256)]"
  by (subst be_min.simps) simp

lemma be_val_be_min [simp]: "be_val (be_min n) = n"
proof (induction n rule: be_min.induct)
  case (1 n)
  then show ?case
    by (cases "n = 0") (simp_all add: be_min_step be_val_snoc unat_of_nat_byte)
qed

lemma be_min_Nil_iff [simp]: "be_min n = [] \<longleftrightarrow> n = 0"
  by (cases "n = 0") (simp_all add: be_min_step)

lemma hd_be_min: "0 < n \<Longrightarrow> hd (be_min n) \<noteq> 0"
proof (induction n rule: be_min.induct)
  case (1 n)
  show ?case
  proof (cases "n div 256 = 0")
    case True
    then have "n < 256" by simp
    have "unat (of_nat (n mod 256) :: byte) = n mod 256" by (rule unat_of_nat_byte)
    then have "unat (of_nat n :: byte) \<noteq> 0" using \<open>n < 256\<close> "1.prems" by simp
    then have "(of_nat n :: byte) \<noteq> 0" by (metis unat_0)
    then show ?thesis using True \<open>n < 256\<close> "1.prems" by (simp add: be_min_step)
  next
    case False
    then show ?thesis using 1 by (simp add: be_min_step [of n] hd_append)
  qed
qed

lemma length_be_min_le: "length (be_min n) \<le> k \<longleftrightarrow> n < 256 ^ k"
proof (induction k arbitrary: n)
  case 0
  then show ?case by simp
next
  case (Suc k)
  show ?case
  proof (cases "n = 0")
    case False
    then have "length (be_min n) \<le> Suc k \<longleftrightarrow> n div 256 < 256 ^ k"
      by (simp add: be_min_step Suc)
    also have "\<dots> \<longleftrightarrow> n < 256 ^ Suc k"
      by (simp add: div_less_iff_less_mult mult.commute)
    finally show ?thesis .
  qed simp
qed

lemma be_min_be_val: "bs = [] \<or> hd bs \<noteq> 0 \<Longrightarrow> be_min (be_val bs) = bs"
proof (induction bs rule: rev_induct)
  case (snoc x xs)
  have "be_val (xs @ [x]) > 0"
  proof (cases "xs = []")
    case True
    then have "x \<noteq> 0" using snoc.prems by simp
    then have "unat x \<noteq> 0" using unat_eq_zero by blast
    then show ?thesis by (simp add: be_val_snoc)
  next
    case False
    then have "be_min (be_val xs) \<noteq> []" using snoc by (simp add: hd_append)
    then show ?thesis by (simp add: be_val_snoc)
  qed
  moreover have "be_val (xs @ [x]) div 256 = be_val xs" "be_val (xs @ [x]) mod 256 = unat x"
    using unat_byte_less [of x] by (simp_all add: be_val_snoc)
  moreover have "be_min (be_val xs) = xs" using snoc by (cases "xs = []") (simp_all add: hd_append)
  ultimately show ?case by (simp add: be_min_step)
qed simp

lemma byte_of_nat: "byte_of i = of_nat (unat i mod 256)"
  by (rule unsigned_word_eqI [where ?'a = nat]) (simp add: byte_of_def unat_of_nat unsigned_ucast_eq take_bit_eq_mod)

lemma unat_byte_of: "unat (byte_of i) = unat i mod 256"
  by (simp add: byte_of_def unsigned_ucast_eq take_bit_eq_mod)

lemma unat_pow2_u64: "k < 64 \<Longrightarrow> unat (2 ^ k :: u64) = 2 ^ k"
proof -
  assume "k < 64"
  then have "(2 :: nat) ^ k < 2 ^ 64" by (rule power_strict_increasing) simp
  then have "unat (of_nat (2 ^ k) :: u64) = 2 ^ k" by (simp only: unat_of_nat_u64)
  then show ?thesis by simp
qed

lemma drop_bit_less: "k + 8 < 64 \<Longrightarrow> drop_bit 8 (i :: u64) < 2 ^ k \<longleftrightarrow> i < 2 ^ (k + 8)"
  by (simp only: word_less_nat_alt unat_drop_bit_8 unat_pow2_u64) (simp add: div_less_iff_less_mult power_add unat_pow2_u64)

lemma putint_small: "i < 256 \<Longrightarrow> putint i = [byte_of i]"
  by (simp add: putint_def)

lemma putint_step:
  assumes "\<not> i < 256"
  shows "putint i = putint (drop_bit 8 i) @ [byte_of i]"
proof -
  have ge: "\<not> i < 2 ^ 8" using assms by simp
  have d: "drop_bit 8 i < 2 ^ 8 \<longleftrightarrow> i < 2 ^ 16" "drop_bit 8 i < 2 ^ 16 \<longleftrightarrow> i < 2 ^ 24"
    "drop_bit 8 i < 2 ^ 24 \<longleftrightarrow> i < 2 ^ 32" "drop_bit 8 i < 2 ^ 32 \<longleftrightarrow> i < 2 ^ 40"
    "drop_bit 8 i < 2 ^ 40 \<longleftrightarrow> i < 2 ^ 48" "drop_bit 8 i < 2 ^ 48 \<longleftrightarrow> i < 2 ^ 56"
    using drop_bit_less [of 8 i] drop_bit_less [of 16 i] drop_bit_less [of 24 i] drop_bit_less [of 32 i]
      drop_bit_less [of 40 i] drop_bit_less [of 48 i]
    by simp_all
  have "unat (drop_bit 8 i) < 2 ^ 56"
    using unsigned_less [of i, where ?'a = nat] by (simp add: unat_drop_bit_8 div_less_iff_less_mult)
  then have top: "drop_bit 8 i < 2 ^ 56" by (simp add: word_less_nat_alt)
  show ?thesis
    unfolding putint_def if_not_P [OF ge] d if_P [OF top] by (simp add: drop_bit_drop_bit)
qed

lemma unat_eq_0_iff: "unat (i :: 'a :: len word) = 0 \<longleftrightarrow> i = 0"
  by (simp add: unsigned_eq_0_iff)

lemma putint_eq: "putint i = (if i = 0 then [0] else be_min (unat i))"
proof (induction "unat i" arbitrary: i rule: less_induct)
  case less
  show ?case
  proof (cases "i < 256")
    case True
    then have l: "unat i < 256" by (simp add: word_less_nat_alt)
    have p: "putint i = [of_nat (unat i mod 256)]" using True by (simp only: putint_small byte_of_nat)
    show ?thesis
    proof (cases "i = 0")
      case False
      then have "0 < unat i" by (simp add: unat_gt_0)
      then have "be_min (unat i) = be_min (unat i div 256) @ [of_nat (unat i mod 256)]" by (rule be_min_step)
      then show ?thesis using False p l by simp
    qed (use p in simp)
  next
    case False
    then have l: "\<not> unat i < 256" by (simp add: word_less_nat_alt)
    have "unat (drop_bit 8 i) \<noteq> 0" unfolding unat_drop_bit_8 using l by (simp add: div_eq_0_iff)
    then have d: "drop_bit 8 i \<noteq> 0" by (rule contrapos_nn) (simp only: unat_0)
    have "unat (drop_bit 8 i) < unat i" unfolding unat_drop_bit_8 using l by simp
    then have "putint (drop_bit 8 i) = be_min (unat i div 256)"
      using less [of "drop_bit 8 i"] d by (simp only: if_False unat_drop_bit_8)
    then have "putint i = be_min (unat i div 256) @ [of_nat (unat i mod 256)]"
      by (simp only: putint_step [OF False] byte_of_nat)
    moreover have "be_min (unat i) = be_min (unat i div 256) @ [of_nat (unat i mod 256)]"
      using l by (intro be_min_step) simp
    moreover have "i \<noteq> 0" using l by auto
    ultimately show ?thesis by simp
  qed
qed

lemma intsize_loop_eq: "intsize_loop sz i = sz + length (be_min (unat i div 256))"
proof (induction sz i rule: intsize_loop.induct)
  case (1 sz i)
  show ?case
  proof (cases "drop_bit 8 i = 0")
    case True
    then have "unat i div 256 = 0" by (metis unat_0 unat_drop_bit_8)
    then show ?thesis using True by (simp add: intsize_loop.simps)
  next
    case False
    then have "unat i div 256 \<noteq> 0" by (metis unat_drop_bit_8 unat_eq_0_iff)
    then have "length (be_min (unat i div 256)) = Suc (length (be_min (unat i div 256 div 256)))"
      by (simp add: be_min_step [of "unat i div 256"])
    then show ?thesis using 1 [OF refl False] False
      by (subst intsize_loop.simps) (simp add: Let_def unat_drop_bit_8)
  qed
qed

lemma intsize_eq: "i \<noteq> 0 \<Longrightarrow> intsize i = length (be_min (unat i))"
  by (simp add: intsize_def intsize_loop_eq be_min_step [of "unat i"] unat_gt_0)

lemma u64_less_nat: "(i :: u64) < numeral w \<longleftrightarrow> unat i < unat (numeral w :: u64)"
  by (rule word_less_nat_alt)

lemma puthead_eq: "puthead small large sz = rlp_head small large (unat sz)"
proof (cases "sz < 56")
  case True
  then have "unat sz < 56" by (simp add: word_less_nat_alt)
  then show ?thesis using True by (simp add: puthead_def rlp_head_def byte_of_nat)
next
  case False
  then have "\<not> unat sz < 56" "sz \<noteq> 0" by (auto simp: word_less_nat_alt)
  then show ?thesis using False by (simp add: puthead_def rlp_head_def putint_eq Let_def)
qed

lemma length_rlp_head: "length (rlp_head small large n) = (if n < 56 then 1 else 1 + length (be_min n))"
  by (simp add: rlp_head_def)

lemma headsize_eq: "headsize sz = length (rlp_head small large (unat sz))"
  by (cases "sz = 0"; cases "sz < 56") (auto simp: headsize_def length_rlp_head intsize_eq word_less_nat_alt)

section \<open>Single values in the encoding buffer\<close>

lemma be_min_u64: "length (be_min (unat (i :: u64))) \<le> 8"
  using u64_bound [of i] by (simp only: length_be_min_le)

lemma rlp_str_Nil [simp]: "rlp_str [] = [0x80]"
  by (simp add: rlp_str_def rlp_head_def)

lemma rlp_str_byte: "x < 0x80 \<Longrightarrow> rlp_str [x] = [x]"
  by (simp add: rlp_str_def)

lemma writeUint64_eq: "writeUint64 i buf = append_str (rlp_str (be_min (unat i))) buf"
proof -
  consider "i = 0" | "i \<noteq> 0" "i < 128" | "i \<noteq> 0" "\<not> i < 128" by blast
  then show ?thesis
  proof cases
    case 1
    then show ?thesis by (simp add: writeUint64_def)
  next
    case 2
    then have l: "unat i < 128" by (simp add: word_less_nat_alt)
    then have b: "be_min (unat i) = [byte_of i]"
      using 2 by (simp add: be_min_step unat_gt_0 byte_of_nat)
    have "byte_of i < 0x80"
      using l by (simp add: word_less_nat_alt unat_byte_of)
    then show ?thesis using 2 by (simp add: writeUint64_def b rlp_str_byte)
  next
    case 3
    then have l: "\<not> unat i < 128" by (simp add: word_less_nat_alt)
    have ne: "\<not> (length (be_min (unat i)) = 1 \<and> hd (be_min (unat i)) < 0x80)"
    proof
      assume a: "length (be_min (unat i)) = 1 \<and> hd (be_min (unat i)) < 0x80"
      then obtain x where x: "be_min (unat i) = [x]" by (metis One_nat_def length_0_conv length_Suc_conv)
      then have "unat i = unat x" using be_val_be_min [of "unat i"] by (simp add: be_val_def)
      then show False using a x l by (simp add: word_less_nat_alt)
    qed
    have "length (be_min (unat i)) < 56" using be_min_u64 [of i] by simp
    then have "rlp_str (be_min (unat i)) = (0x80 + of_nat (length (be_min (unat i)))) # be_min (unat i)"
      using ne by (simp only: rlp_str_def rlp_head_def if_not_P [OF ne]) simp
    then show ?thesis using 3 by (simp add: writeUint64_def putint_eq Let_def)
  qed
qed

lemma encodeStringHeader_eq:
  assumes "n < 2 ^ 64"
  shows "encodeStringHeader n buf = append_str (rlp_head 0x80 0xB7 n) buf"
proof (cases "n < 56")
  case False
  have u: "unat (of_nat n :: u64) = n" using assms by (rule unat_of_nat_u64)
  then have "(of_nat n :: u64) \<noteq> 0" using False by (metis unat_0 zero_less_numeral)
  then show ?thesis using False by (simp add: encodeStringHeader_def rlp_head_def putint_eq Let_def u)
qed (simp add: encodeStringHeader_def rlp_head_def)

lemma append_str_append [simp]: "append_str b (append_str a buf) = append_str (a @ b) buf"
  by (simp add: append_str_def)

lemma le_7F: "(x :: byte) \<le> 0x7F \<longleftrightarrow> x < 0x80"
  by (simp add: word_le_nat_alt word_less_nat_alt) arith

lemma write_bytes_eq:
  assumes "length b < 2 ^ 64"
  shows "enc_writeBytes b buf = append_str (rlp_str b) buf"
    "write_string b buf = append_str (rlp_str b) buf"
    "write_byte_array b buf = append_str (rlp_str b) buf"
proof -
  consider "b = []" | x where "b = [x]" | x y zs where "b = x # y # zs" by (metis neq_Nil_conv)
  then have "enc_writeBytes b buf = append_str (rlp_str b) buf \<and> write_string b buf = append_str (rlp_str b) buf \<and>
      write_byte_array b buf = append_str (rlp_str b) buf"
    using encodeStringHeader_eq [OF assms, of buf]
    by cases (simp_all add: enc_writeBytes_def write_string_def write_byte_array_def le_7F rlp_str_def rlp_head_def)
  then show "enc_writeBytes b buf = append_str (rlp_str b) buf"
    "write_string b buf = append_str (rlp_str b) buf" "write_byte_array b buf = append_str (rlp_str b) buf"
    by simp_all
qed

section \<open>Large integers\<close>

lemma be_min_be_bytes: "be_min n = be_bytes (length (be_min n)) n"
  using be_bytes_be_val [of "be_min n"] by simp

lemma BitLen_le: "big_BitLen n \<le> k \<longleftrightarrow> n < 2 ^ k"
proof (induction k arbitrary: n)
  case 0
  then show ?case by (subst big_BitLen.simps) simp
next
  case (Suc k)
  show ?case
  proof (cases "n = 0")
    case False
    have "big_BitLen n \<le> Suc k \<longleftrightarrow> n div 2 < 2 ^ k"
      using False by (subst big_BitLen.simps) (simp add: Suc)
    also have "\<dots> \<longleftrightarrow> n < 2 ^ Suc k" by (simp add: div_less_iff_less_mult mult.commute)
    finally show ?thesis .
  qed (subst big_BitLen.simps, simp)
qed

lemma byte_length: "(big_BitLen n + 7) div 8 = length (be_min n)"
proof -
  have "(big_BitLen n + 7) div 8 \<le> k \<longleftrightarrow> length (be_min n) \<le> k" for k
  proof -
    have "(big_BitLen n + 7) div 8 \<le> k \<longleftrightarrow> big_BitLen n \<le> 8 * k" by linarith
    also have "\<dots> \<longleftrightarrow> n < (2 ^ 8) ^ k" by (simp only: BitLen_le power_mult)
    also have "\<dots> \<longleftrightarrow> length (be_min n) \<le> k" by (simp add: length_be_min_le)
    finally show ?thesis .
  qed
  then show ?thesis by (meson le_antisym order_refl)
qed

lemma take_le_bytes: "take k (le_bytes m n) = le_bytes (min k m) n"
proof (induction k arbitrary: m n)
  case (Suc k)
  then show ?case by (cases m) simp_all
qed simp

lemma le_bytes_add: "le_bytes (a + b) n = le_bytes a n @ le_bytes b (n div 256 ^ a)"
  by (induction a arbitrary: n) (simp_all add: div_mult2_eq)

lemma le_bytes_mod: "k \<le> a \<Longrightarrow> le_bytes k (n mod 256 ^ a) = le_bytes k n"
proof (induction k arbitrary: n a)
  case (Suc k)
  then obtain a' where a: "a = Suc a'" by (cases a) simp_all
  have "n mod 256 ^ Suc a' mod 256 = n mod 256" by (simp add: mod_mod_cancel)
  moreover have "n mod 256 ^ Suc a' div 256 = n div 256 mod 256 ^ a'"
    by (simp add: mod_mult2_eq)
  ultimately show ?case using Suc.IH [of a' "n div 256"] Suc.prems by (simp add: a del: power_Suc)
qed simp

lemma put_word_eq:
  "index \<le> length b \<Longrightarrow>
   put_word j d index b = (index - j, take (index - j) b @ rev (take index (le_bytes j (unat d))) @ drop index b)"
proof (induction j arbitrary: d index b)
  case (Suc j)
  show ?case
  proof (cases index)
    case (Suc i)
    then have i: "i < length b" using Suc.prems by simp
    have "put_word j (drop_bit 8 d) i (b[i := byte_of d]) =
        (i - j, take (i - j) (b[i := byte_of d]) @ rev (take i (le_bytes j (unat d div 256))) @ drop i (b[i := byte_of d]))"
      using Suc.IH [of i "b[i := byte_of d]" "drop_bit 8 d"] i by (simp add: unat_drop_bit_8)
    moreover have "drop i (b[i := byte_of d]) = byte_of d # drop (Suc i) b"
      using i by (simp add: Cons_nth_drop_Suc [symmetric])
    ultimately show ?thesis using Suc i by (simp add: byte_of_nat)
  qed simp
qed simp

lemma put_words_eq:
  "index \<le> length b \<Longrightarrow>
   put_words ds index b =
     take (index - 8 * length ds) b @ rev (take index (concat (map (\<lambda>d. le_bytes 8 (unat d)) ds))) @ drop index b"
proof (induction ds arbitrary: index b)
  case (Cons d ds)
  let ?b = "take (index - 8) b @ rev (take index (le_bytes 8 (unat d))) @ drop index b"
  have "put_words ds (index - 8) ?b =
      take (index - 8 - 8 * length ds) ?b @ rev (take (index - 8) (concat (map (\<lambda>d. le_bytes 8 (unat d)) ds))) @
      drop (index - 8) ?b"
    using Cons.prems by (intro Cons.IH) simp
  then show ?case using Cons.prems by (simp add: put_word_eq)
qed simp

lemma Bits_bytes: "concat (map (\<lambda>d. le_bytes 8 (unat d)) (big_Bits n)) = le_bytes (8 * length (big_Bits n)) n"
proof (induction n rule: big_Bits.induct)
  case (1 n)
  show ?case
  proof (cases "n = 0")
    case False
    have w: "unat (of_nat (n mod 2 ^ 64) :: u64) = n mod 2 ^ 64" by (simp only: unat_of_nat) simp
    have "le_bytes 8 (n mod 256 ^ 8) = le_bytes 8 n" by (rule le_bytes_mod) simp
    then have "le_bytes 8 (n mod 2 ^ 64) = le_bytes 8 n" by simp
    moreover have "le_bytes (8 + 8 * length (big_Bits (n div 2 ^ 64))) n =
        le_bytes 8 n @ le_bytes (8 * length (big_Bits (n div 2 ^ 64))) (n div 2 ^ 64)"
      by (subst le_bytes_add) simp
    ultimately show ?thesis using 1 [OF False] False
      by (subst (1 2) big_Bits.simps) (simp only: if_False list.map concat.simps w length_Cons mult_Suc_right)
  qed (simp add: big_Bits.simps)
qed

lemma Bits_bound: "n < 256 ^ (8 * length (big_Bits n))"
proof (induction n rule: big_Bits.induct)
  case (1 n)
  show ?case
  proof (cases "n = 0")
    case False
    then have "n div 2 ^ 64 < 256 ^ (8 * length (big_Bits (n div 2 ^ 64)))" using 1 by simp
    then have "n < 2 ^ 64 * 256 ^ (8 * length (big_Bits (n div 2 ^ 64)))"
      by (simp add: div_less_iff_less_mult mult.commute)
    then show ?thesis using False by (subst big_Bits.simps) (simp add: power_add)
  qed simp
qed

lemma writeBigInt_eq:
  assumes "length (be_min n) < 2 ^ 64"
  shows "writeBigInt n buf = append_str (rlp_str (be_min n)) buf"
proof (cases "big_BitLen n \<le> 64")
  case True
  then have "n < 2 ^ 64" by (simp only: BitLen_le)
  then have "unat (of_nat n :: u64) = n" by (rule unat_of_nat_u64)
  then show ?thesis using True by (simp add: writeBigInt_def writeUint64_eq)
next
  case False
  let ?l = "length (be_min n)"
  have "\<not> n < 256 ^ 1" using False by (auto simp: BitLen_le)
  then have ne: "?l \<noteq> 1" by (metis length_be_min_le order_refl)
  have "?l \<le> 8 * length (big_Bits n)" using Bits_bound [of n] by (simp only: length_be_min_le)
  then have "put_words (big_Bits n) ?l (replicate ?l 0) = be_bytes ?l n"
    by (simp add: put_words_eq Bits_bytes take_le_bytes be_bytes_def)
  also have "\<dots> = be_min n" by (rule be_min_be_bytes [symmetric])
  finally have "put_words (big_Bits n) ?l (replicate ?l 0) = be_min n" .
  then show ?thesis using False ne assms
    by (simp add: writeBigInt_def byte_length Let_def encodeStringHeader_eq rlp_str_def)
qed

section \<open>Deferred list headers\<close>

text \<open>The output of a part of the buffer: string data from position \<open>p\<close> on, with the headers merged in.\<close>

fun rend :: "nat \<Rightarrow> listhead list \<Rightarrow> bytes \<Rightarrow> bytes" where
  "rend p [] s = s"
| "rend p (h # hs) s =
     take (lh_offset h - p) s @ listhead_encode h @ rend (lh_offset h) hs (drop (lh_offset h - p) s)"

fun within :: "nat \<Rightarrow> nat \<Rightarrow> listhead list \<Rightarrow> bool" where
  "within p e [] \<longleftrightarrow> p \<le> e"
| "within p e (h # hs) \<longleftrightarrow> p \<le> lh_offset h \<and> within (lh_offset h) e hs"

lemma within_le: "within p e hs \<Longrightarrow> p \<le> e"
  by (induction hs arbitrary: p) (simp, fastforce)

lemma within_append: "within p m hs \<Longrightarrow> within m e hs' \<Longrightarrow> within p e (hs @ hs')"
proof (induction hs arbitrary: p)
  case Nil
  then show ?case by (cases hs') auto
qed simp

lemma rend_skip: "within (p + length s1) e hs \<Longrightarrow> rend p hs (s1 @ s2) = s1 @ rend (p + length s1) hs s2"
proof (cases hs)
  case (Cons h hs')
  moreover assume "within (p + length s1) e hs"
  ultimately have "length s1 \<le> lh_offset h - p" by auto
  then show ?thesis using Cons by simp
qed simp

lemma rend_append:
  "within p (p + length s1) hs1 \<Longrightarrow> within (p + length s1) e hs2 \<Longrightarrow>
   rend p (hs1 @ hs2) (s1 @ s2) = rend p hs1 s1 @ rend (p + length s1) hs2 s2"
proof (induction hs1 arbitrary: p s1)
  case Nil
  then show ?case using rend_skip by simp
next
  case (Cons h hs1)
  let ?k = "lh_offset h - p"
  have k: "p \<le> lh_offset h" "lh_offset h \<le> p + length s1"
    using Cons.prems(1) within_le [of "lh_offset h"] by auto
  then have e: "lh_offset h + length (drop ?k s1) = p + length s1" by simp
  have "rend (lh_offset h) (hs1 @ hs2) (drop ?k s1 @ s2) =
      rend (lh_offset h) hs1 (drop ?k s1) @ rend (p + length s1) hs2 s2"
    using Cons.IH [of "lh_offset h" "drop ?k s1"] Cons.prems unfolding e by simp
  then show ?case using k by simp
qed

definition wrote :: "encBuffer \<Rightarrow> encBuffer \<Rightarrow> bytes \<Rightarrow> bool" where
  "wrote buf buf' out \<longleftrightarrow>
     (\<exists>s hs. eb_str buf' = eb_str buf @ s \<and> eb_lheads buf' = eb_lheads buf @ hs \<and>
        within (length (eb_str buf)) (length (eb_str buf')) hs \<and> rend (length (eb_str buf)) hs s = out \<and>
        eb_lhsize buf' + length s = eb_lhsize buf + length out)"

lemma wrote_refl: "wrote buf buf []"
  unfolding wrote_def by (rule exI [of _ "[]"], rule exI [of _ "[]"]) simp

lemma wrote_append_str: "wrote buf (append_str b buf) b"
  unfolding wrote_def append_str_def by (rule exI [of _ b], rule exI [of _ "[]"]) simp

lemma wrote_trans:
  assumes "wrote a b x" "wrote b c y"
  shows "wrote a c (x @ y)"
proof -
  obtain s1 hs1 where 1: "eb_str b = eb_str a @ s1" "eb_lheads b = eb_lheads a @ hs1"
    "within (length (eb_str a)) (length (eb_str b)) hs1" "rend (length (eb_str a)) hs1 s1 = x"
    "eb_lhsize b + length s1 = eb_lhsize a + length x"
    using assms(1) unfolding wrote_def by auto
  obtain s2 hs2 where 2: "eb_str c = eb_str b @ s2" "eb_lheads c = eb_lheads b @ hs2"
    "within (length (eb_str b)) (length (eb_str c)) hs2" "rend (length (eb_str b)) hs2 s2 = y"
    "eb_lhsize c + length s2 = eb_lhsize b + length y"
    using assms(2) unfolding wrote_def by auto
  have "rend (length (eb_str a)) (hs1 @ hs2) (s1 @ s2) = x @ y"
    using rend_append [of "length (eb_str a)" s1 hs1 "length (eb_str c)" hs2 s2] 1 2 by simp
  moreover have "within (length (eb_str a)) (length (eb_str c)) (hs1 @ hs2)"
    using 1(3) 2(3) by (rule within_append)
  ultimately show ?thesis
    unfolding wrote_def using 1 2 by (intro exI [of _ "s1 @ s2"] exI [of _ "hs1 @ hs2"]) simp
qed

lemma wrote_list:
  assumes l: "enc_list buf = (i, b1)" and w: "wrote b1 b2 c" and c: "length c < 2 ^ 64"
  shows "wrote buf (enc_listEnd i b2) (rlp_head 0xC0 0xF7 (length c) @ c)"
proof -
  let ?p = "length (eb_str buf)"
  let ?h = "\<lparr>lh_offset = ?p, lh_size = length c\<rparr>"
  let ?n = "eb_lhsize b2 + length (rlp_head 0xC0 0xF7 (length c))"
  have b1: "eb_str b1 = eb_str buf" "eb_lhsize b1 = eb_lhsize buf" "i = length (eb_lheads buf)"
    "eb_lheads b1 = eb_lheads buf @ [\<lparr>lh_offset = ?p, lh_size = eb_lhsize buf\<rparr>]"
    using l by (auto simp: enc_list_def)
  obtain s hs where 2: "eb_str b2 = eb_str buf @ s"
    "eb_lheads b2 = eb_lheads buf @ \<lparr>lh_offset = ?p, lh_size = eb_lhsize buf\<rparr> # hs"
    "within ?p (length (eb_str b2)) hs" "rend ?p hs s = c" "eb_lhsize b2 + length s = eb_lhsize buf + length c"
    using w unfolding wrote_def b1 by auto
  have u: "unat (of_nat (length c) :: u64) = length c" using c by (rule unat_of_nat_u64)
  have sz: "encBuffer_size b2 - ?p - eb_lhsize buf = length c"
    using 2 by (simp add: encBuffer_size_def)
  have ix: "eb_lheads b2 ! i = \<lparr>lh_offset = ?p, lh_size = eb_lhsize buf\<rparr>"
    "(eb_lheads b2)[i := ?h] = eb_lheads buf @ ?h # hs"
    using 2 b1 by simp_all
  have isz: "\<not> length c < 56 \<Longrightarrow> intsize (of_nat (length c)) = length (be_min (length c))"
    using u intsize_eq [of "of_nat (length c)"] by (metis unat_0 zero_less_numeral)
  have "enc_listEnd i b2 = b2\<lparr>eb_lheads := eb_lheads buf @ ?h # hs, eb_lhsize := ?n\<rparr>"
    unfolding enc_listEnd_def Let_def ix
    by (simp only: listhead.simps sz ix) (simp add: isz length_rlp_head ix(2))
  moreover have "listhead_encode ?h = rlp_head 0xC0 0xF7 (length c)"
    by (simp add: listhead_encode_def puthead_eq u)
  ultimately show ?thesis
    unfolding wrote_def using 2 by (intro exI [of _ s] exI [of _ "?h # hs"]) simp
qed

fun val_rlp :: "GoVal \<Rightarrow> rlp option"
and vals_rlp :: "GoVal list \<Rightarrow> rlp list option" where
  "val_rlp (GBigInt None) = Some (RString [])"
| "val_rlp (GBigInt (Some i)) = (if i < 0 then None else Some (RString (be_min (nat i))))"
| "val_rlp (GUint n) = Some (RString (be_min (unat n)))"
| "val_rlp (GBool b) = Some (RString (if b then [1] else []))"
| "val_rlp (GString s) = Some (RString s)"
| "val_rlp (GBytes b) = Some (RString b)"
| "val_rlp (GByteArray b) = Some (RString b)"
| "val_rlp (GSlice vs) = map_option RList (vals_rlp vs)"
| "val_rlp (GStruct vs) = map_option RList (vals_rlp vs)"
| "val_rlp (GPtr nk None) = Some (if nk = KString then RString [] else RList [])"
| "val_rlp (GPtr nk (Some v)) = val_rlp v"
| "val_rlp (GInterface None) = Some (RList [])"
| "val_rlp (GInterface (Some v)) = val_rlp v"
| "vals_rlp [] = Some []"
| "vals_rlp (v # vs) =
     (case val_rlp v of None \<Rightarrow> None | Some r \<Rightarrow> (case vals_rlp vs of None \<Rightarrow> None | Some rs \<Rightarrow> Some (r # rs)))"

lemma rlp_enc_empty_list: "rlp_enc (RList []) = [0xC0]"
  by (simp add: rlp_head_def)

lemma length_rlp_str: "length b \<le> length (rlp_str b)"
  by (simp add: rlp_str_def)

lemma write_val_wrote:
  "val_rlp v = Some r \<Longrightarrow> length (rlp_enc r) < 2 ^ 64 \<Longrightarrow> \<exists>w'. write_val v w = Inr w' \<and> wrote w w' (rlp_enc r)"
  "vals_rlp vs = Some rs \<Longrightarrow> length (concat (map rlp_enc rs)) < 2 ^ 64 \<Longrightarrow>
   \<exists>w'. write_vals vs w = Inr w' \<and> wrote w w' (concat (map rlp_enc rs))"
proof (induction v and vs arbitrary: r w and rs w rule: val_rlp_vals_rlp.induct)
  case (2 i)
  then show ?case using writeBigInt_eq [of "nat i" w] length_rlp_str [of "be_min (nat i)"]
    by (auto simp: writeBigIntPtr_def wrote_append_str split: if_splits)
next
  case (5 s)
  then show ?case using length_rlp_str [of s] by (auto simp: write_bytes_eq wrote_append_str)
next
  case (6 s)
  then show ?case using length_rlp_str [of s] by (auto simp: write_bytes_eq wrote_append_str)
next
  case (7 s)
  then show ?case using length_rlp_str [of s] by (auto simp: write_bytes_eq wrote_append_str)
next
  case (8 vs)
  then obtain rs where rs: "vals_rlp vs = Some rs" "r = RList rs" by auto
  show ?case
  proof (cases "vs = []")
    case True
    then show ?thesis using rs by (simp add: rlp_enc_empty_list wrote_append_str del: rlp_enc.simps)
  next
    case False
    obtain i w1 where l: "enc_list w = (i, w1)" by (cases "enc_list w")
    have c: "length (concat (map rlp_enc rs)) < 2 ^ 64" using "8.prems"(2) rs by (simp add: Let_def)
    then obtain w2 where "write_vals vs w1 = Inr w2" "wrote w1 w2 (concat (map rlp_enc rs))"
      using "8.IH" [OF rs(1)] by blast
    then show ?thesis using False wrote_list [OF l _ c] l rs by (simp add: Let_def)
  qed
next
  case (9 vs)
  then obtain rs where rs: "vals_rlp vs = Some rs" "r = RList rs" by auto
  obtain i w1 where l: "enc_list w = (i, w1)" by (cases "enc_list w")
  have c: "length (concat (map rlp_enc rs)) < 2 ^ 64" using "9.prems"(2) rs by (simp add: Let_def)
  then obtain w2 where "write_vals vs w1 = Inr w2" "wrote w1 w2 (concat (map rlp_enc rs))"
    using "9.IH" [OF rs(1)] by blast
  then show ?case using wrote_list [OF l _ c] l rs by (simp add: Let_def)
next
  case (15 v vs)
  then obtain x xs where x: "val_rlp v = Some x" "vals_rlp vs = Some xs" "rs = x # xs"
    by (auto split: option.splits)
  then obtain w1 where w1: "write_val v w = Inr w1" "wrote w w1 (rlp_enc x)"
    using "15.IH"(1) [OF x(1)] "15.prems"(2) by fastforce
  obtain w2 where "write_vals vs w1 = Inr w2" "wrote w1 w2 (concat (map rlp_enc xs))"
    using "15.IH"(2) [OF x(1,2), of w1] "15.prems"(2) x(3) by fastforce
  then show ?case using w1 wrote_trans x(3) by fastforce
qed (auto simp: writeBigIntPtr_def writeUint64_eq enc_writeBool_def rlp_str_byte wrote_append_str nilEncoding_def rlp_head_def
    wrote_refl)

lemma write_val_cases:
  "if val_rlp v = None then write_val v w = Inl ErrNegativeBigInt else (\<exists>w'. write_val v w = Inr w')"
  "if vals_rlp vs = None then write_vals vs w = Inl ErrNegativeBigInt else (\<exists>w'. write_vals vs w = Inr w')"
proof (induction v and vs arbitrary: w and w rule: val_rlp_vals_rlp.induct)
  case (8 vs)
  show ?case by (cases "enc_list w") (use "8.IH" [of "snd (enc_list w)"] in \<open>auto split: if_splits\<close>)
next
  case (9 vs)
  show ?case by (cases "enc_list w") (use "9.IH" [of "snd (enc_list w)"] in \<open>auto split: if_splits\<close>)
next
  case (15 v vs)
  show ?case
  proof (cases "val_rlp v")
    case None
    then show ?thesis using "15.IH"(1) [of w] by simp
  next
    case (Some r)
    then obtain w1 where "write_val v w = Inr w1" using "15.IH"(1) [of w] by auto
    then show ?thesis using "15.IH"(2) [OF Some, of w1] Some by (auto split: option.splits if_splits)
  qed
qed (simp_all add: writeBigIntPtr_def)

lemma copy_heads_rend:
  assumes "within strpos (length str) hs" "strpos \<le> length str"
    "pos + length (rend strpos hs (drop strpos str)) = length dst"
  shows "copy_heads hs str strpos pos dst = Some (take pos dst @ rend strpos hs (drop strpos str))"
  using assms
proof (induction hs arbitrary: strpos pos dst)
  case Nil
  then show ?case by (simp add: copy_at_def Let_def)
next
  case (Cons h hs)
  let ?o = "lh_offset h"
  let ?e = "listhead_encode h"
  have o: "strpos \<le> ?o" "?o \<le> length str" using Cons.prems(1) within_le by auto
  let ?piece = "take (?o - strpos) (drop strpos str)"
  let ?dst = "take pos dst @ ?piece @ ?e @ drop (pos + (?o - strpos) + length ?e) dst"
  have r: "drop (?o - strpos) (drop strpos str) = drop ?o str" using o by simp
  have len: "pos + (?o - strpos) + length ?e + length (rend ?o hs (drop ?o str)) = length dst"
    using Cons.prems(3) o by (simp add: r)
  have 1: "go_slice strpos ?o str = Some ?piece" using o by (simp add: go_slice_def)
  have 2: "copy_at pos ?piece dst = Some (take pos dst @ ?piece @ drop (pos + (?o - strpos)) dst, ?o - strpos)"
    using len o by (simp add: copy_at_def Let_def)
  have 3: "put_at (pos + (?o - strpos)) ?e (take pos dst @ ?piece @ drop (pos + (?o - strpos)) dst) = Some ?dst"
    using len o by (simp add: put_at_def add.commute add.left_commute)
  have "copy_heads (h # hs) str strpos pos dst = copy_heads hs str ?o (pos + (?o - strpos) + length ?e) ?dst"
    using o by (simp only: copy_heads.simps 1 2 3 option.case prod.case) simp
  also have "\<dots> = Some (take (pos + (?o - strpos) + length ?e) ?dst @ rend ?o hs (drop ?o str))"
    using Cons.prems(1) o len by (intro Cons.IH) simp_all
  also have "take (pos + (?o - strpos) + length ?e) ?dst = take pos dst @ ?piece @ ?e"
    using len o by simp
  finally show ?case using r by simp
qed

lemma write_heads_rend:
  assumes "within strpos (length str) hs" "strpos \<le> length str"
  shows "write_heads hs str strpos out = Some (out @ rend strpos hs (drop strpos str))"
  using assms
proof (induction hs arbitrary: strpos out)
  case (Cons h hs)
  let ?o = "lh_offset h"
  have o: "strpos \<le> ?o" "?o \<le> length str" "within ?o (length str) hs" using Cons.prems(1) within_le by auto
  show ?case
  proof (cases "strpos < ?o")
    case True
    then show ?thesis using o Cons.IH [of ?o] by (simp add: go_slice_def)
  next
    case False
    then have "?o = strpos" using o by simp
    then show ?thesis using o Cons.IH [of strpos] by simp
  qed
qed simp

lemma reset_wrote:
  assumes "wrote encBuffer_reset buf out"
  shows "makeBytes buf = Some out" "writeTo buf = Some out" "encBuffer_size buf = length out"
proof -
  have r: "within 0 (length (eb_str buf)) (eb_lheads buf)" "rend 0 (eb_lheads buf) (eb_str buf) = out"
    "eb_lhsize buf + length (eb_str buf) = length out"
    using assms by (auto simp: wrote_def encBuffer_reset_def)
  show sz: "encBuffer_size buf = length out" using r(3) by (simp add: encBuffer_size_def)
  show "makeBytes buf = Some out"
    unfolding makeBytes_def copyTo_def sz using r copy_heads_rend [of 0 "eb_str buf" "eb_lheads buf" 0] by simp
  show "writeTo buf = Some out"
    unfolding writeTo_def using r write_heads_rend [of 0 "eb_str buf" "eb_lheads buf"] by simp
qed

lemma EncodeToBytes_eq:
  assumes "\<And>r. val_rlp v = Some r \<Longrightarrow> length (rlp_enc r) < 2 ^ 64"
  shows "EncodeToBytes v = Some (case val_rlp v of None \<Rightarrow> Inl ErrNegativeBigInt | Some r \<Rightarrow> Inr (rlp_enc r))"
    "rlp_Encode v = EncodeToBytes v"
proof -
  have "EncodeToBytes v = Some (case val_rlp v of None \<Rightarrow> Inl ErrNegativeBigInt | Some r \<Rightarrow> Inr (rlp_enc r)) \<and>
      rlp_Encode v = EncodeToBytes v"
  proof (cases "val_rlp v")
    case None
    then show ?thesis using write_val_cases(1) [of v encBuffer_reset] by (simp add: EncodeToBytes_def rlp_Encode_def)
  next
    case (Some r)
    then obtain w where "write_val v encBuffer_reset = Inr w" "wrote encBuffer_reset w (rlp_enc r)"
      using write_val_wrote(1) assms by blast
    then show ?thesis using Some by (simp add: EncodeToBytes_def rlp_Encode_def reset_wrote)
  qed
  then show "EncodeToBytes v = Some (case val_rlp v of None \<Rightarrow> Inl ErrNegativeBigInt | Some r \<Rightarrow> Inr (rlp_enc r))"
    "rlp_Encode v = EncodeToBytes v" by simp_all
qed

end
