(* ===== verification/Rlp_Stream.thy ===== *)
theory Rlp_Stream
  imports Rlp_Encode
begin

text \<open>
  The reading operations of the RLP stream: on a slice, each succeeds exactly when the bytes and the
  innermost list have room, and every scalar decoder reads one RLP string.
\<close>

section \<open>Reading from the stream\<close>

text \<open>
  A stream on a byte slice counts what is left in it when it is limited. The position of a stream is its
  state without the fields that are written before they are read.
\<close>

definition core :: "RStream \<Rightarrow> bool" where
  "core s \<longleftrightarrow> length (st_r s) < 2 ^ 64 \<and> (st_limited s \<longrightarrow> st_remaining s = of_nat (length (st_r s)))"

definition live :: "RStream \<Rightarrow> bool" where
  "live s \<longleftrightarrow> core s \<and> st_kind s = None"

fun sub_top :: "nat \<Rightarrow> u64 list \<Rightarrow> u64 list" where
  "sub_top n [] = []"
| "sub_top n (l # ls) = (l - of_nat n) # ls"

definition adv :: "nat \<Rightarrow> RStream \<Rightarrow> RStream" where
  "adv n s = s\<lparr>st_r := drop n (st_r s), st_stack := sub_top n (st_stack s), st_kind := None,
     st_remaining := (if st_limited s then st_remaining s - of_nat n else st_remaining s)\<rparr>"

definition room :: "nat \<Rightarrow> RStream \<Rightarrow> bool" where
  "room n s \<longleftrightarrow> (case st_stack s of [] \<Rightarrow> True | l # _ \<Rightarrow> n \<le> unat l)"

definition pos :: "RStream \<Rightarrow> bytes \<times> u64 list \<times> bool \<times> u64 \<times> RlpKind option" where
  "pos s = (st_r s, st_stack s, st_limited s, if st_limited s then st_remaining s else 0, st_kind s)"

lemma sub_top_add: "sub_top m (sub_top n ls) = sub_top (n + m) ls"
  by (cases ls) simp_all

lemma sub_top_0 [simp]: "sub_top 0 ls = ls"
  by (cases ls) simp_all

lemma sub_top_Nil_iff [simp]: "sub_top n ls = [] \<longleftrightarrow> ls = []"
  by (cases ls) simp_all

lemma adv_adv: "adv m (adv n s) = adv (n + m) s"
  by (simp add: adv_def sub_top_add add.commute)

lemma adv_fields [simp]:
  "st_r (adv n s) = drop n (st_r s)" "st_stack (adv n s) = sub_top n (st_stack s)" "st_kind (adv n s) = None"
  "st_limited (adv n s) = st_limited s" "st_byteval (adv n s) = st_byteval s"
  "st_size (adv n s) = st_size s" "st_kinderr (adv n s) = st_kinderr s"
  by (simp_all add: adv_def)

lemma of_nat_diff_u64: "n \<le> m \<Longrightarrow> (of_nat m - of_nat n :: u64) = of_nat (m - n)"
  by simp

lemma core_adv: "core s \<Longrightarrow> n \<le> length (st_r s) \<Longrightarrow> core (adv n s)"
  by (auto simp: core_def adv_def)

lemma live_adv: "core s \<Longrightarrow> n \<le> length (st_r s) \<Longrightarrow> live (adv n s)"
  by (simp add: live_def core_adv)

lemma live_pos: "pos s = pos s' \<Longrightarrow> live s = live s'"
  by (auto simp: pos_def live_def core_def split: if_splits)

lemma room_pos: "pos s = pos s' \<Longrightarrow> room n s = room n s'"
  by (auto simp: pos_def room_def)

lemma pos_fields:
  "pos s = pos s' \<Longrightarrow> st_r s = st_r s' \<and> st_stack s = st_stack s' \<and> st_kind s = st_kind s' \<and> st_limited s = st_limited s'"
  by (simp add: pos_def)

lemma pos_adv: "pos (rearm s) = pos (rearm s') \<Longrightarrow> pos (adv n s) = pos (adv n s')"
  by (auto simp: pos_def adv_def rearm_def split: if_splits)

lemma pos_rearm_adv [simp]: "pos (rearm (adv n s)) = pos (adv n s)"
  by (simp add: pos_def rearm_def)

lemma room_add: "room (n + m) s \<Longrightarrow> room n s \<and> (st_stack s \<noteq> [] \<longrightarrow> room m (adv n s))"
  by (cases "st_stack s") (auto simp: room_def unat_sub_if_size word_size unat_of_nat word_le_nat_alt)

lemma willRead_Inr:
  assumes "core s" "n < 2 ^ 64"
  shows "willRead (of_nat n) s = (Inr u, s1) \<longleftrightarrow>
     room n s \<and> (st_limited s \<longrightarrow> n \<le> length (st_r s)) \<and> s1 = (adv n s)\<lparr>st_r := st_r s\<rparr>"
proof -
  have n: "unat (of_nat n :: u64) = n" using assms(2) by (rule unat_of_nat_u64)
  have r: "unat (of_nat (length (st_r s)) :: u64) = length (st_r s)"
    using assms(1) by (intro unat_of_nat_u64) (simp add: core_def)
  have le: "of_nat n > l \<longleftrightarrow> \<not> n \<le> unat l" for l :: u64 by (simp add: word_less_nat_alt n not_le)
  have lim: "st_limited s \<Longrightarrow> unat (st_remaining s) = length (st_r s)"
    using assms(1) r by (simp add: core_def)
  show ?thesis
    by (cases "st_stack s"; cases "st_limited s")
       (auto simp: willRead_def room_def adv_def Let_def le lim)
qed

lemma readFull_Inr:
  assumes "core s" "n < 2 ^ 64"
  shows "readFull n s = (Inr b, s') \<longleftrightarrow> room n s \<and> n \<le> length (st_r s) \<and> b = take n (st_r s) \<and> s' = adv n s"
proof (cases "willRead (of_nat n) s")
  case (Pair res s1)
  show ?thesis
  proof (cases res)
    case (Inl e)
    then have "\<not> (room n s \<and> (st_limited s \<longrightarrow> n \<le> length (st_r s)))"
      using willRead_Inr [OF assms, of "()"] Pair by auto
    then show ?thesis using Pair Inl by (auto simp: readFull_def)
  next
    case (Inr u)
    then have "room n s" "s1 = (adv n s)\<lparr>st_r := st_r s\<rparr>" using willRead_Inr [OF assms] Pair by auto
    then show ?thesis using Pair Inr by (auto simp: readFull_def adv_def)
  qed
qed

lemma not_EOL:
  "willRead n s \<noteq> (Inl EOL, s')" "readByte s \<noteq> (Inl EOL, s')" "readFull k s \<noteq> (Inl EOL, s')" "readUint k s \<noteq> (Inl EOL, s')"
proof -
  show 1: "willRead n s \<noteq> (Inl EOL, s')" for n s s'
    by (auto simp: willRead_def Let_def split: list.splits if_splits)
  show 2: "readByte s \<noteq> (Inl EOL, s')" for s s'
    using 1 by (auto simp: readByte_def split: prod.splits sum.splits list.splits)
  show 3: "readFull k s \<noteq> (Inl EOL, s')" for k s s'
    using 1 by (auto simp: readFull_def split: prod.splits sum.splits if_splits)
  show "readUint k s \<noteq> (Inl EOL, s')"
    using 2 3 by (auto simp: readUint_def split: prod.splits sum.splits if_splits)
qed

lemma readFull_cases:
  assumes "core s" "n < 2 ^ 64"
  obtains (ok) "room n s" "n \<le> length (st_r s)" "readFull n s = (Inr (take n (st_r s)), adv n s)"
  | (err) e s1 where "\<not> (room n s \<and> n \<le> length (st_r s))" "readFull n s = (Inl e, s1)" "e \<noteq> EOL"
proof (cases "readFull n s")
  case (Pair res s1)
  show ?thesis
  proof (cases res)
    case (Inl e)
    then show ?thesis using Pair err [of e s1] readFull_Inr [OF assms, of "take n (st_r s)" "adv n s"] not_EOL(3) by auto
  next
    case (Inr b)
    then show ?thesis using Pair ok readFull_Inr [OF assms] by simp
  qed
qed

lemma readByte_readFull: "readByte s = (case readFull 1 s of (Inl e, s1) \<Rightarrow> (Inl e, s1) | (Inr b, s1) \<Rightarrow> (Inr (hd b), s1))"
  by (auto simp: readByte_def readFull_def split: prod.splits sum.splits list.splits)

lemma readByte_cases:
  assumes "core s"
  obtains (ok) b r where "room 1 s" "st_r s = b # r" "readByte s = (Inr b, adv 1 s)"
  | (err) e s1 where "\<not> (room 1 s \<and> st_r s \<noteq> [])" "readByte s = (Inl e, s1)" "e \<noteq> EOL"
proof -
  have "1 < (2 :: nat) ^ 64" by simp
  from assms this show ?thesis
  proof (cases rule: readFull_cases)
    case ok
    then obtain b r where "st_r s = b # r" by (cases "st_r s") auto
    then show ?thesis using ok that(1) [of b r] by (simp add: readByte_readFull)
  next
    case (err e s1)
    then show ?thesis using that(2) [of e s1] by (cases "st_r s") (auto simp: readByte_readFull)
  qed
qed

lemma readUint_cases:
  assumes "core s" "0 < k" "k \<le> 8"
  obtains (ok) "room k s" "k \<le> length (st_r s)" "2 \<le> k \<longrightarrow> hd (st_r s) \<noteq> 0"
      "readUint k s = (Inr (of_nat (be_val (take k (st_r s)))), adv k s)"
  | (err) e s1 where "\<not> (room k s \<and> k \<le> length (st_r s) \<and> (2 \<le> k \<longrightarrow> hd (st_r s) \<noteq> 0))" "readUint k s = (Inl e, s1)" "e \<noteq> EOL"
proof (cases "k = 1")
  case True
  from assms(1) show ?thesis
  proof (cases rule: readByte_cases)
    case (ok b r)
    then show ?thesis using that(1) True by (simp add: readUint_def be_val_def)
  next
    case (err e s1)
    then show ?thesis using that(2) [of e s1] True by (cases "st_r s") (auto simp: readUint_def)
  qed
next
  case False
  have "k < 2 ^ 64" using assms(3) by simp
  with assms(1) show ?thesis
  proof (cases rule: readFull_cases)
    case ok
    have "hd (take k (st_r s)) = hd (st_r s)" using assms(2) by (simp add: hd_take)
    then show ?thesis
      using ok that False assms(2) by (cases "hd (st_r s) = 0") (simp_all add: readUint_def)
  next
    case (err e s1)
    then show ?thesis using that(2) [of e s1] False assms(2) by (auto simp: readUint_def)
  qed
qed

section \<open>Headers\<close>

definition khead :: "RlpKind \<Rightarrow> nat \<Rightarrow> bytes" where
  "khead k n = (if k = KList then rlp_head 0xC0 0xF7 n else rlp_head 0x80 0xB7 n)"

definition head_ok :: "RlpKind \<Rightarrow> u64 \<Rightarrow> bytes \<Rightarrow> byte \<Rightarrow> bool" where
  "head_ok k sz h bv \<longleftrightarrow> (if k = KByte then sz = 0 \<and> h = [bv] \<and> bv < 0x80 else h = khead k (unat sz))"

lemma unat_ucast_byte: "unat (ucast (b :: byte) :: u64) = unat b"
  using unat_byte_less [of b] by (simp add: unsigned_ucast_eq take_bit_eq_mod)

lemma small_head: "unat (b - tag) < 56 \<Longrightarrow> rlp_head tag large (unat (ucast (b - tag :: byte) :: u64)) = [b]"
  by (simp only: unat_ucast_byte rlp_head_def if_True) simp

lemma large_head:
  assumes "length bs = unat (b - large)" "bs \<noteq> []" "hd bs \<noteq> 0" "56 \<le> be_val bs"
  shows "rlp_head small large (be_val bs) = b # bs"
proof -
  have m: "be_min (be_val bs) = bs" using assms by (intro be_min_be_val) simp
  have "large + of_nat (length bs) = b" unfolding assms(1) by simp
  then show ?thesis using assms(4) by (simp add: rlp_head_def m)
qed

lemma length_khead: "0 < length (khead k n)"
  by (simp add: khead_def rlp_head_def)

lemma be_val_take: "k \<le> 8 \<Longrightarrow> unat (of_nat (be_val (take k bs)) :: u64) = be_val (take k bs)"
proof (rule unat_of_nat_u64)
  assume k: "k \<le> 8"
  have "be_val (take k bs) < 256 ^ length (take k bs)" by (rule be_val_less)
  also have "\<dots> \<le> 256 ^ 8" using k by (intro power_increasing) simp_all
  finally show "be_val (take k bs) < 2 ^ 64" by simp
qed

lemma readKind_size_sound:
  assumes "core s" "0 < n" "n \<le> 8" "readKind_size k n s = ((k', sz, None), s1)" "n = unat (b - large)"
  shows "k' = k \<and> n \<le> length (st_r s) \<and> s1 = adv n s \<and> rlp_head small large (unat sz) = b # take n (st_r s)"
  using assms(1-3)
proof (cases rule: readUint_cases)
  case ok
  then have k: "k' = k" "s1 = adv n s" and sz: "sz = of_nat (be_val (take n (st_r s)))" "\<not> sz < 56"
    using assms(4) by (simp_all add: readKind_size_def split: if_splits)
  have u: "unat sz = be_val (take n (st_r s))" using assms(3) by (simp only: sz be_val_take)
  then have g: "56 \<le> be_val (take n (st_r s))" using sz(2) by (simp add: word_less_nat_alt)
  have ne: "take n (st_r s) \<noteq> []" using ok(2) assms(2) by auto
  have "hd (take n (st_r s)) \<noteq> 0"
  proof (cases "n = 1")
    case True
    then obtain x where x: "take n (st_r s) = [x]" using ok(2) by (cases "st_r s") auto
    then show ?thesis using g by (auto simp: be_val_def)
  next
    case False
    then show ?thesis using ok(3) assms(2) by (simp add: hd_take)
  qed
  then have "rlp_head small large (be_val (take n (st_r s))) = b # take n (st_r s)"
    using ne g ok(2) assms(5) by (intro large_head) simp_all
  then show ?thesis using k u ok(2) by simp
next
  case (err e s2)
  then show ?thesis using assms(4) by (simp add: readKind_size_def)
qed

lemma readKind_size_complete:
  assumes "core s" "56 \<le> n" "n < 2 ^ 64" "st_r s = be_min n @ rest" "room (length (be_min n)) s"
  shows "readKind_size k (length (be_min n)) s = ((k, of_nat n, None), adv (length (be_min n)) s)"
proof -
  have l: "0 < length (be_min n)" "length (be_min n) \<le> 8"
    using assms(2,3) by (simp, simp add: length_be_min_le)
  have h: "hd (st_r s) \<noteq> 0" using assms(2,4) hd_be_min [of n] l(1) by (simp add: hd_append)
  have "\<not> (of_nat n :: u64) < 56" using assms(2,3) by (simp add: word_less_nat_alt unat_of_nat_u64)
  with assms(1) l show ?thesis
    by (cases rule: readUint_cases) (use assms h in \<open>auto simp: readKind_size_def\<close>)
qed

lemma byte_ranges:
  fixes b :: byte
  shows "\<not> b < 0x80 \<Longrightarrow> b < 0xB8 \<Longrightarrow> unat (b - 0x80) < 56"
    "\<not> b < 0xB8 \<Longrightarrow> b < 0xC0 \<Longrightarrow> 0 < unat (b - 0xB7) \<and> unat (b - 0xB7) \<le> 8"
    "\<not> b < 0xC0 \<Longrightarrow> b < 0xF8 \<Longrightarrow> unat (b - 0xC0) < 56"
    "\<not> b < 0xF8 \<Longrightarrow> 0 < unat (b - 0xF7) \<and> unat (b - 0xF7) \<le> 8"
  using unat_byte_less [of b] by (simp_all add: word_less_nat_alt unat_sub_if_size word_size)

lemma readKind_sound:
  assumes "live s" "stream_readKind s = ((k, sz, None), s1)"
  shows "\<exists>h rest. st_r s = h @ rest \<and> pos s1 = pos (adv (length h) s) \<and> head_ok k sz h (st_byteval s1)"
proof -
  have c: "core s" using assms(1) by (simp add: live_def)
  from this show ?thesis
  proof (cases rule: readByte_cases)
    case (err e s2)
    then show ?thesis using assms(2) by (simp add: stream_readKind_def)
  next
    case (ok b r)
    let ?s2 = "(adv 1 s)\<lparr>st_byteval := 0\<rparr>"
    have c2: "core ?s2" using core_adv [OF c, of 1] ok(2) by (simp add: core_def)
    have r2: "st_r ?s2 = r" using ok(2) by simp
    have sized: "\<exists>h rest. st_r s = h @ rest \<and> pos s1 = pos (adv (length h) s) \<and> h = rlp_head small large (unat sz) \<and> k = kk"
      if "readKind_size kk (unat (b - large)) ?s2 = ((k, sz, None), s1)" "0 < unat (b - large) \<and> unat (b - large) \<le> 8"
      for kk small large
    proof -
      let ?n = "unat (b - large)"
      have "k = kk \<and> ?n \<le> length r \<and> s1 = adv ?n ?s2 \<and> rlp_head small large (unat sz) = b # take ?n r"
        by (rule readKind_size_sound [OF c2 _ _ that(1) refl, unfolded r2]) (use that(2) in simp_all)
      moreover from this have "pos s1 = pos (adv (1 + ?n) s)" by (simp add: adv_def pos_def sub_top_add)
      ultimately show ?thesis using ok(2) by (intro exI [of _ "b # take ?n r"] exI [of _ "drop ?n r"]) simp
    qed
    have small: "\<exists>h rest. st_r s = h @ rest \<and> pos ?s2 = pos (adv (length h) s) \<and> h = rlp_head tag large (unat (ucast (b - tag) :: u64))"
      if "unat (b - tag) < 56" for tag large
      using small_head [OF that, of large] ok(2) by (intro exI [of _ "[b]"] exI [of _ r]) (simp add: pos_def adv_def)
    consider "b < 0x80" | "\<not> b < 0x80" "b < 0xB8" | "\<not> b < 0xB8" "b < 0xC0" | "\<not> b < 0xC0" "b < 0xF8" | "\<not> b < 0xF8"
      by blast
    then show ?thesis
    proof cases
      case 1
      then show ?thesis using assms(2) ok
        by (intro exI [of _ "[b]"] exI [of _ r]) (auto simp: stream_readKind_def Let_def head_ok_def pos_def adv_def)
    next
      case 2
      then show ?thesis using assms(2) ok small [OF byte_ranges(1) [OF 2], where large = "0xB7"]
        by (auto simp: stream_readKind_def Let_def head_ok_def khead_def)
    next
      case 3
      moreover from this have "\<not> b < 0x80" by (auto simp: word_less_nat_alt)
      ultimately show ?thesis using assms(2) ok sized [where kk = KString and large = "0xB7" and small = "0x80"] byte_ranges(2) [OF 3]
        by (auto simp: stream_readKind_def Let_def head_ok_def khead_def)
    next
      case 4
      moreover from this have "\<not> b < 0x80" "\<not> b < 0xB8" by (auto simp: word_less_nat_alt)
      ultimately show ?thesis using assms(2) ok small [OF byte_ranges(3) [OF 4], where large = "0xF7"]
        by (auto simp: stream_readKind_def Let_def head_ok_def khead_def)
    next
      case 5
      moreover from this have "\<not> b < 0x80" "\<not> b < 0xB8" "\<not> b < 0xC0" by (auto simp: word_less_nat_alt)
      ultimately show ?thesis using assms(2) ok sized [where kk = KList and large = "0xF7" and small = "0xC0"] byte_ranges(4) [OF 5]
        by (auto simp: stream_readKind_def Let_def head_ok_def khead_def)
    qed
  qed
qed

lemma head_byte:
  fixes tag :: byte
  shows "n < 56 \<Longrightarrow> unat ((0x80 :: byte) + of_nat n) = 0x80 + n" "n < 56 \<Longrightarrow> unat ((0xC0 :: byte) + of_nat n) = 0xC0 + n"
    "0 < n \<Longrightarrow> n \<le> 8 \<Longrightarrow> unat ((0xB7 :: byte) + of_nat n) = 0xB7 + n"
    "0 < n \<Longrightarrow> n \<le> 8 \<Longrightarrow> unat ((0xF7 :: byte) + of_nat n) = 0xF7 + n"
  by (simp_all add: unat_word_ariths unat_of_nat)

lemma readKind_complete:
  assumes "live s" "st_r s = h @ rest" "room (length h) s" "head_ok k sz h bv"
  shows "\<exists>s1. stream_readKind s = ((k, sz, None), s1)"
proof -
  have c: "core s" using assms(1) by (simp add: live_def)
  have ne: "0 < length h" using assms(4) length_khead by (auto simp: head_ok_def split: if_splits)
  then obtain b h' where h: "h = b # h'" by (cases h) auto
  have rb: "readByte s = (Inr b, adv 1 s)"
    using c
  proof (cases rule: readByte_cases)
    case ok
    then show ?thesis using assms(2) h by simp
  next
    case err
    then show ?thesis using assms(2,3) h by (auto simp: room_def split: list.splits)
  qed
  let ?s2 = "(adv 1 s)\<lparr>st_byteval := 0\<rparr>"
  have c2: "core ?s2" using core_adv [OF c, of 1] assms(2) h by (simp add: core_def)
  have r2: "st_r ?s2 = h' @ rest" using assms(2) h by simp
  have room2: "room (length h') ?s2"
    using room_add [of 1 "length h'" s] assms(3) h by (auto simp: room_def split: list.splits)
  have sz: "of_nat (unat sz) = sz" "unat sz < 2 ^ 64" using unsigned_less [of sz, where ?'a = nat] by simp_all
  have sized: "readKind_size kk (length (be_min (unat sz))) ?s2 = ((kk, sz, None), adv (length (be_min (unat sz))) ?s2)"
    if "56 \<le> unat sz" "h' = be_min (unat sz)" for kk
    using readKind_size_complete [OF c2 that(1) sz(2) _ room2 [unfolded that(2)], of rest kk] r2 that(2) by simp
  have l8: "length (be_min (unat sz)) \<le> 8" by (rule be_min_u64)
  have u: "ucast (of_nat n :: byte) = (of_nat n :: u64)" if "n < 56" for n
    by (rule unsigned_word_eqI [where ?'a = nat]) (use that in \<open>simp add: unsigned_ucast_eq unat_of_nat take_bit_eq_mod\<close>)
  show ?thesis
  proof (cases "k = KByte")
    case True
    then show ?thesis using assms(4) rb h by (auto simp: head_ok_def stream_readKind_def Let_def)
  next
    case False
    then have hd: "b # h' = khead k (unat sz)" using assms(4) h by (simp add: head_ok_def)
    show ?thesis
    proof (cases "unat sz < 56")
      case True
      then have b: "b = (if k = KList then 0xC0 else 0x80) + of_nat (unat sz)" "h' = []"
        using hd by (cases "k = KList"; simp add: khead_def rlp_head_def)+
      then show ?thesis using False head_byte(1,2) [OF True] rb u [OF True] sz(1) True
        by (cases k) (auto simp: stream_readKind_def Let_def word_less_nat_alt)
    next
      case sz56: False
      then have b: "b = (if k = KList then 0xF7 else 0xB7) + of_nat (length (be_min (unat sz)))" "h' = be_min (unat sz)"
        using hd by (cases "k = KList"; simp add: khead_def rlp_head_def)+
      have pos: "0 < length (be_min (unat sz))" using sz56 by simp
      have n: "unat (of_nat (length (be_min (unat sz))) :: byte) = length (be_min (unat sz))"
        using l8 by (simp add: unat_of_nat)
      show ?thesis using False head_byte(3,4) [OF pos l8] rb b sized [OF _ b(2)] sz56 n l8
        by (cases k) (auto simp: stream_readKind_def Let_def word_less_nat_alt)
    qed
  qed
qed

section \<open>The kind of the next value\<close>

lemma readKind_not_EOL: "stream_readKind s \<noteq> ((k, sz, Some EOL), s1)"
  using not_EOL(2,4) by (auto simp: stream_readKind_def readKind_size_def Let_def split: prod.splits sum.splits if_splits)

lemma Kind_EOL: "live s \<Longrightarrow> stream_Kind s = (Inl EOL, s') \<longleftrightarrow> listLimit s = Some 0 \<and> s' = s"
  using readKind_not_EOL [of s]
  by (auto simp: stream_Kind_def live_def Let_def split: prod.splits if_splits option.splits)

lemma Kind_again: "stream_Kind s = (Inr (k, sz), s1) \<Longrightarrow> stream_Kind s1 = (Inr (k, sz), s1)"
  by (auto simp: stream_Kind_def Let_def split: prod.splits if_splits option.splits)

lemma Kind_sound:
  assumes "live s" "stream_Kind s = (Inr (k, sz), s1)"
  shows "\<exists>h rest. st_r s = h @ rest \<and> pos (rearm s1) = pos (adv (length h) s) \<and> head_ok k sz h (st_byteval s1)"
proof -
  obtain k' sz' err s2 where r: "stream_readKind s = ((k', sz', err), s2)" by (metis prod.exhaust)
  then have *: "err = None" "k' = k" "sz' = sz" "s1 = s2\<lparr>st_kind := Some k, st_size := sz, st_kinderr := None\<rparr>"
    using assms by (auto simp: stream_Kind_def live_def Let_def split: if_splits option.splits)
  obtain h rest where h: "st_r s = h @ rest" "pos s2 = pos (adv (length h) s)" "head_ok k sz h (st_byteval s2)"
    using readKind_sound [OF assms(1)] r * by blast
  have "pos (rearm s1) = pos s2" using h(2) by (simp add: * pos_def rearm_def)
  then show ?thesis using h * by auto
qed

lemma Kind_complete:
  assumes "live s" "st_r s = h @ rest" "room (length h + unat sz) s" "head_ok k sz h bv" "unat sz \<le> length rest"
  shows "\<exists>s1. stream_Kind s = (Inr (k, sz), s1)"
proof -
  have rm: "room (length h) s" "room (unat sz) s" using assms(3) by (auto simp: room_def split: list.splits)
  obtain s1 where r: "stream_readKind s = ((k, sz, None), s1)"
    using readKind_complete [OF assms(1,2) rm(1) assms(4)] by blast
  obtain h' rest' where h': "st_r s = h' @ rest'" "pos s1 = pos (adv (length h') s)" "head_ok k sz h' (st_byteval s1)"
    using readKind_sound [OF assms(1) r] by blast
  have "length h' = length h" using assms(4) h'(3) by (auto simp: head_ok_def split: if_splits)
  then have st: "st_limited s1 = st_limited s" "st_limited s1 \<Longrightarrow> st_remaining s1 = of_nat (length rest)"
    using h'(2) assms(1,2) by (auto simp: pos_def live_def core_def adv_def split: if_splits)
  have "length rest < 2 ^ 64" using assms(1,2) by (simp add: live_def core_def)
  then have lim: "\<not> (st_limited s1 \<and> sz > st_remaining s1)"
    using st(2) assms(5) by (auto simp: word_less_nat_alt unat_of_nat_u64)
  have "0 < length h" using assms(4) length_khead by (auto simp: head_ok_def split: if_splits)
  then have "listLimit s \<noteq> Some 0" using rm(1) by (auto simp: listLimit_def room_def split: list.splits)
  moreover have "\<not> (case listLimit s of None \<Rightarrow> False | Some limit \<Rightarrow> limit < sz)"
    using rm(2) by (auto simp: listLimit_def room_def word_less_nat_alt split: list.splits)
  ultimately show ?thesis using r assms(1) lim by (auto simp: stream_Kind_def live_def Let_def)
qed

lemma core_rearm: "pos (rearm s1) = pos (adv n s) \<Longrightarrow> core s \<Longrightarrow> n \<le> length (st_r s) \<Longrightarrow> core s1"
  using live_adv [of s n] live_pos [of "rearm s1" "adv n s"] by (simp add: live_def core_def rearm_def)

lemma room_rearm: "pos (rearm s1) = pos (adv n s) \<Longrightarrow> room m s1 = room m (adv n s)"
  using room_pos [of "rearm s1"] by (simp add: room_def rearm_def)

section \<open>Strings\<close>

lemma u64_eq_1: "(sz :: u64) = 1 \<longleftrightarrow> unat sz = 1"
proof
  assume "unat sz = 1"
  then have "unat sz = unat (1 :: u64)" by simp
  then show "sz = 1" by (rule unsigned_word_eqI)
qed simp

lemma rlp_str_head: "\<not> (length b = 1 \<and> hd b < 0x80) \<Longrightarrow> rlp_str b = khead KString (length b) @ b"
  by (simp only: rlp_str_def khead_def) simp

lemma Bytes_sound:
  assumes "live s" "stream_Bytes s = (Inr b, s')"
  shows "\<exists>rest. st_r s = rlp_str b @ rest \<and> pos s' = pos (adv (length (rlp_str b)) s)"
proof -
  obtain k sz s1 where k: "stream_Kind s = (Inr (k, sz), s1)"
    using assms(2) by (auto simp: stream_Bytes_def split: prod.splits sum.splits)
  obtain h rest where h: "st_r s = h @ rest" "pos (rearm s1) = pos (adv (length h) s)" "head_ok k sz h (st_byteval s1)"
    using Kind_sound [OF assms(1) k] by blast
  have c: "core s" using assms(1) by (simp add: live_def)
  have r1: "st_r s1 = rest" using pos_fields [OF h(2)] h(1) by (simp add: rearm_def)
  have c1: "core s1" using core_rearm [OF h(2) c] h(1) by simp
  show ?thesis
  proof (cases k)
    case KByte
    then have "b = [st_byteval s1]" "s' = rearm s1" "h = [st_byteval s1]" "st_byteval s1 < 0x80"
      using assms(2) k h(3) by (simp_all add: stream_Bytes_def head_ok_def)
    then show ?thesis using h by (simp add: rlp_str_byte)
  next
    case KString
    have lt: "unat sz < 2 ^ 64" using unsigned_less [of sz, where ?'a = nat] by simp
    from c1 this show ?thesis
    proof (cases rule: readFull_cases)
      case ok
      then have b: "b = take (unat sz) rest" "s' = adv (unat sz) s1" "\<not> (sz = 1 \<and> hd b < 128)"
        using assms(2) k KString r1 by (auto simp: stream_Bytes_def hd_take split: if_splits)
      then have l: "length b = unat sz" using ok(2) r1 by simp
      then have "sz = 1 \<longleftrightarrow> length b = 1" by (simp add: u64_eq_1)
      then have e: "rlp_str b = h @ b" using b(3) h(3) KString l by (subst rlp_str_head) (auto simp: head_ok_def)
      have "pos s' = pos (adv (length (h @ b)) s)"
        using pos_adv [of s1 "adv (length h) s" "unat sz"] h(2) b(2) l by (simp add: adv_adv)
      moreover have "st_r s = (h @ b) @ drop (unat sz) rest" using h(1) b(1) by simp
      ultimately show ?thesis using e by auto
    next
      case err
      then show ?thesis using assms(2) k KString by (simp add: stream_Bytes_def)
    qed
  next
    case KList
    then show ?thesis using assms(2) k by (simp add: stream_Bytes_def)
  qed
qed

lemma Bytes_complete:
  assumes "live s" "st_r s = rlp_str b @ rest" "room (length (rlp_str b)) s"
  shows "\<exists>s'. stream_Bytes s = (Inr b, s')"
proof (cases "length b = 1 \<and> hd b < 0x80")
  case True
  then obtain x where x: "b = [x]" "x < 0x80" by (cases b) auto
  then have "st_r s = [x] @ rest" "room (length [x] + unat (0 :: u64)) s" "head_ok KByte 0 [x] x"
    using assms(2,3) by (simp_all add: rlp_str_byte head_ok_def)
  then obtain s1 where k: "stream_Kind s = (Inr (KByte, 0), s1)" using Kind_complete [OF assms(1), of "[x]" rest 0 KByte x] by auto
  then have "st_byteval s1 = x"
    using Kind_sound [OF assms(1) k] \<open>st_r s = [x] @ rest\<close> by (auto simp: head_ok_def)
  then show ?thesis using k x by (simp add: stream_Bytes_def)
next
  case False
  then have e: "rlp_str b = khead KString (length b) @ b" by (rule rlp_str_head)
  let ?h = "khead KString (length b)"
  have lb: "length b < 2 ^ 64" using assms(1,2) e by (simp add: live_def core_def)
  then have u: "unat (of_nat (length b) :: u64) = length b" by (rule unat_of_nat_u64)
  have r: "st_r s = ?h @ b @ rest" using assms(2) e by simp
  have hk: "head_ok KString (of_nat (length b)) ?h 0" by (simp add: head_ok_def u)
  obtain s1 where k: "stream_Kind s = (Inr (KString, of_nat (length b)), s1)"
    using Kind_complete [OF assms(1) r _ hk] assms(3) e u by auto
  obtain h rest' where h: "st_r s = h @ rest'" "pos (rearm s1) = pos (adv (length h) s)" "h = ?h"
    using Kind_sound [OF assms(1) k] u by (auto simp: head_ok_def)
  have c: "core s" using assms(1) by (simp add: live_def)
  have r1: "st_r s1 = b @ rest" using pos_fields [OF h(2)] r h(3) by (simp add: rearm_def)
  have c1: "core s1" using core_rearm [OF h(2) c] h(1) by simp
  have "room (length b) (adv (length h) s)"
    using room_add [of "length h" "length b" s] assms(3) e h(3) by (auto simp: room_def split: list.splits)
  then have rm: "room (length b) s1" using room_rearm [OF h(2)] by simp
  have nb: "\<not> (of_nat (length b) = (1 :: u64) \<and> hd b < 128)" using False by (simp add: u64_eq_1 u)
  from c1 lb show ?thesis
    by (cases rule: readFull_cases) (use k u r1 rm nb in \<open>auto simp: stream_Bytes_def\<close>)
qed

section \<open>Scalars are strings\<close>

lemma adv_0: "adv 0 s = rearm s"
  by (cases s) (simp add: adv_def rearm_def)

lemma readFull_0: "core s \<Longrightarrow> readFull 0 s = (Inr [], rearm s)"
  by (erule readFull_cases [of s 0]) (simp_all add: adv_0 room_def split: list.splits)

lemma Kind_core: "live s \<Longrightarrow> stream_Kind s = (Inr (k, sz), s1) \<Longrightarrow> core s1"
  using Kind_sound [of s k sz s1] core_rearm [of s1 _ s] by (fastforce simp: live_def)

lemma u64_lt: "unat (sz :: u64) < 2 ^ 64"
  using unsigned_less [of sz, where ?'a = nat] by simp

lemma be_val_ge: "2 \<le> length b \<Longrightarrow> hd b \<noteq> 0 \<Longrightarrow> 256 \<le> be_val b"
  using length_be_min_le [of "be_val b" 1] be_min_be_val [of b] by simp

lemma be_val_single: "be_val [x] = unat x"
  by (simp add: be_val_def)

lemma word_eq_1: "(w :: 'a :: len word) = 1 \<longleftrightarrow> unat w = 1"
proof
  assume "unat w = 1"
  then have "unat w = unat (1 :: 'a word)" by simp
  then show "w = 1" by (rule unsigned_word_eqI)
qed simp

lemma uint_Bytes:
  assumes "live s" "8 \<le> bits" "bits \<le> 64"
  shows "stream_uint bits s = (Inr v, s') \<longleftrightarrow>
     (\<exists>b. stream_Bytes s = (Inr b, s') \<and> length b \<le> bits div 8 \<and> (b = [] \<or> hd b \<noteq> 0) \<and> v = of_nat (be_val b))"
proof (cases "stream_Kind s")
  case (Pair res s1)
  have m: "unat (of_nat (bits div 8) :: u64) = bits div 8" using assms(3) by (intro unat_of_nat_u64) simp
  show ?thesis
  proof (cases res)
    case (Inl e)
    then show ?thesis using Pair by (simp add: stream_uint_def stream_Bytes_def)
  next
    case (Inr ksz)
    obtain k sz where ks: "ksz = (k, sz)" by force
    have K: "stream_Kind s = (Inr (k, sz), s1)" using Pair Inr ks by simp
    have c1: "core s1" using Kind_core [OF assms(1) K] .
    show ?thesis
    proof (cases k)
      case KByte
      have "1 \<le> bits div 8" using assms(2) by simp
      then show ?thesis using K KByte by (auto simp: stream_uint_def stream_Bytes_def be_val_single)
    next
      case KList
      then show ?thesis using K by (simp add: stream_uint_def stream_Bytes_def)
    next
      case KString
      consider "\<not> unat sz \<le> bits div 8" | "sz = 0" | "unat sz \<le> bits div 8" "0 < unat sz" by (auto simp: unat_gt_0)
      then show ?thesis
      proof cases
        case 1
        then have "of_nat (bits div 8) < sz" by (simp add: word_less_nat_alt m)
        moreover have "length b = unat sz" if "stream_Bytes s = (Inr b, s')" for b
          using c1 u64_lt [of sz] by (cases rule: readFull_cases) (use that K KString in \<open>auto simp: stream_Bytes_def split: if_splits\<close>)
        ultimately show ?thesis using 1 K KString by (auto simp: stream_uint_def)
      next
        case 2
        then show ?thesis using K KString readFull_0 [OF c1]
          by (auto simp: stream_uint_def stream_Bytes_def readUint_def rearm_def)
      next
        case 3
        have le: "\<not> of_nat (bits div 8) < sz" using 3(1) by (simp add: word_less_nat_alt m)
        have n8: "unat sz \<le> 8" using 3(1) assms(3) by simp
        have szp: "sz > 0" using 3(2) by (simp add: word_less_nat_alt)
        have hdt: "hd (take (unat sz) (st_r s1)) = hd (st_r s1)" using 3(2) by (simp add: hd_take)
        from c1 3(2) n8 show ?thesis
        proof (cases rule: readUint_cases)
          case ok
          have rf: "readFull (unat sz) s1 = (Inr (take (unat sz) (st_r s1)), adv (unat sz) s1)"
            using c1 u64_lt [of sz] by (cases rule: readFull_cases) (use ok in auto)
          let ?b = "take (unat sz) (st_r s1)"
          have lb: "length ?b = unat sz" using ok(2) by simp
          have v: "unat (of_nat (be_val ?b) :: u64) = be_val ?b" using n8 by (rule be_val_take)
          have canon: "(of_nat (be_val ?b) :: u64) < 128 \<longleftrightarrow> sz = 1 \<and> hd ?b < 128"
          proof (cases "unat sz = 1")
            case True
            then obtain x where "?b = [x]" using lb by (metis One_nat_def length_0_conv length_Suc_conv)
            then show ?thesis using True v by (simp add: be_val_single u64_eq_1 word_less_nat_alt)
          next
            case False
            then have "2 \<le> unat sz" using 3(2) by simp
            then have "256 \<le> be_val ?b" using ok(3) lb hdt by (intro be_val_ge) simp_all
            then show ?thesis using False v by (simp add: u64_eq_1 word_less_nat_alt)
          qed
          have nz: "\<not> (sz = 1 \<and> hd ?b < 128) \<Longrightarrow> hd ?b \<noteq> 0"
            using ok(3) hdt 3(2) by (cases "unat sz = 1") (auto simp: u64_eq_1)
          have "?b \<noteq> []" using lb 3(2) by (metis length_0_conv less_not_refl)
          then show ?thesis using K KString le ok(4) rf szp lb 3(1) canon nz
            by (auto simp: stream_uint_def stream_Bytes_def)
        next
          case (err e s2)
          have "\<nexists>b. stream_Bytes s = (Inr b, s') \<and> (b = [] \<or> hd b \<noteq> 0)"
            using c1 u64_lt [of sz]
          proof (cases rule: readFull_cases)
            case ok
            then have "hd (st_r s1) = 0" "2 \<le> unat sz" using err(1) by auto
            then show ?thesis using ok K KString hdt 3(2) by (auto simp: stream_Bytes_def split: if_splits)
          next
            case err
            then show ?thesis using K KString by (auto simp: stream_Bytes_def)
          qed
          then show ?thesis using K KString le err(2) by (auto simp: stream_uint_def)
        qed
      qed
    qed
  qed
qed

lemma Bool_Bytes:
  assumes "live s"
  shows "stream_Bool s = (Inr v, s') \<longleftrightarrow> (\<exists>b. stream_Bytes s = (Inr b, s') \<and> (b = [] \<and> \<not> v \<or> b = [1] \<and> v))"
proof -
  have u: "stream_uint 8 s = (Inr n, s') \<longleftrightarrow>
      (\<exists>b. stream_Bytes s = (Inr b, s') \<and> length b \<le> 1 \<and> (b = [] \<or> hd b \<noteq> 0) \<and> n = of_nat (be_val b))" for n
    using uint_Bytes [OF assms, of 8 n] by simp
  have *: "stream_Bool s = (Inr v, s') \<longleftrightarrow> stream_uint 8 s = (Inr (if v then 1 else 0), s')"
    by (cases v) (auto simp: stream_Bool_def split: prod.splits sum.splits if_splits)
  have b1: "length b \<le> 1 \<and> (b = [] \<or> hd b \<noteq> 0) \<and> (if v then 1 else 0 :: u64) = of_nat (be_val b) \<longleftrightarrow>
      (b = [] \<and> \<not> v \<or> b = [1] \<and> v)" for b
  proof (cases b)
    case (Cons x xs)
    have "unat (ucast x :: u64) = unat x" by (rule unat_ucast_byte)
    then have "(of_nat (unat x) :: u64) = 0 \<longleftrightarrow> x = 0" "(of_nat (unat x) :: u64) = 1 \<longleftrightarrow> x = 1"
      by (simp_all only: unat_eq_0_iff [symmetric] word_eq_1 of_nat_unat)
    then show ?thesis using Cons by (cases xs) (auto simp: be_val_single)
  qed simp
  show ?thesis unfolding * u by (simp only: b1)
qed

lemma BigInt_Bytes:
  assumes "live s"
  shows "stream_decodeBigInt s = (Inr n, s') \<longleftrightarrow>
     (\<exists>b. stream_Bytes s = (Inr b, s') \<and> (b = [] \<or> hd b \<noteq> 0) \<and> n = be_val b)"
proof (cases "stream_Kind s")
  case (Pair res s1)
  show ?thesis
  proof (cases res)
    case (Inl e)
    then show ?thesis using Pair by (simp add: stream_decodeBigInt_def stream_Bytes_def)
  next
    case (Inr ksz)
    obtain k sz where ks: "ksz = (k, sz)" by force
    have K: "stream_Kind s = (Inr (k, sz), s1)" using Pair Inr ks by simp
    have c1: "core s1" using Kind_core [OF assms(1) K] .
    show ?thesis
    proof (cases k)
      case KString
      show ?thesis
      proof (cases "sz = 0")
        case True
        then show ?thesis using K KString readFull_0 [OF c1] by (auto simp: stream_decodeBigInt_def stream_Bytes_def Let_def)
      next
        case False
        then have p: "0 < unat sz" by (simp add: unat_gt_0)
        from c1 u64_lt [of sz] show ?thesis
          by (cases rule: readFull_cases) (use K KString False p in \<open>auto simp: stream_decodeBigInt_def stream_Bytes_def Let_def\<close>)
      qed
    qed (use K in \<open>auto simp: stream_decodeBigInt_def stream_Bytes_def Let_def be_val_single\<close>)
  qed
qed

lemma ByteArray_Bytes:
  assumes "live s" "n < 2 ^ 64"
  shows "decodeByteArray n s = (Inr v, s') \<longleftrightarrow> (\<exists>b. stream_Bytes s = (Inr b, s') \<and> length b = n \<and> v = GByteArray b)"
proof (cases "stream_Kind s")
  case (Pair res s1)
  have u: "unat (of_nat n :: u64) = n" using assms(2) by (rule unat_of_nat_u64)
  show ?thesis
  proof (cases res)
    case (Inl e)
    then show ?thesis using Pair by (simp add: decodeByteArray_def stream_Bytes_def)
  next
    case (Inr ksz)
    obtain k sz where ks: "ksz = (k, sz)" by force
    have K: "stream_Kind s = (Inr (k, sz), s1)" using Pair Inr ks by simp
    have c1: "core s1" using Kind_core [OF assms(1) K] .
    show ?thesis
    proof (cases k)
      case KString
      have lt: "of_nat n < sz \<longleftrightarrow> n < unat sz" "of_nat n > sz \<longleftrightarrow> n > unat sz" by (simp_all add: word_less_nat_alt u)
      from c1 u64_lt [of sz] show ?thesis
        by (cases rule: readFull_cases) (use K KString in \<open>auto simp: decodeByteArray_def stream_Bytes_def lt\<close>)
    qed (use K in \<open>auto simp: decodeByteArray_def stream_Bytes_def\<close>)
  qed
qed

section \<open>Converting trees to typed values\<close>

text \<open>What a decoder of type \<open>t\<close> makes of an RLP tree.\<close>

fun conv :: "GoType \<Rightarrow> rlp \<Rightarrow> GoVal option"
and conv_elems :: "GoType \<Rightarrow> rlp list \<Rightarrow> GoVal list option"
and conv_fields :: "GoType list \<Rightarrow> rlp list \<Rightarrow> GoVal list option" where
  "conv TBigInt (RString b) = (if b = [] \<or> hd b \<noteq> 0 then Some (GBigInt (Some (int (be_val b)))) else None)"
| "conv (TUint bits) (RString b) =
     (if length b \<le> bits div 8 \<and> (b = [] \<or> hd b \<noteq> 0) then Some (GUint (of_nat (be_val b))) else None)"
| "conv TBool (RString b) = (if b = [] then Some (GBool False) else if b = [1] then Some (GBool True) else None)"
| "conv TString (RString b) = Some (GString b)"
| "conv TBytes (RString b) = Some (GBytes b)"
| "conv (TByteArray n) (RString b) = (if length b = n then Some (GByteArray b) else None)"
| "conv (TSlice t) (RList xs) = map_option GSlice (conv_elems t xs)"
| "conv (TStruct ts) (RList xs) = map_option GStruct (conv_fields ts xs)"
| "conv (TPtr nk t) x = map_option (\<lambda>v. GPtr nk (Some v)) (conv t x)"
| "conv (TNilPtr nk t) x =
     (if x = RString [] then if nk = KString then Some (GPtr nk None) else None
      else if x = RList [] then if nk = KList then Some (GPtr nk None) else None
      else map_option (\<lambda>v. GPtr nk (Some v)) (conv t x))"
| "conv TInterface (RString b) = Some (GInterface (Some (GBytes b)))"
| "conv TInterface (RList xs) = map_option (\<lambda>vs. GInterface (Some (GSlice vs))) (conv_elems TInterface xs)"
| "conv _ _ = None"
| "conv_elems t [] = Some []"
| "conv_elems t (x # xs) =
     (case conv t x of None \<Rightarrow> None | Some v \<Rightarrow> (case conv_elems t xs of None \<Rightarrow> None | Some vs \<Rightarrow> Some (v # vs)))"
| "conv_fields [] [] = Some []"
| "conv_fields (t # ts) (x # xs) =
     (case conv t x of None \<Rightarrow> None | Some v \<Rightarrow> (case conv_fields ts xs of None \<Rightarrow> None | Some vs \<Rightarrow> Some (v # vs)))"
| "conv_fields _ _ = None"

section \<open>Decoders start with the kind\<close>

fun ty_ok :: "GoType \<Rightarrow> bool" where
  "ty_ok (TUint bits) \<longleftrightarrow> 8 \<le> bits \<and> bits \<le> 64"
| "ty_ok (TByteArray n) \<longleftrightarrow> n < 2 ^ 64"
| "ty_ok (TSlice t) \<longleftrightarrow> ty_ok t"
| "ty_ok (TStruct ts) \<longleftrightarrow> (\<forall>t \<in> set ts. ty_ok t)"
| "ty_ok (TPtr nk t) \<longleftrightarrow> ty_ok t"
| "ty_ok (TNilPtr nk t) \<longleftrightarrow> ty_ok t"
| "ty_ok _ \<longleftrightarrow> True"

fun scalar :: "GoType \<Rightarrow> bool" where
  "scalar TBigInt \<longleftrightarrow> True"
| "scalar (TUint bits) \<longleftrightarrow> True"
| "scalar TBool \<longleftrightarrow> True"
| "scalar TString \<longleftrightarrow> True"
| "scalar TBytes \<longleftrightarrow> True"
| "scalar (TByteArray n) \<longleftrightarrow> True"
| "scalar _ \<longleftrightarrow> False"

lemma wrap_res_Inr: "wrap_res f r = (Inr v, s') \<longleftrightarrow> (\<exists>x. r = (Inr x, s') \<and> v = f x)"
  by (auto simp: wrap_res_def split: prod.splits sum.splits)

lemma wrap_EOL: "wrapStreamError e = EOL \<longleftrightarrow> e = EOL"
  by (cases e) (simp_all add: wrapStreamError_def)

lemma wrap_res_EOL: "wrap_res f r = (Inl EOL, s') \<longleftrightarrow> r = (Inl EOL, s')"
  by (auto simp: wrap_res_def wrap_EOL split: prod.splits sum.splits)

lemma scalar_decode:
  assumes "live s" "ty_ok t" "scalar t"
  shows "decode_val f t s = Some (Inr v, s') \<longleftrightarrow> (\<exists>b. stream_Bytes s = (Inr b, s') \<and> conv t (RString b) = Some v)"
proof (cases t)
  case TBigInt
  then show ?thesis by (auto simp: decodeBigInt_def wrap_res_Inr BigInt_Bytes [OF assms(1)])
next
  case (TUint bits)
  then show ?thesis using uint_Bytes [OF assms(1), of bits] assms(2) by (auto simp: decodeUint_def wrap_res_Inr)
next
  case TBool
  then show ?thesis by (auto simp: decodeBool_def wrap_res_Inr Bool_Bytes [OF assms(1)])
next
  case (TByteArray n)
  then show ?thesis using ByteArray_Bytes [OF assms(1), of n] assms(2) by auto
qed (use assms(3) in \<open>auto simp: decodeString_def decodeByteSlice_def wrap_res_Inr\<close>)

lemma stream_Kind_cong:
  assumes "stream_Kind s = stream_Kind s'"
  shows "stream_Bytes s = stream_Bytes s'" "stream_uint bits s = stream_uint bits s'" "stream_Bool s = stream_Bool s'"
    "stream_decodeBigInt s = stream_decodeBigInt s'" "stream_List s = stream_List s'"
    "decodeByteArray n s = decodeByteArray n s'" "decodeListSlice el s = decodeListSlice el s'"
    "decodeStruct el s = decodeStruct el s'" "decodeNilPtr nk ev s = decodeNilPtr nk ev s'"
    "decodeInterface el s = decodeInterface el s'"
  using assms
  by (simp_all add: stream_Bytes_def stream_uint_def stream_Bool_def stream_decodeBigInt_def stream_List_def decodeByteArray_def
      decodeListSlice_def decodeStruct_def decodeNilPtr_def decodeInterface_def)

lemma decode_Kind_cong:
  assumes "stream_Kind s = stream_Kind s'"
  shows "decode_val f t s = decode_val f t s'"
proof -
  note c = stream_Kind_cong [OF assms]
  show ?thesis
  proof (induction t)
    case (TPtr nk t)
    then show ?case by (simp add: decodeSimplePtr_def)
  next
    case TInterface
    then show ?case by (cases f) (simp_all only: decode_val.simps c)
  qed (simp_all only: decode_val.simps c decodeBigInt_def decodeUint_def decodeBool_def decodeString_def decodeByteSlice_def)
qed

lemma decode_after_Kind: "stream_Kind s = (Inr (k, sz), s1) \<Longrightarrow> decode_val f t s1 = decode_val f t s"
  using Kind_again by (intro decode_Kind_cong) metis

lemma scalar_EOL:
  "stream_Bytes s = (Inl EOL, s') \<longleftrightarrow> stream_Kind s = (Inl EOL, s')"
  "stream_uint bits s = (Inl EOL, s') \<longleftrightarrow> stream_Kind s = (Inl EOL, s')"
  "stream_Bool s = (Inl EOL, s') \<longleftrightarrow> stream_Kind s = (Inl EOL, s')"
  "stream_decodeBigInt s = (Inl EOL, s') \<longleftrightarrow> stream_Kind s = (Inl EOL, s')"
  "stream_List s = (Inl EOL, s') \<longleftrightarrow> stream_Kind s = (Inl EOL, s')"
  "decodeByteArray n s = (Inl EOL, s') \<longleftrightarrow> stream_Kind s = (Inl EOL, s')"
proof -
  show u: "stream_uint bits s = (Inl EOL, s') \<longleftrightarrow> stream_Kind s = (Inl EOL, s')" for bits
    using not_EOL(4) by (auto simp: stream_uint_def split: prod.splits sum.splits RlpKind.splits if_splits)
  show "stream_Bool s = (Inl EOL, s') \<longleftrightarrow> stream_Kind s = (Inl EOL, s')"
    using u [of 8] by (auto simp: stream_Bool_def split: prod.splits sum.splits if_splits)
  show "stream_Bytes s = (Inl EOL, s') \<longleftrightarrow> stream_Kind s = (Inl EOL, s')"
    using not_EOL(3) by (auto simp: stream_Bytes_def split: prod.splits sum.splits RlpKind.splits if_splits)
  show "stream_decodeBigInt s = (Inl EOL, s') \<longleftrightarrow> stream_Kind s = (Inl EOL, s')"
    using not_EOL(3) by (auto simp: stream_decodeBigInt_def Let_def split: prod.splits sum.splits RlpKind.splits if_splits)
  show "stream_List s = (Inl EOL, s') \<longleftrightarrow> stream_Kind s = (Inl EOL, s')"
    by (auto simp: stream_List_def Let_def split: prod.splits sum.splits RlpKind.splits if_splits)
  show "decodeByteArray n s = (Inl EOL, s') \<longleftrightarrow> stream_Kind s = (Inl EOL, s')"
    using not_EOL(3) by (auto simp: decodeByteArray_def wrapStreamError_def split: prod.splits sum.splits RlpKind.splits if_splits)
qed

lemma elems_not_EOL: "decode_elems f t s \<noteq> Some (Inl EOL, s')"
proof (induction f arbitrary: s)
  case (Suc f)
  then show ?case by (auto split: option.splits prod.splits sum.splits)
qed simp

lemma fields_not_EOL: "decode_fields f ts s \<noteq> Some (Inl EOL, s')"
  by (induction ts arbitrary: s) (auto split: option.splits prod.splits sum.splits)

lemma list_end_not_EOL: "list_end id v s \<noteq> (Inl EOL, s')" "list_end wrapStreamError v s \<noteq> (Inl EOL, s')"
  by (auto simp: list_end_def stream_ListEnd_def wrapStreamError_def split: list.splits if_splits)

lemma listslice_EOL:
  assumes "\<And>s s'. el s \<noteq> Some (Inl EOL, s')" "decodeListSlice el s = Some (Inl EOL, s')"
  shows "stream_Kind s = (Inl EOL, s')"
proof (cases "stream_List s")
  case (Pair res s1)
  then show ?thesis using assms scalar_EOL(5) [of s s'] list_end_not_EOL(1)
    by (cases res) (auto simp: decodeListSlice_def wrap_EOL split: prod.splits sum.splits option.splits if_splits)
qed

lemma decode_EOL_Kind: "decode_val f t s = Some (Inl EOL, s') \<Longrightarrow> stream_Kind s = (Inl EOL, s')"
proof (induction t arbitrary: s)
  case (TSlice t)
  then show ?case using listslice_EOL [of "\<lambda>s1. decode_elems f t s1"] elems_not_EOL by simp
next
  case (TStruct ts)
  then show ?case using fields_not_EOL list_end_not_EOL scalar_EOL(5) [of s s']
    by (auto simp: decodeStruct_def wrap_EOL split: prod.splits sum.splits option.splits if_splits)
next
  case (TPtr nk t)
  then show ?case by (auto simp: decodeSimplePtr_def split: prod.splits sum.splits option.splits)
next
  case (TNilPtr nk t)
  show ?case
  proof (cases "stream_Kind s")
    case (Pair res s1)
    then show ?thesis using TNilPtr Kind_again [of s _ _ s1]
      by (cases res) (force simp: decodeNilPtr_def wrap_EOL split: prod.splits sum.splits option.splits if_splits)+
  qed
next
  case TInterface
  then obtain f' where f: "f = Suc f'" by (cases f) auto
  show ?case
  proof (cases "stream_Kind s")
    case (Pair res s1)
    show ?thesis
    proof (cases res)
      case (Inl e)
      then show ?thesis using Pair TInterface f by (simp add: decodeInterface_def)
    next
      case (Inr ksz)
      obtain k sz where "ksz = (k, sz)" by force
      then have K: "stream_Kind s = (Inr (k, sz), s1)" "stream_Kind s1 = (Inr (k, sz), s1)"
        using Pair Inr Kind_again by auto
      have nl: "decodeListSlice (\<lambda>s1. decode_elems f' TInterface s1) s1 \<noteq> Some (Inl EOL, s')"
        using listslice_EOL [of "\<lambda>s1. decode_elems f' TInterface s1" s1 s'] elems_not_EOL K by auto
      have nb: "stream_Bytes s1 \<noteq> (Inl EOL, s')" using scalar_EOL(1) [of s1 s'] K by simp
      show ?thesis
      proof (cases "k = KList")
        case True
        then show ?thesis using TInterface K(1) f nl
          by (simp add: decodeInterface_def split: option.splits prod.splits sum.splits)
      next
        case False
        then show ?thesis using TInterface K(1) f nb
          by (simp add: decodeInterface_def split: prod.splits sum.splits)
      qed
    qed
  qed
qed (auto simp: decodeBigInt_def decodeUint_def decodeBool_def decodeString_def decodeByteSlice_def wrap_res_EOL scalar_EOL)

lemma Kind_EOL_decode:
  assumes "stream_Kind s = (Inl EOL, s')" "0 < f"
  shows "decode_val f t s = Some (Inl EOL, s')"
  using assms
proof (induction t arbitrary: s)
  case TInterface
  then show ?case by (cases f) (simp_all add: decodeInterface_def)
qed (simp_all add: decodeBigInt_def decodeUint_def decodeBool_def decodeString_def decodeByteSlice_def wrap_res_EOL scalar_EOL
    decodeListSlice_def decodeStruct_def decodeSimplePtr_def decodeNilPtr_def wrap_EOL stream_List_def)

end
