(* ===== verification/Rlp_Decode.thy ===== *)
theory Rlp_Decode
  imports Rlp_Stream
begin

text \<open>
  The typed RLP decoders accept exactly the reference encodings of the trees that convert to the type, and
  the fuel of the model is always enough.
\<close>

section \<open>Lists\<close>

lemma List_sound:
  assumes "live s" "stream_List s = (Inr sz, s1)"
  shows "\<exists>rest. st_r s = khead KList (unat sz) @ rest \<and> live s1 \<and> st_r s1 = rest \<and> st_limited s1 = st_limited s \<and>
     st_stack s1 = sz # sub_top (length (khead KList (unat sz)) + unat sz) (st_stack s)"
proof -
  obtain k sz' s2 where K: "stream_Kind s = (Inr (k, sz'), s2)"
    using assms(2) by (auto simp: stream_List_def split: prod.splits sum.splits)
  then have e: "k = KList" "sz' = sz"
    "s1 = s2\<lparr>st_stack := sz # (case st_stack s2 of [] \<Rightarrow> [] | limit # lims \<Rightarrow> (limit - sz) # lims), st_kind := None, st_size := 0\<rparr>"
    using assms(2) by (auto simp: stream_List_def Let_def split: if_splits)
  obtain h rest where h: "st_r s = h @ rest" "pos (rearm s2) = pos (adv (length h) s)" "h = khead KList (unat sz)"
    using Kind_sound [OF assms(1) K] e by (auto simp: head_ok_def)
  have f: "st_r s2 = rest" "st_stack s2 = sub_top (length h) (st_stack s)" "st_limited s2 = st_limited s"
    using pos_fields [OF h(2)] h(1) by (simp_all add: rearm_def)
  have "core s2" using Kind_core [OF assms(1) K] .
  then have "live s1" by (simp add: e(3) live_def core_def)
  moreover have "st_stack s1 = sz # sub_top (length h + unat sz) (st_stack s)"
    using f(2) by (cases "st_stack s") (simp_all add: e(3))
  ultimately show ?thesis using h f by (simp add: e(3))
qed

lemma List_complete:
  assumes "live s" "st_r s = khead KList n @ rest" "n \<le> length rest" "room (length (khead KList n) + n) s"
  shows "\<exists>s1. stream_List s = (Inr (of_nat n), s1) \<and> stream_Kind s = (Inr (KList, of_nat n), snd (stream_Kind s))"
proof -
  have "n < 2 ^ 64" using assms(1-3) by (simp add: live_def core_def)
  then have u: "unat (of_nat n :: u64) = n" by (rule unat_of_nat_u64)
  have "head_ok KList (of_nat n) (khead KList n) 0" by (simp add: head_ok_def u)
  then obtain s1 where "stream_Kind s = (Inr (KList, of_nat n), s1)"
    using Kind_complete [OF assms(1,2), of "of_nat n" KList 0] assms(3,4) u by auto
  then show ?thesis by (simp add: stream_List_def Let_def)
qed

lemma list_end_iff:
  "list_end w v s = (Inr v', s') \<longleftrightarrow>
   v' = v \<and> (\<exists>ls. st_stack s = 0 # ls \<and> s' = s\<lparr>st_stack := ls, st_kind := None, st_size := 0\<rparr>)"
proof (cases "st_stack s")
  case (Cons l ls)
  have "\<not> l > 0 \<longleftrightarrow> l = 0" by (simp add: word_gt_0)
  then show ?thesis using Cons by (auto simp: list_end_def stream_ListEnd_def)
qed (simp add: list_end_def stream_ListEnd_def)

text \<open>A list whose body consumed exactly \<open>c\<close>.\<close>

lemma list_body_sound:
  assumes "live s" "stream_List s = (Inr sz, s1)" "st_r s1 = c @ rest" "pos s2 = pos (adv (length c) s1)"
    "list_end w v s2 = (Inr v', s')"
  shows "v' = v \<and> st_r s = (rlp_head 0xC0 0xF7 (length c) @ c) @ rest \<and>
     pos s' = pos (adv (length (rlp_head 0xC0 0xF7 (length c) @ c)) s)"
proof -
  let ?h = "khead KList (unat sz)"
  have 1: "st_r s = ?h @ st_r s1" "live s1" "st_limited s1 = st_limited s"
    "st_stack s1 = sz # sub_top (length ?h + unat sz) (st_stack s)"
    using List_sound [OF assms(1,2)] by auto
  have f2: "st_r s2 = rest" "st_stack s2 = (sz - of_nat (length c)) # sub_top (length ?h + unat sz) (st_stack s)"
    "st_limited s2 = st_limited s"
    using pos_fields [OF assms(4)] assms(3) 1 by simp_all
  have e: "v' = v" "sz = of_nat (length c)"
    "s' = s2\<lparr>st_stack := sub_top (length ?h + unat sz) (st_stack s), st_kind := None, st_size := 0\<rparr>"
    using assms(5) f2(2) by (auto simp: list_end_iff)
  have "length c < 2 ^ 64" using 1(2) assms(3) by (simp add: live_def core_def)
  then have u: "unat sz = length c" using e(2) by (simp add: unat_of_nat_u64)
  have h: "?h = rlp_head 0xC0 0xF7 (length c)" by (simp add: khead_def u)
  have "live s2" using live_pos [OF assms(4)] live_adv [of s1 "length c"] 1(2) assms(3) by (simp add: live_def)
  then have rem: "st_limited s2 \<Longrightarrow> st_remaining s2 = of_nat (length rest)" using f2(1) by (simp add: live_def core_def)
  have rs: "st_r s = (?h @ c) @ rest" using 1(1) assms(3) by simp
  have "pos s' = pos (adv (length (?h @ c)) s)"
  proof -
    have "st_limited s \<Longrightarrow> st_remaining s - of_nat (length (?h @ c)) = of_nat (length rest)"
      using assms(1) rs by (simp add: live_def core_def)
    then show ?thesis using f2 rem rs u by (auto simp: e(3) pos_def adv_def)
  qed
  then show ?thesis using e(1) rs h by simp
qed

lemma length_rlp_enc: "0 < length (rlp_enc x)"
  by (cases x) (auto simp: rlp_str_def rlp_head_def Let_def)

lemma hd_khead:
  assumes "n < 2 ^ 64"
  shows "hd (khead KString n) = 0x80 \<Longrightarrow> n = 0" "hd (khead KString n) \<noteq> 0xC0"
    "hd (khead KList n) = 0xC0 \<Longrightarrow> n = 0" "hd (khead KList n) \<noteq> 0x80"
proof -
  have l8: "length (be_min n) \<le> 8" using assms by (simp add: length_be_min_le)
  have "unat (hd (khead KString n)) = (if n < 56 then 0x80 + n else 0xB7 + length (be_min n))"
    "unat (hd (khead KList n)) = (if n < 56 then 0xC0 + n else 0xF7 + length (be_min n))"
    using l8 head_byte [of n] head_byte(3,4) [of "length (be_min n)"] by (simp_all add: khead_def rlp_head_def)
  then show "hd (khead KString n) = 0x80 \<Longrightarrow> n = 0" "hd (khead KString n) \<noteq> 0xC0"
    "hd (khead KList n) = 0xC0 \<Longrightarrow> n = 0" "hd (khead KList n) \<noteq> 0x80"
    using l8 by (auto split: if_splits)
qed

text \<open>A header of an empty value belongs to the empty string or the empty list.\<close>

lemma nonempty_head:
  assumes "live s" "stream_Kind s = (Inr (k, sz), s1)" "\<not> (k \<noteq> KByte \<and> sz = 0)" "st_r s = rlp_enc x @ rest"
  shows "x \<noteq> RString [] \<and> x \<noteq> RList []"
proof -
  obtain h rest' where h: "st_r s = h @ rest'" "head_ok k sz h (st_byteval s1)" using Kind_sound [OF assms(1,2)] by blast
  have "h \<noteq> []" using h(2) length_khead [of k "unat sz"] by (auto simp: head_ok_def split: if_splits)
  then have hd: "hd (st_r s) = hd h" using h(1) by simp
  have "hd h \<noteq> 0x80 \<and> hd h \<noteq> 0xC0"
  proof (cases k)
    case KByte
    then show ?thesis using h(2) by (auto simp: head_ok_def word_less_nat_alt)
  next
    case KString
    then show ?thesis using h(2) assms(3) hd_khead [OF u64_lt, of sz] by (auto simp: head_ok_def unat_eq_0_iff)
  next
    case KList
    then show ?thesis using h(2) assms(3) hd_khead [OF u64_lt, of sz] by (auto simp: head_ok_def unat_eq_0_iff)
  qed
  then show ?thesis using assms(4) hd by (auto simp: rlp_head_def)
qed

lemma empty_head:
  assumes "live s" "stream_Kind s = (Inr (k, 0), s1)" "k \<noteq> KByte"
  shows "\<exists>rest. st_r s = rlp_enc (if k = KString then RString [] else RList []) @ rest \<and>
     pos (rearm s1) = pos (adv (length (rlp_enc (if k = KString then RString [] else RList []))) s)"
  using Kind_sound [OF assms(1,2)] assms(3) by (cases k) (auto simp: head_ok_def khead_def rlp_head_def)

section \<open>What the decoders accept\<close>

definition val_sound :: "nat \<Rightarrow> GoType \<Rightarrow> RStream \<Rightarrow> bool" where
  "val_sound f t s \<longleftrightarrow> (\<forall>v s'. live s \<longrightarrow> ty_ok t \<longrightarrow> decode_val f t s = Some (Inr v, s') \<longrightarrow>
     (\<exists>x rest. conv t x = Some v \<and> st_r s = rlp_enc x @ rest \<and> pos s' = pos (adv (length (rlp_enc x)) s)))"

definition elems_sound :: "nat \<Rightarrow> GoType \<Rightarrow> RStream \<Rightarrow> bool" where
  "elems_sound f t s \<longleftrightarrow> (\<forall>vs s'. live s \<longrightarrow> ty_ok t \<longrightarrow> decode_elems f t s = Some (Inr vs, s') \<longrightarrow>
     (\<exists>xs rest. conv_elems t xs = Some vs \<and> st_r s = concat (map rlp_enc xs) @ rest \<and>
        pos s' = pos (adv (length (concat (map rlp_enc xs))) s)))"

definition fields_sound :: "nat \<Rightarrow> GoType list \<Rightarrow> RStream \<Rightarrow> bool" where
  "fields_sound f ts s \<longleftrightarrow> (\<forall>vs s'. live s \<longrightarrow> (\<forall>t \<in> set ts. ty_ok t) \<longrightarrow> decode_fields f ts s = Some (Inr vs, s') \<longrightarrow>
     (\<exists>xs rest. conv_fields ts xs = Some vs \<and> st_r s = concat (map rlp_enc xs) @ rest \<and>
        pos s' = pos (adv (length (concat (map rlp_enc xs))) s)))"

lemma pos_adv_0: "live s \<Longrightarrow> pos s = pos (adv 0 s)"
  by (simp add: adv_0 rearm_def pos_def live_def)

text \<open>Going on behind a value that was read.\<close>

lemma live_after:
  assumes "live s" "st_r s = c @ rest" "pos s1 = pos (adv (length c) s)"
  shows "live s1 \<and> st_r s1 = rest"
  using assms live_adv [of s "length c"] live_pos [OF assms(3)] pos_fields [OF assms(3)] by (simp add: live_def)

lemma pos_after:
  assumes "pos s1 = pos (adv m s)" "pos s2 = pos (adv n s1)"
  shows "pos s2 = pos (adv (m + n) s)"
proof -
  have "pos (rearm s1) = pos (rearm (adv m s))" using assms(1) by (auto simp: pos_def rearm_def split: if_splits)
  then have "pos (adv n s1) = pos (adv n (adv m s))" by (rule pos_adv)
  then show ?thesis using assms(2) by (simp add: adv_adv)
qed

lemma slice_sound:
  assumes "live s" "ty_ok t" "\<And>s1. elems_sound f t s1" "decodeListSlice (\<lambda>s1. decode_elems f t s1) s = Some (Inr v, s')"
  shows "\<exists>xs vs rest. v = GSlice vs \<and> conv_elems t xs = Some vs \<and> st_r s = rlp_enc (RList xs) @ rest \<and>
     pos s' = pos (adv (length (rlp_enc (RList xs))) s)"
proof -
  obtain sz s1 where l: "stream_List s = (Inr sz, s1)"
    using assms(4) by (auto simp: decodeListSlice_def split: prod.splits sum.splits)
  have l1: "live s1" using List_sound [OF assms(1) l] by auto
  show ?thesis
  proof (cases "sz = 0")
    case True
    then have e: "list_end id (GSlice []) s1 = (Inr v, s')" using assms(4) l by (simp add: decodeListSlice_def)
    have "v = GSlice [] \<and> st_r s = (rlp_head 0xC0 0xF7 0 @ []) @ st_r s1 \<and> pos s' = pos (adv (length (rlp_head 0xC0 0xF7 0 @ [])) s)"
      using list_body_sound [OF assms(1) l, of "[]" "st_r s1" s1, OF _ _ e] pos_adv_0 [OF l1] by simp
    then show ?thesis by (intro exI [of _ "[]"] exI [of _ "st_r s1"]) simp
  next
    case False
    then obtain vs s2 where b: "decode_elems f t s1 = Some (Inr vs, s2)" "list_end id (GSlice vs) s2 = (Inr v, s')"
      using assms(4) l by (auto simp: decodeListSlice_def split: option.splits prod.splits sum.splits)
    obtain xs rest where x: "conv_elems t xs = Some vs" "st_r s1 = concat (map rlp_enc xs) @ rest"
      "pos s2 = pos (adv (length (concat (map rlp_enc xs))) s1)"
      using assms(2,3) l1 b(1) unfolding elems_sound_def by blast
    show ?thesis using list_body_sound [OF assms(1) l x(2,3) b(2)] x(1) by (auto simp: Let_def)
  qed
qed

lemma struct_sound:
  assumes "live s" "\<forall>t \<in> set ts. ty_ok t" "\<And>s1. fields_sound f ts s1"
    "decodeStruct (\<lambda>s1. decode_fields f ts s1) s = Some (Inr v, s')"
  shows "\<exists>xs vs rest. v = GStruct vs \<and> conv_fields ts xs = Some vs \<and> st_r s = rlp_enc (RList xs) @ rest \<and>
     pos s' = pos (adv (length (rlp_enc (RList xs))) s)"
proof -
  obtain sz s1 where l: "stream_List s = (Inr sz, s1)"
    using assms(4) by (auto simp: decodeStruct_def split: prod.splits sum.splits)
  have l1: "live s1" using List_sound [OF assms(1) l] by auto
  obtain vs s2 where b: "decode_fields f ts s1 = Some (Inr vs, s2)" "list_end wrapStreamError (GStruct vs) s2 = (Inr v, s')"
    using assms(4) l by (auto simp: decodeStruct_def split: option.splits prod.splits sum.splits)
  obtain xs rest where x: "conv_fields ts xs = Some vs" "st_r s1 = concat (map rlp_enc xs) @ rest"
    "pos s2 = pos (adv (length (concat (map rlp_enc xs))) s1)"
    using assms(2,3) l1 b(1) unfolding fields_sound_def by blast
  show ?thesis using list_body_sound [OF assms(1) l x(2,3) b(2)] x(1) by (auto simp: Let_def)
qed

lemma scalar_sound: "scalar t \<Longrightarrow> val_sound f t s"
  unfolding val_sound_def using scalar_decode [of s t f] Bytes_sound [of s]
  by (metis rlp_enc.simps(1))

lemma interface_sound:
  assumes "\<And>s1. elems_sound f TInterface s1"
  shows "val_sound (Suc f) TInterface s"
  unfolding val_sound_def
proof (intro allI impI)
  fix v s'
  assume l: "live s" and d: "decode_val (Suc f) TInterface s = Some (Inr v, s')"
  obtain k sz s1 where K: "stream_Kind s = (Inr (k, sz), s1)"
    using d by (auto simp: decodeInterface_def split: prod.splits sum.splits)
  have cong: "stream_Kind s1 = stream_Kind s" using Kind_again [OF K] K by simp
  show "\<exists>x rest. conv TInterface x = Some v \<and> st_r s = rlp_enc x @ rest \<and> pos s' = pos (adv (length (rlp_enc x)) s)"
  proof (cases "k = KList")
    case True
    then obtain v1 where v1: "decodeListSlice (\<lambda>s1. decode_elems f TInterface s1) s = Some (Inr v1, s')"
      "v = GInterface (Some v1)"
      using d K stream_Kind_cong(7) [OF cong]
      by (auto simp: decodeInterface_def split: option.splits prod.splits sum.splits)
    then obtain xs vs rest where "v1 = GSlice vs" "conv_elems TInterface xs = Some vs" "st_r s = rlp_enc (RList xs) @ rest"
      "pos s' = pos (adv (length (rlp_enc (RList xs))) s)"
      using slice_sound [OF l _ assms v1(1)] by auto
    then show ?thesis using v1(2) by (intro exI [of _ "RList xs"] exI [of _ rest]) (simp del: rlp_enc.simps)
  next
    case False
    then obtain b where "stream_Bytes s = (Inr b, s')" "v = GInterface (Some (GBytes b))"
      using d K stream_Kind_cong(1) [OF cong] by (auto simp: decodeInterface_def split: prod.splits sum.splits)
    then show ?thesis using Bytes_sound [OF l] by (metis conv.simps(11) rlp_enc.simps(1))
  qed
qed

lemma nilptr_sound:
  assumes "val_sound f t s"
  shows "val_sound f (TNilPtr nk t) s"
  unfolding val_sound_def
proof (intro allI impI)
  fix v s'
  assume l: "live s" and t: "ty_ok (TNilPtr nk t)" and d: "decode_val f (TNilPtr nk t) s = Some (Inr v, s')"
  obtain k sz s1 where K: "stream_Kind s = (Inr (k, sz), s1)"
    using d by (auto simp: decodeNilPtr_def split: prod.splits sum.splits)
  show "\<exists>x rest. conv (TNilPtr nk t) x = Some v \<and> st_r s = rlp_enc x @ rest \<and> pos s' = pos (adv (length (rlp_enc x)) s)"
  proof (cases "k \<noteq> KByte \<and> sz = 0")
    case True
    then have e: "k = nk" "v = GPtr nk None" "s' = rearm s1"
      using d K by (auto simp: decodeNilPtr_def split: if_splits)
    let ?x = "if k = KString then RString [] else RList []"
    have "conv (TNilPtr nk t) ?x = Some v" using e True by (cases nk) simp_all
    then show ?thesis using empty_head [of s k s1] l K True e(3) by metis
  next
    case False
    then obtain v1 where "decode_val f t s1 = Some (Inr v1, s')" and v: "v = GPtr nk (Some v1)"
      using d K by (auto simp: decodeNilPtr_def split: option.splits prod.splits sum.splits)
    then have v1: "decode_val f t s = Some (Inr v1, s')" using decode_after_Kind [OF K] by simp
    then obtain x rest where x: "conv t x = Some v1" "st_r s = rlp_enc x @ rest" "pos s' = pos (adv (length (rlp_enc x)) s)"
      using assms l t unfolding val_sound_def by fastforce
    then have "x \<noteq> RString [] \<and> x \<noteq> RList []" using nonempty_head [OF l K False] by simp
    then show ?thesis using x v by (intro exI [of _ x] exI [of _ rest]) simp
  qed
qed

lemma elems_sound_step:
  assumes "val_sound f t s" "\<And>v s1. decode_val f t s = Some (Inr v, s1) \<Longrightarrow> elems_sound f t s1"
  shows "elems_sound (Suc f) t s"
  unfolding elems_sound_def
proof (intro allI impI)
  fix vs s'
  assume l: "live s" and t: "ty_ok t" and d: "decode_elems (Suc f) t s = Some (Inr vs, s')"
  obtain res s1 where r: "decode_val f t s = Some (res, s1)" using d by (auto split: option.splits prod.splits)
  show "\<exists>xs rest. conv_elems t xs = Some vs \<and> st_r s = concat (map rlp_enc xs) @ rest \<and>
      pos s' = pos (adv (length (concat (map rlp_enc xs))) s)"
  proof (cases res)
    case (Inl e)
    then have "e = EOL" "vs = []" "s' = s1" using d r by (auto split: if_splits)
    then have "s' = s" using decode_EOL_Kind r Inl Kind_EOL [OF l] by blast
    then show ?thesis using \<open>vs = []\<close> pos_adv_0 [OF l] by (intro exI [of _ "[]"] exI [of _ "st_r s"]) simp
  next
    case (Inr v)
    then obtain ws where w: "decode_elems f t s1 = Some (Inr ws, s')" "vs = v # ws"
      using d r by (auto split: option.splits prod.splits sum.splits)
    obtain x rest where x: "conv t x = Some v" "st_r s = rlp_enc x @ rest" "pos s1 = pos (adv (length (rlp_enc x)) s)"
      using assms(1) l t r Inr unfolding val_sound_def by blast
    have l1: "live s1" "st_r s1 = rest" using live_after [OF l x(2,3)] by auto
    obtain xs rest' where xs: "conv_elems t xs = Some ws" "st_r s1 = concat (map rlp_enc xs) @ rest'"
      "pos s' = pos (adv (length (concat (map rlp_enc xs))) s1)"
      using assms(2) r Inr l1(1) t w(1) unfolding elems_sound_def by blast
    show ?thesis using x(1,2) xs(1,2) w(2) l1(2) pos_after [OF x(3) xs(3)]
      by (intro exI [of _ "x # xs"] exI [of _ rest']) simp
  qed
qed

lemma fields_sound_step:
  assumes "val_sound f t s" "\<And>v s1. decode_val f t s = Some (Inr v, s1) \<Longrightarrow> fields_sound f ts s1"
  shows "fields_sound f (t # ts) s"
  unfolding fields_sound_def
proof (intro allI impI)
  fix vs s'
  assume l: "live s" and t: "\<forall>u \<in> set (t # ts). ty_ok u" and d: "decode_fields f (t # ts) s = Some (Inr vs, s')"
  obtain v s1 ws where r: "decode_val f t s = Some (Inr v, s1)" "decode_fields f ts s1 = Some (Inr ws, s')" "vs = v # ws"
    using d by (auto split: option.splits prod.splits sum.splits)
  obtain x rest where x: "conv t x = Some v" "st_r s = rlp_enc x @ rest" "pos s1 = pos (adv (length (rlp_enc x)) s)"
    using assms(1) l t r(1) unfolding val_sound_def by fastforce
  have l1: "live s1" "st_r s1 = rest" using live_after [OF l x(2,3)] by auto
  obtain xs rest' where xs: "conv_fields ts xs = Some ws" "st_r s1 = concat (map rlp_enc xs) @ rest'"
    "pos s' = pos (adv (length (concat (map rlp_enc xs))) s1)"
    using assms(2) [OF r(1)] l1(1) t r(2) unfolding fields_sound_def by fastforce
  show "\<exists>xs rest. conv_fields (t # ts) xs = Some vs \<and> st_r s = concat (map rlp_enc xs) @ rest \<and>
      pos s' = pos (adv (length (concat (map rlp_enc xs))) s)"
    using x(1,2) xs(1,2) r(3) l1(2) pos_after [OF x(3) xs(3)] by (intro exI [of _ "x # xs"] exI [of _ rest']) simp
qed

lemma decode_sound: "val_sound f t s" "elems_sound f t s" "fields_sound f ts s"
proof (induction f t s and f t s and f ts s rule: decode_val_decode_elems_decode_fields.induct)
  case (7 fuel t s)
  show ?case unfolding val_sound_def
  proof (intro allI impI)
    fix v s'
    assume a: "live s" "ty_ok (TSlice t)" "decode_val fuel (TSlice t) s = Some (Inr v, s')"
    then show "\<exists>x rest. conv (TSlice t) x = Some v \<and> st_r s = rlp_enc x @ rest \<and> pos s' = pos (adv (length (rlp_enc x)) s)"
      using slice_sound [of s t fuel v s'] 7 by (metis conv.simps(7) decode_val.simps(7) option.simps(9) ty_ok.simps(3))
  qed
next
  case (8 fuel ts s)
  show ?case unfolding val_sound_def
  proof (intro allI impI)
    fix v s'
    assume a: "live s" "ty_ok (TStruct ts)" "decode_val fuel (TStruct ts) s = Some (Inr v, s')"
    then show "\<exists>x rest. conv (TStruct ts) x = Some v \<and> st_r s = rlp_enc x @ rest \<and> pos s' = pos (adv (length (rlp_enc x)) s)"
      using struct_sound [of s ts fuel v s'] 8 by (metis conv.simps(8) decode_val.simps(8) option.simps(9) ty_ok.simps(4))
  qed
next
  case (9 fuel nk t s)
  then show ?case unfolding val_sound_def
    by (fastforce simp: decodeSimplePtr_def split: option.splits prod.splits sum.splits)
next
  case (10 fuel nk t s)
  then show ?case by (intro nilptr_sound)
next
  case (12 fuel s)
  then show ?case by (intro interface_sound)
next
  case (14 fuel t s)
  then show ?case by (intro elems_sound_step) auto
next
  case (15 fuel s)
  show ?case unfolding fields_sound_def
    using pos_adv_0 [of s] by (auto intro!: exI [of _ "[]"] exI [of _ "st_r s"])
next
  case (16 fuel t ts s)
  then show ?case by (intro fields_sound_step) auto
next
  case (11 s)
  show ?case by (simp add: val_sound_def)
next
  case (13 t s)
  show ?case by (simp add: elems_sound_def)
qed (simp_all add: scalar_sound)

section \<open>What the decoders produce\<close>

definition val_total :: "nat \<Rightarrow> GoType \<Rightarrow> RStream \<Rightarrow> bool" where
  "val_total f t s \<longleftrightarrow> (live s \<longrightarrow> ty_ok t \<longrightarrow> 2 * length (st_r s) < f \<longrightarrow> decode_val f t s \<noteq> None)"

definition elems_total :: "nat \<Rightarrow> GoType \<Rightarrow> RStream \<Rightarrow> bool" where
  "elems_total f t s \<longleftrightarrow> (live s \<longrightarrow> ty_ok t \<longrightarrow> 2 * length (st_r s) + 1 < f \<longrightarrow> decode_elems f t s \<noteq> None)"

definition fields_total :: "nat \<Rightarrow> GoType list \<Rightarrow> RStream \<Rightarrow> bool" where
  "fields_total f ts s \<longleftrightarrow>
     (live s \<longrightarrow> (\<forall>t \<in> set ts. ty_ok t) \<longrightarrow> 2 * length (st_r s) < f \<longrightarrow> decode_fields f ts s \<noteq> None)"

lemma List_shorter:
  assumes "live s" "stream_List s = (Inr sz, s1)"
  shows "live s1 \<and> length (st_r s1) < length (st_r s)"
  using List_sound [OF assms] length_khead [of KList "unat sz"] by auto

lemma val_shorter:
  assumes "live s" "ty_ok t" "decode_val f t s = Some (Inr v, s1)"
  shows "live s1 \<and> length (st_r s1) < length (st_r s)"
proof -
  obtain x rest where x: "st_r s = rlp_enc x @ rest" "pos s1 = pos (adv (length (rlp_enc x)) s)"
    using decode_sound(1) [of f t s] assms unfolding val_sound_def by blast
  then show ?thesis using live_after [OF assms(1) x] length_rlp_enc [of x] by simp
qed

lemma slice_total:
  assumes "live s" "ty_ok t" "\<And>s1. elems_total f t s1" "2 * length (st_r s) \<le> f"
  shows "decodeListSlice (\<lambda>s1. decode_elems f t s1) s \<noteq> None"
proof (cases "stream_List s")
  case (Pair res s1)
  show ?thesis
  proof (cases res)
    case (Inr sz)
    then have "live s1 \<and> length (st_r s1) < length (st_r s)" using List_shorter assms(1) Pair by simp
    then have "decode_elems f t s1 \<noteq> None" using assms(2-4) unfolding elems_total_def by simp
    then show ?thesis using Pair Inr by (auto simp: decodeListSlice_def split: prod.splits sum.splits)
  qed (use Pair in \<open>simp add: decodeListSlice_def\<close>)
qed

lemma decode_total: "val_total f t s" "elems_total f t s" "fields_total f ts s"
proof (induction f t s and f t s and f ts s rule: decode_val_decode_elems_decode_fields.induct)
  case (7 fuel t s)
  then show ?case using slice_total [of s t fuel] by (auto simp: val_total_def)
next
  case (8 fuel ts s)
  show ?case
  proof (cases "stream_List s")
    case (Pair res s1)
    have "fields_total fuel ts s1" using 8 by blast
    then show ?thesis using Pair List_shorter [of s _ s1]
      by (cases res) (auto simp: val_total_def fields_total_def decodeStruct_def split: prod.splits sum.splits)
  qed
next
  case (9 fuel nk t s)
  show ?case using 9 [of s] by (auto simp: val_total_def decodeSimplePtr_def split: prod.splits sum.splits option.splits)
next
  case (10 fuel nk t s)
  show ?case
  proof (cases "stream_Kind s")
    case (Pair res s1)
    then show ?thesis using 10 [of s] decode_after_Kind [of s _ _ s1 fuel t]
      by (cases res) (auto simp: val_total_def decodeNilPtr_def split: prod.splits sum.splits option.splits)
  qed
next
  case (12 fuel s)
  show ?case
  proof (cases "stream_Kind s")
    case (Pair res s1)
    show ?thesis
    proof (cases res)
      case (Inl e)
      then show ?thesis using Pair by (simp add: val_total_def decodeInterface_def)
    next
      case (Inr ksz)
      obtain k sz where "ksz = (k, sz)" by force
      then have K: "stream_Kind s = (Inr (k, sz), s1)" using Pair Inr by simp
      have c: "stream_Kind s1 = stream_Kind s" using Kind_again [OF K] K by simp
      show ?thesis unfolding val_total_def using 12 slice_total [of s TInterface fuel] K stream_Kind_cong(7) [OF c]
        by (auto simp: decodeInterface_def split: prod.splits sum.splits option.splits)
    qed
  qed
next
  case (14 fuel t s)
  show ?case unfolding elems_total_def
  proof (intro impI)
    assume a: "live s" "ty_ok t" "2 * length (st_r s) + 1 < Suc fuel"
    then obtain res s1 where r: "decode_val fuel t s = Some (res, s1)"
      using 14(1) unfolding val_total_def by fastforce
    show "decode_elems (Suc fuel) t s \<noteq> None"
    proof (cases res)
      case (Inr v)
      then have "decode_elems fuel t s1 \<noteq> None"
        using 14(2) r a val_shorter [OF a(1,2), of fuel v s1] unfolding elems_total_def by fastforce
      then show ?thesis using r Inr by (auto split: prod.splits sum.splits)
    qed (use r in simp)
  qed
next
  case (16 fuel t ts s)
  show ?case unfolding fields_total_def
  proof (intro impI)
    assume a: "live s" "\<forall>u \<in> set (t # ts). ty_ok u" "2 * length (st_r s) < fuel"
    then obtain res s1 where r: "decode_val fuel t s = Some (res, s1)"
      using 16(1) unfolding val_total_def by fastforce
    show "decode_fields fuel (t # ts) s \<noteq> None"
    proof (cases res)
      case (Inr v)
      then have "decode_fields fuel ts s1 \<noteq> None"
        using 16(2) r a val_shorter [OF a(1), of t fuel v s1] unfolding fields_total_def by fastforce
      then show ?thesis using r Inr by (auto split: prod.splits sum.splits)
    qed (use r in simp)
  qed
qed (simp_all add: val_total_def elems_total_def fields_total_def)

definition val_complete :: "nat \<Rightarrow> GoType \<Rightarrow> RStream \<Rightarrow> bool" where
  "val_complete f t s \<longleftrightarrow> (\<forall>x v rest. live s \<longrightarrow> ty_ok t \<longrightarrow> conv t x = Some v \<longrightarrow> st_r s = rlp_enc x @ rest \<longrightarrow>
     room (length (rlp_enc x)) s \<longrightarrow> 2 * length (st_r s) < f \<longrightarrow>
     (\<exists>s'. decode_val f t s = Some (Inr v, s') \<and> pos s' = pos (adv (length (rlp_enc x)) s)))"

definition elems_complete :: "nat \<Rightarrow> GoType \<Rightarrow> RStream \<Rightarrow> bool" where
  "elems_complete f t s \<longleftrightarrow> (\<forall>xs vs rest. live s \<longrightarrow> ty_ok t \<longrightarrow> conv_elems t xs = Some vs \<longrightarrow>
     st_r s = concat (map rlp_enc xs) @ rest \<longrightarrow> listLimit s = Some (of_nat (length (concat (map rlp_enc xs)))) \<longrightarrow>
     2 * length (st_r s) + 1 < f \<longrightarrow>
     (\<exists>s'. decode_elems f t s = Some (Inr vs, s') \<and> pos s' = pos (adv (length (concat (map rlp_enc xs))) s)))"

definition fields_complete :: "nat \<Rightarrow> GoType list \<Rightarrow> RStream \<Rightarrow> bool" where
  "fields_complete f ts s \<longleftrightarrow> (\<forall>xs vs rest. live s \<longrightarrow> (\<forall>t \<in> set ts. ty_ok t) \<longrightarrow> conv_fields ts xs = Some vs \<longrightarrow>
     st_r s = concat (map rlp_enc xs) @ rest \<longrightarrow> room (length (concat (map rlp_enc xs))) s \<longrightarrow>
     2 * length (st_r s) < f \<longrightarrow>
     (\<exists>s'. decode_fields f ts s = Some (Inr vs, s') \<and> pos s' = pos (adv (length (concat (map rlp_enc xs))) s)))"

lemma val_completeD:
  "val_complete f t s \<Longrightarrow> live s \<Longrightarrow> ty_ok t \<Longrightarrow> conv t x = Some v \<Longrightarrow> st_r s = rlp_enc x @ rest \<Longrightarrow>
   room (length (rlp_enc x)) s \<Longrightarrow> 2 * length (st_r s) < f \<Longrightarrow>
   \<exists>s'. decode_val f t s = Some (Inr v, s') \<and> pos s' = pos (adv (length (rlp_enc x)) s)"
  unfolding val_complete_def by blast

lemma elems_completeD:
  "elems_complete f t s \<Longrightarrow> live s \<Longrightarrow> ty_ok t \<Longrightarrow> conv_elems t xs = Some vs \<Longrightarrow>
   st_r s = concat (map rlp_enc xs) @ rest \<Longrightarrow> listLimit s = Some (of_nat (length (concat (map rlp_enc xs)))) \<Longrightarrow>
   2 * length (st_r s) + 1 < f \<Longrightarrow>
   \<exists>s'. decode_elems f t s = Some (Inr vs, s') \<and> pos s' = pos (adv (length (concat (map rlp_enc xs))) s)"
  unfolding elems_complete_def by blast

lemma fields_completeD:
  "fields_complete f ts s \<Longrightarrow> live s \<Longrightarrow> \<forall>t \<in> set ts. ty_ok t \<Longrightarrow> conv_fields ts xs = Some vs \<Longrightarrow>
   st_r s = concat (map rlp_enc xs) @ rest \<Longrightarrow> room (length (concat (map rlp_enc xs))) s \<Longrightarrow>
   2 * length (st_r s) < f \<Longrightarrow>
   \<exists>s'. decode_fields f ts s = Some (Inr vs, s') \<and> pos s' = pos (adv (length (concat (map rlp_enc xs))) s)"
  unfolding fields_complete_def by blast

lemma list_open:
  assumes "live s" "st_r s = (rlp_head 0xC0 0xF7 (length c) @ c) @ rest"
    "room (length (rlp_head 0xC0 0xF7 (length c) @ c)) s"
  obtains s1 ls where "stream_List s = (Inr (of_nat (length c)), s1)" "live s1" "st_r s1 = c @ rest"
    "st_stack s1 = of_nat (length c) # ls" "stream_Kind s = (Inr (KList, of_nat (length c)), snd (stream_Kind s))"
proof -
  have n: "length c < 2 ^ 64" using assms(1,2) by (simp add: live_def core_def)
  then have u: "unat (of_nat (length c) :: u64) = length c" by (rule unat_of_nat_u64)
  have r: "st_r s = khead KList (length c) @ c @ rest" using assms(2) by (simp add: khead_def)
  obtain s1 where l: "stream_List s = (Inr (of_nat (length c)), s1)"
    "stream_Kind s = (Inr (KList, of_nat (length c)), snd (stream_Kind s))"
    using List_complete [OF assms(1) r] assms(3) by (auto simp: khead_def)
  then show ?thesis using that [of s1] List_sound [OF assms(1) l(1)] r u by auto
qed

lemma list_close:
  assumes "st_stack s1 = of_nat (length c) # ls" "pos s2 = pos (adv (length c) s1)"
  shows "\<exists>s'. list_end w v s2 = (Inr v, s')"
  using assms pos_fields [OF assms(2)] by (auto simp: list_end_iff)

lemma conv_elems_Nil: "concat (map rlp_enc xs) = [] \<longleftrightarrow> xs = []"
  using length_rlp_enc by (cases xs) (auto simp: length_greater_0_conv [symmetric] simp del: length_greater_0_conv)

lemma slice_complete:
  assumes "live s" "ty_ok t" "\<And>s1. elems_complete f t s1" "conv_elems t xs = Some vs" "st_r s = rlp_enc (RList xs) @ rest"
    "room (length (rlp_enc (RList xs))) s" "2 * length (st_r s) \<le> f"
  shows "\<exists>s'. decodeListSlice (\<lambda>s1. decode_elems f t s1) s = Some (Inr (GSlice vs), s') \<and>
     pos s' = pos (adv (length (rlp_enc (RList xs))) s) \<and> (\<exists>sz s2. stream_Kind s = (Inr (KList, sz), s2))"
proof -
  let ?c = "concat (map rlp_enc xs)"
  have e: "rlp_enc (RList xs) = rlp_head 0xC0 0xF7 (length ?c) @ ?c" by (simp add: Let_def)
  obtain s1 ls where l: "stream_List s = (Inr (of_nat (length ?c)), s1)" "live s1" "st_r s1 = ?c @ rest"
    "st_stack s1 = of_nat (length ?c) # ls" "stream_Kind s = (Inr (KList, of_nat (length ?c)), snd (stream_Kind s))"
    by (rule list_open [OF assms(1) assms(5) [unfolded e] assms(6) [unfolded e]])
  have sh: "length (st_r s1) < length (st_r s)" using List_shorter [OF assms(1) l(1)] by simp
  have lt: "length ?c < 2 ^ 64" using l(2,3) by (simp add: live_def core_def)
  have z: "(of_nat (length ?c) :: u64) = 0 \<longleftrightarrow> xs = []"
    using unat_of_nat_u64 [OF lt] conv_elems_Nil [of xs] by (simp only: unat_eq_0_iff [symmetric] length_0_conv)
  obtain s2 where s2: "pos s2 = pos (adv (length ?c) s1)"
    "decodeListSlice (\<lambda>s1. decode_elems f t s1) s = Some (list_end id (GSlice vs) s2)"
  proof (cases "xs = []")
    case True
    then show ?thesis using that [of s1] l z assms(4) pos_adv_0 [OF l(2)] by (simp add: decodeListSlice_def)
  next
    case False
    obtain s2 where "decode_elems f t s1 = Some (Inr vs, s2)" "pos s2 = pos (adv (length ?c) s1)"
      using elems_completeD [OF assms(3) l(2) assms(2,4) l(3)] l(4) sh assms(7) by (auto simp: listLimit_def)
    then show ?thesis using that [of s2] l(1) z False by (simp add: decodeListSlice_def)
  qed
  obtain s' where s': "list_end id (GSlice vs) s2 = (Inr (GSlice vs), s')" using list_close [OF l(4) s2(1)] by blast
  have "pos s' = pos (adv (length (rlp_enc (RList xs))) s)"
    using list_body_sound [OF assms(1) l(1) l(3) s2(1) s'] e by simp
  then show ?thesis using s2(2) s' l(5) by auto
qed

lemma struct_complete:
  assumes "live s" "\<forall>t \<in> set ts. ty_ok t" "\<And>s1. fields_complete f ts s1" "conv_fields ts xs = Some vs"
    "st_r s = rlp_enc (RList xs) @ rest" "room (length (rlp_enc (RList xs))) s" "2 * length (st_r s) \<le> f"
  shows "\<exists>s'. decodeStruct (\<lambda>s1. decode_fields f ts s1) s = Some (Inr (GStruct vs), s') \<and>
     pos s' = pos (adv (length (rlp_enc (RList xs))) s)"
proof -
  let ?c = "concat (map rlp_enc xs)"
  have e: "rlp_enc (RList xs) = rlp_head 0xC0 0xF7 (length ?c) @ ?c" by (simp add: Let_def)
  obtain s1 ls where l: "stream_List s = (Inr (of_nat (length ?c)), s1)" "live s1" "st_r s1 = ?c @ rest"
    "st_stack s1 = of_nat (length ?c) # ls"
    by (rule list_open [OF assms(1) assms(5) [unfolded e] assms(6) [unfolded e]])
  have sh: "length (st_r s1) < length (st_r s)" using List_shorter [OF assms(1) l(1)] by simp
  have lt: "length ?c < 2 ^ 64" using l(2,3) by (simp add: live_def core_def)
  have rm: "room (length ?c) s1" using l(4) unat_of_nat_u64 [OF lt] by (simp add: room_def)
  obtain s2 where s2: "decode_fields f ts s1 = Some (Inr vs, s2)" "pos s2 = pos (adv (length ?c) s1)"
    using fields_completeD [OF assms(3) l(2) assms(2,4) l(3) rm] sh assms(7) by auto
  obtain s' where s': "list_end wrapStreamError (GStruct vs) s2 = (Inr (GStruct vs), s')" using list_close [OF l(4) s2(2)] by blast
  have "pos s' = pos (adv (length (rlp_enc (RList xs))) s)"
    using list_body_sound [OF assms(1) l(1) l(3) s2(2) s'] e by simp
  then show ?thesis using s2(1) s' l(1) by (auto simp: decodeStruct_def)
qed

lemma scalar_conv: "scalar t \<Longrightarrow> conv t x = Some v \<Longrightarrow> \<exists>b. x = RString b"
  by (cases t; cases x) auto

lemma scalar_complete:
  assumes "scalar t"
  shows "val_complete f t s"
  unfolding val_complete_def
proof (intro allI impI)
  fix x v rest
  assume a: "live s" "ty_ok t" "conv t x = Some v" "st_r s = rlp_enc x @ rest" "room (length (rlp_enc x)) s"
  obtain b where b: "x = RString b" using scalar_conv [OF assms a(3)] by blast
  then obtain s' where s': "stream_Bytes s = (Inr b, s')" using Bytes_complete [OF a(1)] a(4,5) by auto
  then have "pos s' = pos (adv (length (rlp_str b)) s)" using Bytes_sound [OF a(1) s'] by auto
  then show "\<exists>s'. decode_val f t s = Some (Inr v, s') \<and> pos s' = pos (adv (length (rlp_enc x)) s)"
    using scalar_decode [OF a(1,2) assms] s' a(3) b by auto
qed

lemma interface_complete:
  assumes "\<And>s1. elems_complete f TInterface s1"
  shows "val_complete (Suc f) TInterface s"
  unfolding val_complete_def
proof (intro allI impI)
  fix x v rest
  assume a: "live s" "conv TInterface x = Some v" "st_r s = rlp_enc x @ rest" "room (length (rlp_enc x)) s"
    "2 * length (st_r s) < Suc f"
  show "\<exists>s'. decode_val (Suc f) TInterface s = Some (Inr v, s') \<and> pos s' = pos (adv (length (rlp_enc x)) s)"
  proof (cases x)
    case (RString b)
    then obtain s' where s': "stream_Bytes s = (Inr b, s')" using Bytes_complete [OF a(1)] a(3,4) by auto
    then obtain k sz s1 where K: "stream_Kind s = (Inr (k, sz), s1)" "k \<noteq> KList"
      by (auto simp: stream_Bytes_def split: prod.splits sum.splits RlpKind.splits)
    have c: "stream_Kind s1 = stream_Kind s" using Kind_again [OF K(1)] K(1) by simp
    have "pos s' = pos (adv (length (rlp_str b)) s)" using Bytes_sound [OF a(1) s'] by auto
    then show ?thesis using RString K s' a(2) stream_Kind_cong(1) [OF c] by (simp add: decodeInterface_def)
  next
    case (RList xs)
    then obtain vs where vs: "conv_elems TInterface xs = Some vs" "v = GInterface (Some (GSlice vs))" using a(2) by auto
    obtain s' sz s1 where s': "decodeListSlice (\<lambda>s1. decode_elems f TInterface s1) s = Some (Inr (GSlice vs), s')"
      "pos s' = pos (adv (length (rlp_enc x)) s)" "stream_Kind s = (Inr (KList, sz), s1)"
      using slice_complete [OF a(1) _ assms vs(1), of rest] a(3-5) RList by fastforce
    have c: "stream_Kind s1 = stream_Kind s" using Kind_again [OF s'(3)] s'(3) by simp
    show ?thesis using s' vs(2) stream_Kind_cong(7) [OF c] by (simp add: decodeInterface_def)
  qed
qed

lemma Kind_empty:
  assumes "live s" "st_r s = rlp_enc x @ rest" "room (length (rlp_enc x)) s"
    "x = (if k = KString then RString [] else RList [])" "k \<noteq> KByte"
  shows "\<exists>s1. stream_Kind s = (Inr (k, 0), s1)"
proof -
  have h: "rlp_enc x = khead k 0" "head_ok k 0 (khead k 0) 0"
    using assms(4,5) by (cases k; simp add: khead_def rlp_head_def head_ok_def)+
  show ?thesis using Kind_complete [OF assms(1), of "khead k 0" rest 0 k 0] assms(2,3) h by simp
qed

lemma hd_rlp_enc:
  assumes "length (rlp_enc x) < 2 ^ 64"
  shows "hd (rlp_enc x) = 0x80 \<Longrightarrow> x = RString []" "hd (rlp_enc x) = 0xC0 \<Longrightarrow> x = RList []"
proof -
  have "(hd (rlp_enc x) = 0x80 \<longrightarrow> x = RString []) \<and> (hd (rlp_enc x) = 0xC0 \<longrightarrow> x = RList [])"
  proof (cases x)
    case (RString b)
    show ?thesis
    proof (cases "length b = 1 \<and> hd b < 0x80")
      case True
      then show ?thesis using RString by (auto simp: rlp_str_def word_less_nat_alt)
    next
      case False
      have l: "length b < 2 ^ 64" using assms RString length_rlp_str [of b] by simp
      have "hd (rlp_str b) = hd (khead KString (length b))"
        using rlp_str_head [OF False] length_khead [of KString "length b"] by (metis hd_append2 length_greater_0_conv)
      then show ?thesis using RString hd_khead(1,2) [OF l] by auto
    qed
  next
    case (RList xs)
    let ?c = "concat (map rlp_enc xs)"
    have l: "length ?c < 2 ^ 64" using assms RList by (simp add: Let_def)
    have "hd (rlp_enc x) = hd (khead KList (length ?c))"
      using RList length_khead [of KList "length ?c"] by (simp add: Let_def khead_def hd_append)
    then show ?thesis using RList hd_khead(3,4) [OF l] conv_elems_Nil [of xs] by auto
  qed
  then show "hd (rlp_enc x) = 0x80 \<Longrightarrow> x = RString []" "hd (rlp_enc x) = 0xC0 \<Longrightarrow> x = RList []" by auto
qed

lemma Kind_nonempty:
  assumes "live s" "st_r s = rlp_enc x @ rest" "x \<noteq> RString []" "x \<noteq> RList []" "stream_Kind s = (Inr (k, sz), s1)"
  shows "\<not> (k \<noteq> KByte \<and> sz = 0)"
proof
  assume a: "k \<noteq> KByte \<and> sz = 0"
  obtain rest' where "st_r s = rlp_enc (if k = KString then RString [] else RList []) @ rest'"
    using empty_head [OF assms(1), of k s1] assms(5) a by auto
  then have "hd (st_r s) = 0x80 \<or> hd (st_r s) = 0xC0" by (auto simp: rlp_head_def split: if_splits)
  moreover have "hd (st_r s) = hd (rlp_enc x)" using assms(2) length_rlp_enc [of x] by (simp add: hd_append)
  moreover have "length (rlp_enc x) < 2 ^ 64" using assms(1,2) by (simp add: live_def core_def)
  ultimately show False using hd_rlp_enc [of x] assms(3,4) by auto
qed

lemma decode_val_Kind: "decode_val f t s = Some (Inr v, s') \<Longrightarrow> \<exists>k sz s1. stream_Kind s = (Inr (k, sz), s1)"
proof (induction t arbitrary: v s')
  case (TPtr nk t)
  then show ?case by (auto simp: decodeSimplePtr_def split: option.splits prod.splits sum.splits)
next
  case TInterface
  then show ?case by (cases f) (auto simp: decodeInterface_def split: prod.splits sum.splits)
qed (auto simp: decodeBigInt_def decodeUint_def decodeBool_def decodeString_def decodeByteSlice_def wrap_res_Inr decodeByteArray_def
    decodeListSlice_def decodeStruct_def decodeNilPtr_def stream_List_def stream_decodeBigInt_def stream_Bool_def stream_uint_def
    stream_Bytes_def Let_def split: prod.splits sum.splits)

lemma nilptr_complete:
  assumes "val_complete f t s"
  shows "val_complete f (TNilPtr nk t) s"
  unfolding val_complete_def
proof (intro allI impI)
  fix x v rest
  assume a: "live s" "ty_ok (TNilPtr nk t)" "conv (TNilPtr nk t) x = Some v" "st_r s = rlp_enc x @ rest"
    "room (length (rlp_enc x)) s" "2 * length (st_r s) < f"
  show "\<exists>s'. decode_val f (TNilPtr nk t) s = Some (Inr v, s') \<and> pos s' = pos (adv (length (rlp_enc x)) s)"
  proof (cases "x = RString [] \<or> x = RList []")
    case True
    then have nk: "nk \<noteq> KByte" "x = (if nk = KString then RString [] else RList [])" "v = GPtr nk None"
      using a(3) by (auto split: if_splits)
    obtain s1 where K: "stream_Kind s = (Inr (nk, 0), s1)" using Kind_empty [OF a(1,4,5) nk(2,1)] by blast
    then have "pos (rearm s1) = pos (adv (length (rlp_enc x)) s)" using empty_head [OF a(1) K nk(1)] nk(2) by auto
    then show ?thesis using K nk by (simp add: decodeNilPtr_def)
  next
    case False
    then obtain v1 where v1: "conv t x = Some v1" "v = GPtr nk (Some v1)" using a(3) by auto
    obtain s' where s': "decode_val f t s = Some (Inr v1, s')" "pos s' = pos (adv (length (rlp_enc x)) s)"
      using val_completeD [OF assms a(1) _ v1(1) a(4-6)] a(2) by auto
    obtain k sz s1 where K: "stream_Kind s = (Inr (k, sz), s1)" using decode_val_Kind [OF s'(1)] by blast
    have "\<not> (k \<noteq> KByte \<and> sz = 0)" using Kind_nonempty [OF a(1,4) _ _ K] False by blast
    then show ?thesis using K s' v1(2) decode_after_Kind [OF K, of f t] by (auto simp: decodeNilPtr_def)
  qed
qed

lemma elems_complete_step:
  assumes "val_complete f t s" "\<And>v s1. decode_val f t s = Some (Inr v, s1) \<Longrightarrow> elems_complete f t s1"
  shows "elems_complete (Suc f) t s"
  unfolding elems_complete_def
proof (intro allI impI)
  fix xs vs rest
  assume a: "live s" "ty_ok t" "conv_elems t xs = Some vs" "st_r s = concat (map rlp_enc xs) @ rest"
    "listLimit s = Some (of_nat (length (concat (map rlp_enc xs))))" "2 * length (st_r s) + 1 < Suc f"
  show "\<exists>s'. decode_elems (Suc f) t s = Some (Inr vs, s') \<and> pos s' = pos (adv (length (concat (map rlp_enc xs))) s)"
  proof (cases xs)
    case Nil
    then have "decode_val f t s = Some (Inl EOL, s)"
      using a Kind_EOL_decode [of s s f t] Kind_EOL [OF a(1)] by simp
    then show ?thesis using Nil a(3) pos_adv_0 [OF a(1)] by simp
  next
    case (Cons x ys)
    obtain v ws where v: "conv t x = Some v" "conv_elems t ys = Some ws" "vs = v # ws"
      using a(3) Cons by (auto split: option.splits)
    have r: "st_r s = rlp_enc x @ concat (map rlp_enc ys) @ rest" using a(4) Cons by simp
    have lt: "length (concat (map rlp_enc xs)) < 2 ^ 64" using a(1,4) by (simp add: live_def core_def)
    have rm: "room (length (rlp_enc x)) s"
      using a(5) unat_of_nat_u64 [OF lt] Cons by (auto simp: listLimit_def room_def split: list.splits)
    obtain s1 where s1: "decode_val f t s = Some (Inr v, s1)" "pos s1 = pos (adv (length (rlp_enc x)) s)"
      using val_completeD [OF assms(1) a(1,2) v(1) r rm] a(6) by auto
    have l1: "live s1" "st_r s1 = concat (map rlp_enc ys) @ rest" using live_after [OF a(1) r s1(2)] by auto
    have lim: "listLimit s1 = Some (of_nat (length (concat (map rlp_enc ys))))"
      using a(5) Cons pos_fields [OF s1(2)] by (auto simp: listLimit_def split: list.splits)
    have "length (st_r s1) < length (st_r s)" using val_shorter [OF a(1,2) s1(1)] by simp
    then obtain s' where s': "decode_elems f t s1 = Some (Inr ws, s')"
      "pos s' = pos (adv (length (concat (map rlp_enc ys))) s1)"
      using elems_completeD [OF assms(2) [OF s1(1)] l1(1) a(2) v(2) l1(2) lim] a(6) by auto
    show ?thesis using s1(1) s'(1) v(3) Cons pos_after [OF s1(2) s'(2)] by simp
  qed
qed

lemma fields_complete_step:
  assumes "val_complete f t s" "\<And>v s1. decode_val f t s = Some (Inr v, s1) \<Longrightarrow> fields_complete f ts s1"
  shows "fields_complete f (t # ts) s"
  unfolding fields_complete_def
proof (intro allI impI)
  fix xs vs rest
  assume a: "live s" "\<forall>u \<in> set (t # ts). ty_ok u" "conv_fields (t # ts) xs = Some vs"
    "st_r s = concat (map rlp_enc xs) @ rest" "room (length (concat (map rlp_enc xs))) s" "2 * length (st_r s) < f"
  obtain x ys where xs: "xs = x # ys" using a(3) by (cases xs) auto
  obtain v ws where v: "conv t x = Some v" "conv_fields ts ys = Some ws" "vs = v # ws"
    using a(3) xs by (auto split: option.splits)
  have r: "st_r s = rlp_enc x @ concat (map rlp_enc ys) @ rest" using a(4) xs by simp
  have rm: "room (length (rlp_enc x)) s" "st_stack s \<noteq> [] \<longrightarrow> room (length (concat (map rlp_enc ys))) (adv (length (rlp_enc x)) s)"
    using room_add [of "length (rlp_enc x)" "length (concat (map rlp_enc ys))" s] a(5) xs by simp_all
  obtain s1 where s1: "decode_val f t s = Some (Inr v, s1)" "pos s1 = pos (adv (length (rlp_enc x)) s)"
    using val_completeD [OF assms(1) a(1) _ v(1) r rm(1) a(6)] a(2) by auto
  have l1: "live s1" "st_r s1 = concat (map rlp_enc ys) @ rest" using live_after [OF a(1) r s1(2)] by auto
  have rm1: "room (length (concat (map rlp_enc ys))) s1"
    using rm(2) room_pos [OF s1(2)] by (cases "st_stack s") (simp_all add: room_def)
  have "length (st_r s1) < length (st_r s)" using val_shorter [OF a(1) _ s1(1)] a(2) by simp
  then obtain s' where s': "decode_fields f ts s1 = Some (Inr ws, s')"
    "pos s' = pos (adv (length (concat (map rlp_enc ys))) s1)"
    using fields_completeD [OF assms(2) [OF s1(1)] l1(1) _ v(2) l1(2) rm1] a(2,6) by auto
  show "\<exists>s'. decode_fields f (t # ts) s = Some (Inr vs, s') \<and> pos s' = pos (adv (length (concat (map rlp_enc xs))) s)"
    using s1(1) s'(1) v(3) xs pos_after [OF s1(2) s'(2)] by simp
qed

lemma decode_complete: "val_complete f t s" "elems_complete f t s" "fields_complete f ts s"
proof (induction f t s and f t s and f ts s rule: decode_val_decode_elems_decode_fields.induct)
  case (7 fuel t s)
  show ?case unfolding val_complete_def
  proof (intro allI impI)
    fix x v rest
    assume a: "live s" "ty_ok (TSlice t)" "conv (TSlice t) x = Some v" "st_r s = rlp_enc x @ rest"
      "room (length (rlp_enc x)) s" "2 * length (st_r s) < fuel"
    obtain xs vs where x: "x = RList xs" "conv_elems t xs = Some vs" "v = GSlice vs" using a(3) by (cases x) auto
    show "\<exists>s'. decode_val fuel (TSlice t) s = Some (Inr v, s') \<and> pos s' = pos (adv (length (rlp_enc x)) s)"
      using slice_complete [OF a(1) _ 7 x(2), of rest] a x by auto
  qed
next
  case (8 fuel ts s)
  show ?case unfolding val_complete_def
  proof (intro allI impI)
    fix x v rest
    assume a: "live s" "ty_ok (TStruct ts)" "conv (TStruct ts) x = Some v" "st_r s = rlp_enc x @ rest"
      "room (length (rlp_enc x)) s" "2 * length (st_r s) < fuel"
    obtain xs vs where x: "x = RList xs" "conv_fields ts xs = Some vs" "v = GStruct vs" using a(3) by (cases x) auto
    show "\<exists>s'. decode_val fuel (TStruct ts) s = Some (Inr v, s') \<and> pos s' = pos (adv (length (rlp_enc x)) s)"
      using struct_complete [OF a(1) _ 8 x(2), of rest] a x by auto
  qed
next
  case (9 fuel nk t s)
  show ?case using 9 [of s] unfolding val_complete_def by (fastforce simp: decodeSimplePtr_def)
next
  case (10 fuel nk t s)
  then show ?case by (intro nilptr_complete)
next
  case (11 s)
  show ?case by (simp add: val_complete_def)
next
  case (12 fuel s)
  then show ?case by (intro interface_complete)
next
  case (13 t s)
  show ?case by (simp add: elems_complete_def)
next
  case (14 fuel t s)
  then show ?case by (intro elems_complete_step) auto
next
  case (15 fuel s)
  show ?case unfolding fields_complete_def
  proof (intro allI impI)
    fix xs vs rest
    assume "live s" "conv_fields [] xs = Some vs"
    then show "\<exists>s'. decode_fields fuel [] s = Some (Inr vs, s') \<and> pos s' = pos (adv (length (concat (map rlp_enc xs))) s)"
      using pos_adv_0 [of s] by (cases xs) auto
  qed
next
  case (16 fuel t ts s)
  then show ?case by (intro fields_complete_step) auto
qed (simp_all add: scalar_complete)

end
