(* ===== verification/Rlp_Props.thy ===== *)
theory Rlp_Props
  imports Rlp_Decode
begin

text \<open>
  What the RLP codec guarantees: the encoder writes the reference encoding, the decoder accepts exactly
  the reference encodings, typed values survive the round trip, and the slice functions agree with both.
\<close>

section \<open>Whole inputs\<close>

lemma live_reset: "length b < 2 ^ 64 \<Longrightarrow> live (Stream_Reset auto_limit b (of_nat (length b)))"
  by (auto simp: live_def core_def Stream_Reset_def)

lemma live_reset_reader: "length b < 2 ^ 64 \<Longrightarrow> live (Stream_Reset True b 0)"
  by (simp add: live_def core_def Stream_Reset_def)

lemma room_reset: "room n (Stream_Reset auto_limit b m)"
  by (simp add: room_def Stream_Reset_def)

lemma reset_r: "st_r (Stream_Reset auto_limit b m) = b"
  by (simp add: Stream_Reset_def)

lemma decode_reset_iff:
  assumes "ty_ok t" "live s" "st_stack s = []"
  shows "(\<exists>s'. decode_val (decode_fuel (st_r s)) t s = Some (Inr v, s') \<and> st_r s' = rest) \<longleftrightarrow>
     (\<exists>x. st_r s = rlp_enc x @ rest \<and> conv t x = Some v)"
proof
  assume "\<exists>s'. decode_val (decode_fuel (st_r s)) t s = Some (Inr v, s') \<and> st_r s' = rest"
  then obtain s' where s': "decode_val (decode_fuel (st_r s)) t s = Some (Inr v, s')" "st_r s' = rest" by blast
  obtain x rest' where x: "conv t x = Some v" "st_r s = rlp_enc x @ rest'" "pos s' = pos (adv (length (rlp_enc x)) s)"
    using decode_sound(1) [of "decode_fuel (st_r s)" t s] assms s'(1) unfolding val_sound_def by blast
  then show "\<exists>x. st_r s = rlp_enc x @ rest \<and> conv t x = Some v" using live_after [OF assms(2) x(2,3)] s'(2) by auto
next
  assume "\<exists>x. st_r s = rlp_enc x @ rest \<and> conv t x = Some v"
  then obtain x where x: "st_r s = rlp_enc x @ rest" "conv t x = Some v" by blast
  have "room (length (rlp_enc x)) s" using assms(3) by (simp add: room_def)
  moreover have "2 * length (st_r s) < decode_fuel (st_r s)" by (simp add: decode_fuel_def)
  ultimately obtain s' where s': "decode_val (decode_fuel (st_r s)) t s = Some (Inr v, s')"
    "pos s' = pos (adv (length (rlp_enc x)) s)"
    using val_completeD [OF decode_complete(1) assms(2,1) x(2,1)] by blast
  then show "\<exists>s'. decode_val (decode_fuel (st_r s)) t s = Some (Inr v, s') \<and> st_r s' = rest"
    using live_after [OF assms(2) x(1)] by blast
qed

lemma decode_reset_total:
  assumes "ty_ok t" "live s"
  shows "decode_val (decode_fuel (st_r s)) t s \<noteq> None"
  using decode_total(1) [of "decode_fuel (st_r s)" t s] assms by (simp add: val_total_def decode_fuel_def)

lemma rlp_Decode_iff:
  assumes "ty_ok t" "length r < 2 ^ 64"
  shows "rlp_Decode t r = Some (Inr (v, rest)) \<longleftrightarrow> (\<exists>x. r = rlp_enc x @ rest \<and> conv t x = Some v)"
    "rlp_Decode t r \<noteq> None"
proof -
  let ?s = "Stream_Reset True r 0"
  have l: "live ?s" "st_stack ?s = []" using live_reset_reader [OF assms(2)] by (simp_all add: Stream_Reset_def)
  show "rlp_Decode t r = Some (Inr (v, rest)) \<longleftrightarrow> (\<exists>x. r = rlp_enc x @ rest \<and> conv t x = Some v)"
    using decode_reset_iff [OF assms(1) l, of v rest]
    by (auto simp: rlp_Decode_def reset_r split: option.splits prod.splits sum.splits)
  show "rlp_Decode t r \<noteq> None"
    using decode_reset_total [OF assms(1) l(1)] by (auto simp: rlp_Decode_def reset_r split: prod.splits sum.splits)
qed

lemma DecodeBytes_iff:
  assumes "ty_ok t" "length b < 2 ^ 64"
  shows "DecodeBytes t b = Some (Inr v) \<longleftrightarrow> (\<exists>x. b = rlp_enc x \<and> conv t x = Some v)" "DecodeBytes t b \<noteq> None"
proof -
  let ?s = "Stream_Reset False b (of_nat (length b))"
  have l: "live ?s" "st_stack ?s = []" by (rule live_reset [OF assms(2)]) (simp add: Stream_Reset_def)
  show "DecodeBytes t b = Some (Inr v) \<longleftrightarrow> (\<exists>x. b = rlp_enc x \<and> conv t x = Some v)"
    using decode_reset_iff [OF assms(1) l, of v "[]"]
    by (auto simp: DecodeBytes_def reset_r split: option.splits prod.splits sum.splits if_splits)
  show "DecodeBytes t b \<noteq> None"
    using decode_reset_total [OF assms(1) l(1)] by (auto simp: DecodeBytes_def reset_r split: prod.splits sum.splits)
qed

section \<open>The encoding is prefix free\<close>

lemma conv_any: "\<exists>v. conv TInterface x = Some v"
proof (induction x)
  case (RList xs)
  then have "\<exists>vs. conv_elems TInterface xs = Some vs" by (induction xs) fastforce+
  then show ?case by auto
qed simp

lemma conv_any_inj: "conv TInterface x = conv TInterface y \<Longrightarrow> x = y"
proof (induction x arbitrary: y)
  case (RString b)
  then show ?case using conv_any [of y] by (cases y) auto
next
  case (RList xs)
  have "conv_elems TInterface xs = conv_elems TInterface ys \<Longrightarrow> xs = ys" for ys
    using RList.IH
  proof (induction xs arbitrary: ys)
    case Nil
    then show ?case by (cases ys) (auto split: option.splits)
  next
    case (Cons x xs)
    obtain v where v: "conv TInterface x = Some v" using conv_any by blast
    obtain vs where vs: "conv_elems TInterface xs = Some vs" using conv_any [of "RList xs"] by auto
    show ?case
    proof (cases ys)
      case Nil
      then show ?thesis using Cons.prems v vs by simp
    next
      case (Cons y ys')
      then have "conv TInterface y = Some v" "conv_elems TInterface ys' = Some vs"
        using Cons.prems(1) v vs by (auto split: option.splits)
      then have "x = y" "xs = ys'"
        using Cons.IH [of ys'] Cons.prems(2) [of x y] Cons.prems(2) v vs by simp_all
      then show ?thesis using Cons by simp
    qed
  qed
  note elems = this
  obtain vs where vs: "conv_elems TInterface xs = Some vs" using conv_any [of "RList xs"] by auto
  show ?case
  proof (cases y)
    case (RString b)
    then show ?thesis using RList.prems vs by simp
  next
    case (RList ys)
    obtain ws where ws: "conv_elems TInterface ys = Some ws" using conv_any [of "RList ys"] by auto
    have "conv_elems TInterface xs = conv_elems TInterface ys" using RList.prems RList vs ws by simp
    then show ?thesis using elems [of ys] RList by simp
  qed
qed

lemma rlp_enc_prefix_free:
  assumes "rlp_enc x @ r = rlp_enc y @ r'" "length (rlp_enc x @ r) < 2 ^ 64"
  shows "x = y \<and> r = r'"
proof -
  obtain v where v: "conv TInterface x = Some v" using conv_any by blast
  obtain w where w: "conv TInterface y = Some w" using conv_any by blast
  have "rlp_Decode TInterface (rlp_enc x @ r) = Some (Inr (v, r))"
    using rlp_Decode_iff(1) [OF _ assms(2), of TInterface v r] v by auto
  moreover have "rlp_Decode TInterface (rlp_enc x @ r) = Some (Inr (w, r'))"
    using rlp_Decode_iff(1) [OF _ assms(2), of TInterface w r'] w assms(1) by auto
  ultimately show ?thesis using v w conv_any_inj by auto
qed

lemma rlp_enc_inj: "rlp_enc x = rlp_enc y \<Longrightarrow> length (rlp_enc x) < 2 ^ 64 \<Longrightarrow> x = y"
  using rlp_enc_prefix_free [of x "[]" y "[]"] by simp

section \<open>Typed values\<close>

text \<open>The values of a type whose decoding gives them back; a nil \<^verbatim>\<open>big.Int\<close> is not among them.\<close>

fun plain :: "GoVal \<Rightarrow> bool" where
  "plain (GInterface (Some (GBytes b))) \<longleftrightarrow> True"
| "plain (GInterface (Some (GSlice vs))) \<longleftrightarrow> (\<forall>v \<in> set vs. plain v)"
| "plain _ \<longleftrightarrow> False"

fun has_type :: "GoType \<Rightarrow> GoVal \<Rightarrow> bool" where
  "has_type TBigInt v \<longleftrightarrow> (case v of GBigInt (Some i) \<Rightarrow> 0 \<le> i | _ \<Rightarrow> False)"
| "has_type (TUint bits) v \<longleftrightarrow> (case v of GUint n \<Rightarrow> unat n < 256 ^ (bits div 8) | _ \<Rightarrow> False)"
| "has_type TBool v \<longleftrightarrow> (case v of GBool b \<Rightarrow> True | _ \<Rightarrow> False)"
| "has_type TString v \<longleftrightarrow> (case v of GString b \<Rightarrow> True | _ \<Rightarrow> False)"
| "has_type TBytes v \<longleftrightarrow> (case v of GBytes b \<Rightarrow> True | _ \<Rightarrow> False)"
| "has_type (TByteArray n) v \<longleftrightarrow> (case v of GByteArray b \<Rightarrow> length b = n | _ \<Rightarrow> False)"
| "has_type (TSlice t) v \<longleftrightarrow> (case v of GSlice vs \<Rightarrow> (\<forall>w \<in> set vs. has_type t w) | _ \<Rightarrow> False)"
| "has_type (TStruct ts) v \<longleftrightarrow> (case v of GStruct vs \<Rightarrow> list_all2 (\<lambda>t w. has_type t w) ts vs | _ \<Rightarrow> False)"
| "has_type (TPtr nk t) v \<longleftrightarrow> (case v of GPtr nk' (Some w) \<Rightarrow> nk' = nk \<and> has_type t w | _ \<Rightarrow> False)"
| "has_type (TNilPtr nk t) v \<longleftrightarrow>
     (case v of
        GPtr nk' None \<Rightarrow> nk' = nk \<and> nk \<noteq> KByte
      | GPtr nk' (Some w) \<Rightarrow>
          nk' = nk \<and> has_type t w \<and> val_rlp w \<noteq> Some (RString []) \<and> val_rlp w \<noteq> Some (RList [])
      | _ \<Rightarrow> False)"
| "has_type TInterface v \<longleftrightarrow> plain v"

lemma conv_elems_all:
  "\<forall>v \<in> set vs. \<exists>x. val_rlp v = Some x \<and> conv t x = Some v \<Longrightarrow>
   \<exists>xs. vals_rlp vs = Some xs \<and> conv_elems t xs = Some vs"
proof (induction vs)
  case (Cons v vs)
  then obtain x xs where "val_rlp v = Some x" "conv t x = Some v" "vals_rlp vs = Some xs" "conv_elems t xs = Some vs" by auto
  then show ?case by (intro exI [of _ "x # xs"]) simp
qed simp

lemma conv_fields_all:
  "list_all2 (\<lambda>t v. \<exists>x. val_rlp v = Some x \<and> conv t x = Some v) ts vs \<Longrightarrow>
   \<exists>xs. vals_rlp vs = Some xs \<and> conv_fields ts xs = Some vs"
proof (induction ts vs rule: list_all2_induct)
  case (Cons t ts v vs)
  then obtain x xs where "val_rlp v = Some x" "conv t x = Some v" "vals_rlp vs = Some xs" "conv_fields ts xs = Some vs" by auto
  then show ?case by (intro exI [of _ "x # xs"]) simp
qed simp

lemma conv_plain: "plain v \<Longrightarrow> \<exists>x. val_rlp v = Some x \<and> conv TInterface x = Some v"
proof (induction v rule: plain.induct)
  case (2 vs)
  then obtain xs where "vals_rlp vs = Some xs" "conv_elems TInterface xs = Some vs"
    using conv_elems_all [of vs TInterface] by auto
  then show ?case by simp
qed auto

lemma conv_val_rlp: "has_type t v \<Longrightarrow> \<exists>x. val_rlp v = Some x \<and> conv t x = Some v"
proof (induction t v rule: has_type.induct)
  case (1 v)
  then obtain i where "v = GBigInt (Some i)" "0 \<le> i" by (auto split: GoVal.splits option.splits)
  then show ?case using hd_be_min [of "nat i"] by (cases "i = 0") auto
next
  case (2 bits v)
  then obtain n where "v = GUint n" "unat n < 256 ^ (bits div 8)" by (auto split: GoVal.splits)
  then show ?case using hd_be_min [of "unat n"] by (cases "n = 0") (auto simp: length_be_min_le unat_gt_0)
next
  case (7 t v)
  then obtain vs where vs: "v = GSlice vs" "\<forall>w \<in> set vs. has_type t w" by (auto split: GoVal.splits)
  then obtain xs where "vals_rlp vs = Some xs" "conv_elems t xs = Some vs" using conv_elems_all [of vs t] 7 by auto
  then show ?case using vs(1) by simp
next
  case (8 ts v)
  then obtain vs where vs: "v = GStruct vs" "list_all2 (\<lambda>t w. has_type t w) ts vs" by (auto split: GoVal.splits)
  have "list_all2 (\<lambda>t v. \<exists>x. val_rlp v = Some x \<and> conv t x = Some v) ts vs"
  proof (rule list.rel_mono_strong [OF vs(2)])
    fix t w
    assume "t \<in> set ts" "w \<in> set vs" "has_type t w"
    then show "\<exists>x. val_rlp w = Some x \<and> conv t x = Some w" by (rule 8(1) [OF vs(1)])
  qed
  then obtain xs where "vals_rlp vs = Some xs" "conv_fields ts xs = Some vs" using conv_fields_all by blast
  then show ?case using vs(1) by simp
next
  case (9 nk t v)
  then show ?case by (auto split: GoVal.splits option.splits)
next
  case (10 nk t v)
  then obtain pv where v: "v = GPtr nk pv" by (auto split: GoVal.splits option.splits)
  show ?case
  proof (cases pv)
    case None
    then show ?thesis using 10(2) v by (cases nk) auto
  next
    case (Some w)
    then have w: "has_type t w" "val_rlp w \<noteq> Some (RString [])" "val_rlp w \<noteq> Some (RList [])"
      using 10(2) v by auto
    then obtain x where "val_rlp w = Some x" "conv t x = Some w" using 10(1) [OF v] Some by blast
    then show ?thesis using v Some w(2,3) by simp
  qed
next
  case (11 v)
  then show ?case using conv_plain by simp
qed (auto split: GoVal.splits)

section \<open>Slices\<close>

lemma le_val_append: "le_val (xs @ ys) = le_val xs + 256 ^ length xs * le_val ys"
  by (induction xs) (simp_all add: algebra_simps)

lemma be_val_Cons: "be_val (b # bs) = unat b * 256 ^ length bs + be_val bs"
  by (simp add: be_val_def le_val_append)

lemma or_disjoint:
  assumes "n < 2 ^ k"
  shows "or (push_bit k w) (of_nat n :: u64) = push_bit k w + of_nat n"
proof (rule disjunctive_add [symmetric])
  fix m
  have "take_bit k n = n" using assms by (simp add: take_bit_eq_mod)
  then have "bit n m \<Longrightarrow> m < k" by (metis bit_take_bit_iff)
  then show "\<not> bit (push_bit k w) m \<or> \<not> bit (of_nat n :: u64) m"
    by (auto simp: bit_push_bit_iff bit_of_nat_iff)
qed

lemma shift_or_eq: "shift_or bs acc = or (of_nat (be_val bs)) acc"
proof (induction bs arbitrary: acc)
  case (Cons b bs)
  have "be_val bs < 2 ^ (8 * length bs)" using be_val_less [of bs] by (simp add: power_mult)
  then have "or (push_bit (8 * length bs) (ucast b)) (of_nat (be_val bs) :: u64) =
      push_bit (8 * length bs) (ucast b) + of_nat (be_val bs)"
    by (rule or_disjoint)
  also have "\<dots> = of_nat (be_val (b # bs))"
    by (simp add: be_val_Cons push_bit_eq_mult power_mult)
  finally have e: "or (push_bit (8 * length bs) (ucast b)) (of_nat (be_val bs)) = (of_nat (be_val (b # bs)) :: u64)" .
  have "shift_or (b # bs) acc = or (of_nat (be_val bs)) (or (push_bit (8 * length bs) (ucast b)) acc)"
    using Cons by simp
  also have "\<dots> = or (or (push_bit (8 * length bs) (ucast b)) (of_nat (be_val bs))) acc"
    by (simp only: or.assoc or.left_commute)
  finally show ?case by (simp only: e)
qed simp

lemma readSize_eq:
  assumes "1 \<le> n" "n \<le> 8" "n \<le> length b"
  shows "readSize b n =
     Some (if be_val (take n b) < 56 \<or> hd b = 0 then Inl ErrCanonSize else Inr (of_nat (be_val (take n b))))"
proof -
  have u: "unat (of_nat (be_val (take n b)) :: u64) = be_val (take n b)" using assms(2) by (rule be_val_take)
  obtain b0 bs where "b = b0 # bs" using assms(1,3) by (cases b) auto
  then show ?thesis using assms u by (simp add: readSize_def shift_or_eq Let_def word_less_nat_alt)
qed

lemma fits_bound:
  assumes "unat ts \<le> n" "n < 2 ^ 64"
  shows "\<not> (cs :: u64) > of_nat n - ts \<longleftrightarrow> unat ts + unat cs \<le> n"
proof -
  have n: "unat (of_nat n :: u64) = n" using assms(2) by (rule unat_of_nat_u64)
  then have "unat (of_nat n - ts) = n - unat ts" using assms(1) by (simp add: unat_sub word_le_nat_alt)
  then show ?thesis using assms(1) by (simp add: word_less_nat_alt not_less) linarith
qed

definition content_ok :: "RlpKind \<Rightarrow> bytes \<Rightarrow> bool" where
  "content_ok k c \<longleftrightarrow> (k = KString \<longrightarrow> \<not> (length c = 1 \<and> hd c < 0x80))"

definition split_ok :: "RlpKind \<Rightarrow> bytes \<Rightarrow> bytes \<Rightarrow> bytes \<Rightarrow> bool" where
  "split_ok k c rest b \<longleftrightarrow>
     (if k = KByte then length c = 1 \<and> hd c < 0x80 \<and> b = c @ rest else content_ok k c \<and> b = khead k (length c) @ c @ rest)"

lemma readSize_sound:
  assumes "readSize r n = Some (Inr cs)" "n = unat (b - large)" "0 < n" "n \<le> 8"
  shows "n \<le> length r \<and> rlp_head small large (unat cs) = b # take n r"
proof -
  have n: "n \<le> length r" using assms(1) by (auto simp: readSize_def split: if_splits)
  then have h: "56 \<le> be_val (take n r)" "hd r \<noteq> 0" "cs = of_nat (be_val (take n r))"
    using assms(1) readSize_eq [of n r] assms(3,4) by (auto split: if_splits)
  have "rlp_head small large (be_val (take n r)) = b # take n r"
    using n h assms(2,3) by (intro large_head) (auto simp: hd_take)
  then show ?thesis using n h(3) be_val_take [OF assms(4)] by simp
qed

lemma readSize_total: "n \<le> 8 \<Longrightarrow> 0 < n \<Longrightarrow> readSize r n \<noteq> None"
  using readSize_eq [of n r] by (cases "n \<le> length r") (auto simp: readSize_def)

lemma readSize_complete:
  assumes "56 \<le> m" "m < 2 ^ 64"
  shows "readSize (be_min m @ r) (length (be_min m)) = Some (Inr (of_nat m))"
proof -
  have l: "1 \<le> length (be_min m)" "length (be_min m) \<le> 8"
    using assms by (simp add: Suc_le_eq, simp add: length_be_min_le)
  have "hd (be_min m @ r) \<noteq> 0" using hd_be_min [of m] l(1) assms(1) by (simp add: hd_append)
  then show ?thesis using readSize_eq [OF l, of "be_min m @ r"] assms by simp
qed


lemma raw_readKind_sound:
  assumes "length b < 2 ^ 64" "raw_readKind b = Some (Inr (k, ts, cs))"
  shows "unat ts + unat cs \<le> length b \<and>
    (if k = KByte then ts = 0 \<and> cs = 1 \<and> hd b < 0x80
     else take (unat ts) b = khead k (unat cs) \<and> (k = KString \<longrightarrow> cs = 1 \<longrightarrow> \<not> b ! 1 < 0x80))"
proof -
  obtain x r where b: "b = x # r" using assms(2) by (cases b) (simp_all add: raw_readKind_def)
  have sized: "unat ts + unat cs \<le> length b \<and> k = kk \<and> take (unat ts) b = rlp_head small large (unat cs) \<and> 56 \<le> unat cs"
    if "readSize r (unat (x - large)) = Some (Inr cs)" "0 < unat (x - large) \<and> unat (x - large) \<le> 8"
      "ts = of_nat (unat (x - large)) + 1" "\<not> cs > of_nat (length b) - ts" "k = kk" for kk small large
  proof -
    have ts: "unat ts = unat (x - large) + 1"
      using that(2,3) unat_of_nat_u64 [of "unat (x - large) + 1"] by (simp add: add.commute)
    have h: "unat (x - large) \<le> length r" "rlp_head small large (unat cs) = x # take (unat (x - large)) r"
      using readSize_sound [OF that(1) refl, of small] that(2) by simp_all
    have "\<not> cs < 56" using that(1) by (auto simp: readSize_def Let_def split: if_splits list.splits)
    moreover have "unat ts + unat cs \<le> length b" using fits_bound [OF _ assms(1), of ts cs] that(4) ts h(1) b by simp
    ultimately show ?thesis using ts h that(5) b by (simp add: word_less_nat_alt)
  qed
  have small: "unat ts + unat cs \<le> length b \<and> k = kk \<and> take (unat ts) b = rlp_head tag large (unat cs)"
    if "unat (x - tag) < 56" "ts = 1" "cs = ucast (x - tag)" "\<not> cs > of_nat (length b) - ts" "k = kk" for kk tag large
    using small_head [OF that(1), of large] fits_bound [OF _ assms(1), of ts cs] that b by simp
  consider "x < 0x80" | "\<not> x < 0x80" "x < 0xB8" | "\<not> x < 0xB8" "x < 0xC0" | "\<not> x < 0xC0" "x < 0xF8" | "\<not> x < 0xF8"
    by blast
  then show ?thesis
  proof cases
    case 1
    then show ?thesis using assms(2) b by (auto simp: raw_readKind_def Let_def split: if_splits)
  next
    case 2
    then have r: "k = KString" "ts = 1" "cs = ucast (x - 0x80)" "\<not> cs > of_nat (length b) - ts"
      "\<not> (x - 0x80 = 1 \<and> length b > 1 \<and> hd r < 128)"
      using assms(2) b by (auto simp: raw_readKind_def Let_def split: if_splits)
    have "cs = 1 \<Longrightarrow> x - 0x80 = 1" using r(3) unat_ucast_byte [of "x - 0x80"] by (simp add: word_eq_1)
    moreover have "cs = 1 \<Longrightarrow> length b > 1" using small [OF byte_ranges(1) [OF 2] r(2-4) r(1), where large = 0] r(2) by simp
    ultimately show ?thesis
      using small [OF byte_ranges(1) [OF 2] r(2-4) r(1), where large = "0xB7"] r(1,5) b
      by (cases r) (auto simp: khead_def)
  next
    case 3
    then have "\<not> x < 0x80" by (auto simp: word_less_nat_alt)
    then show ?thesis using assms(2) b 3 byte_ranges(2) [OF 3]
        sized [where kk = KString and large = "0xB7" and small = "0x80"]
      by (auto simp: raw_readKind_def Let_def khead_def split: if_splits option.splits sum.splits)
  next
    case 4
    then have "\<not> x < 0x80" "\<not> x < 0xB8" by (auto simp: word_less_nat_alt)
    then show ?thesis using assms(2) b 4 small [OF byte_ranges(3) [OF 4], where kk = KList and large = "0xF7"]
      by (auto simp: raw_readKind_def Let_def khead_def split: if_splits)
  next
    case 5
    then have "\<not> x < 0x80" "\<not> x < 0xB8" "\<not> x < 0xC0" by (auto simp: word_less_nat_alt)
    then show ?thesis using assms(2) b 5 byte_ranges(4) [OF 5]
        sized [where kk = KList and large = "0xF7" and small = "0xC0"]
      by (auto simp: raw_readKind_def Let_def khead_def split: if_splits option.splits sum.splits)
  qed
qed

lemma raw_readKind_total: "raw_readKind b \<noteq> None"
proof (cases b)
  case (Cons x r)
  have "\<not> x < 0xB8 \<Longrightarrow> x < 0xC0 \<Longrightarrow> readSize r (unat (x - 0xB7)) \<noteq> None"
    using byte_ranges(2) [of x] by (intro readSize_total) simp_all
  moreover have "\<not> x < 0xF8 \<Longrightarrow> readSize r (unat (x - 0xF7)) \<noteq> None"
    using byte_ranges(4) [of x] by (intro readSize_total) simp_all
  ultimately show ?thesis using Cons by (auto simp: raw_readKind_def Let_def split: option.splits sum.splits)
qed (simp add: raw_readKind_def)


lemma unat_of_nat_small: "n < 256 \<Longrightarrow> unat (of_nat n :: byte) = n"
  by (simp add: unat_of_nat)

lemma raw_readKind_long:
  assumes "readSize r n = Some (Inr cs)" "\<not> cs > of_nat (length (x # r)) - (of_nat n + 1)"
  shows "\<not> x < 0xB8 \<Longrightarrow> x < 0xC0 \<Longrightarrow> n = unat (x - 0xB7) \<Longrightarrow> raw_readKind (x # r) = Some (Inr (KString, of_nat n + 1, cs))"
    "\<not> x < 0xF8 \<Longrightarrow> n = unat (x - 0xF7) \<Longrightarrow> raw_readKind (x # r) = Some (Inr (KList, of_nat n + 1, cs))"
proof -
  assume x: "\<not> x < 0xB8" "x < 0xC0" "n = unat (x - 0xB7)"
  then have "\<not> x < 0x80" by (auto simp: word_less_nat_alt)
  then show "raw_readKind (x # r) = Some (Inr (KString, of_nat n + 1, cs))"
    using x assms by (auto simp: raw_readKind_def Let_def)
next
  assume x: "\<not> x < 0xF8" "n = unat (x - 0xF7)"
  then have "\<not> x < 0x80" "\<not> x < 0xB8" "\<not> x < 0xC0" by (auto simp: word_less_nat_alt)
  then show "raw_readKind (x # r) = Some (Inr (KList, of_nat n + 1, cs))"
    using x assms by (auto simp: raw_readKind_def Let_def)
qed

lemma raw_readKind_head:
  assumes "k \<noteq> KByte" "length b < 2 ^ 64" "b = khead k (length c) @ c @ rest" "content_ok k c"
  shows "raw_readKind b = Some (Inr (k, of_nat (length (khead k (length c))), of_nat (length c)))"
proof -
  let ?n = "length c" and ?ts = "length (khead k (length c))"
  have le: "?ts + ?n \<le> length b" using assms(3) by simp
  have fit: "\<not> (of_nat ?n :: u64) > of_nat (length b) - of_nat ?ts"
    using fits_bound [of "of_nat ?ts" "length b" "of_nat ?n"] le assms(2) by (simp add: unat_of_nat_u64)
  have n64: "?n < 2 ^ 64" using le assms(2) by simp
  show ?thesis
  proof (cases "?n < 56")
    case True
    then have uc: "(ucast (of_nat ?n :: byte) :: u64) = of_nat ?n"
      using n64 by (intro unsigned_word_eqI [where ?'a = nat]) (simp add: unat_ucast_byte unat_of_nat)
    show ?thesis
    proof (cases "k = KList")
      case List: True
      then have b: "b = (0xC0 + of_nat ?n) # c @ rest" using True assms(3) by (simp add: khead_def rlp_head_def)
      moreover have "?ts = 1" using List True by (simp add: khead_def rlp_head_def)
      ultimately show ?thesis using fit uc head_byte(2) [OF True] True List
        by (simp add: raw_readKind_def Let_def word_less_nat_alt)
    next
      case False
      then have k: "k = KString" using assms(1) by (cases k) auto
      have b: "b = (0x80 + of_nat ?n) # c @ rest" using True False assms(3) by (simp add: khead_def rlp_head_def)
      have ts: "?ts = 1" using False True by (simp add: khead_def rlp_head_def)
      have "\<not> ((of_nat ?n :: byte) = 1 \<and> hd (c @ rest) < 128)"
      proof
        assume *: "(of_nat ?n :: byte) = 1 \<and> hd (c @ rest) < 128"
        then have "?n = 1" using True unat_of_nat_small [of ?n] by simp
        then show False using * assms(4) k by (cases c) (auto simp: content_ok_def)
      qed
      then show ?thesis using fit uc head_byte(1) [OF True] True k b ts
        by (auto simp: raw_readKind_def Let_def word_less_nat_alt)
    qed
  next
    case False
    let ?l = "length (be_min ?n)"
    have l: "0 < ?l" "?l \<le> 8" using False n64 by (auto simp: length_be_min_le)
    have rs: "readSize (be_min ?n @ c @ rest) ?l = Some (Inr (of_nat ?n))" using False n64 by (intro readSize_complete) simp_all
    have ul: "unat (of_nat ?l :: byte) = ?l" using l(2) by (intro unat_of_nat_small) simp
    have ts: "(of_nat ?ts :: u64) = of_nat ?l + 1" using False by (simp add: khead_def rlp_head_def)
    show ?thesis
    proof (cases "k = KList")
      case True
      let ?x = "0xF7 + of_nat ?l :: byte"
      have b: "b = ?x # be_min ?n @ c @ rest" using True False assms(3) by (simp add: khead_def rlp_head_def)
      have "\<not> ?x < 0xF8" "?l = unat (?x - 0xF7)" using head_byte(4) [OF l] l ul by (simp_all add: word_less_nat_alt)
      then have "raw_readKind b = Some (Inr (KList, of_nat ?l + 1, of_nat ?n))"
        using raw_readKind_long(2) [OF rs fit [unfolded b ts]] unfolding b by blast
      then show ?thesis by (simp only: True ts [unfolded True])
    next
      case nl: False
      let ?x = "0xB7 + of_nat ?l :: byte"
      have k: "k = KString" using assms(1) nl by (cases k) auto
      have b: "b = ?x # be_min ?n @ c @ rest" using k False assms(3) by (simp add: khead_def rlp_head_def)
      have "\<not> ?x < 0xB8" "?x < 0xC0" "?l = unat (?x - 0xB7)" using head_byte(3) [OF l] l ul by (simp_all add: word_less_nat_alt)
      then have "raw_readKind b = Some (Inr (KString, of_nat ?l + 1, of_nat ?n))"
        using raw_readKind_long(1) [OF rs fit [unfolded b ts]] unfolding b by blast
      then show ?thesis by (simp only: k ts [unfolded k])
    qed
  qed
qed

lemma Split_complete:
  assumes "length b < 2 ^ 64" "split_ok k c rest b"
  shows "rlp_Split b = Some (Inr (k, c, rest))"
proof (cases "k = KByte")
  case True
  then obtain x where "c = [x]" "x < 0x80" "b = x # rest" using assms(2) by (cases c) (auto simp: split_ok_def)
  then show ?thesis using True assms(1) fits_bound [of 0 "length b" 1]
    by (simp add: rlp_Split_def raw_readKind_def Let_def go_slice_def)
next
  case False
  then have b: "b = khead k (length c) @ c @ rest" "content_ok k c" using assms(2) by (simp_all add: split_ok_def)
  let ?ts = "length (khead k (length c))"
  have u: "unat (of_nat ?ts :: u64) = ?ts" "unat (of_nat ?ts + of_nat (length c) :: u64) = ?ts + length c"
    using assms(1) b(1) unat_of_nat_u64 [of ?ts] unat_of_nat_u64 [of "?ts + length c"] by simp_all
  have "go_slice ?ts (?ts + length c) b = Some c" "go_slice (?ts + length c) (length b) b = Some rest"
    by (simp_all add: b(1) go_slice_def)
  then show ?thesis by (simp only: rlp_Split_def raw_readKind_head [OF False assms(1) b] u option.case sum.case prod.case)
qed

lemma Split_sound:
  assumes "length b < 2 ^ 64" "rlp_Split b = Some (Inr (k, c, rest))"
  shows "split_ok k c rest b"
proof -
  obtain ts cs where r: "raw_readKind b = Some (Inr (k, ts, cs))"
    "go_slice (unat ts) (unat (ts + cs)) b = Some c" "go_slice (unat (ts + cs)) (length b) b = Some rest"
    using assms(2) by (auto simp: rlp_Split_def split: option.splits sum.splits)
  note h = raw_readKind_sound [OF assms(1) r(1)]
  have "unat (ts + cs) = unat ts + unat cs" using h assms(1) by (intro unat_plus_simple [THEN iffD1] word_le_nat_alt [THEN iffD2]) (simp add: unat_word_ariths)
  then have c: "c = take (unat cs) (drop (unat ts) b)" "rest = drop (unat ts + unat cs) b" "length c = unat cs"
    using r(2,3) h by (auto simp: go_slice_Some_iff)
  then have b: "b = take (unat ts) b @ c @ rest"
    by (metis append_take_drop_id drop_drop add.commute)
  show ?thesis
  proof (cases "k = KByte")
    case True
    then show ?thesis using h b c by (cases b) (auto simp: split_ok_def)
  next
    case False
    have "k = KString \<Longrightarrow> length c = 1 \<Longrightarrow> \<not> hd c < 0x80"
    proof -
      assume k: "k = KString" "length c = 1"
      then have cs: "cs = 1" using c(3) by (simp add: u64_eq_1)
      then have "length (khead k (unat cs)) = 1" by (simp add: khead_def rlp_head_def)
      then have "unat ts = 1" using h False cs by (metis add_leD1 length_take min.absorb2)
      then have "hd c = b ! 1" using c(1) cs h by (simp add: hd_drop_conv_nth)
      then show ?thesis using h k cs by simp
    qed
    then show ?thesis using False h b c(3) by (auto simp: split_ok_def content_ok_def)
  qed
qed

lemma Split_total: "length b < 2 ^ 64 \<Longrightarrow> rlp_Split b \<noteq> None"
proof -
  assume l: "length b < 2 ^ 64"
  have "unat ts + unat cs \<le> length b \<Longrightarrow> unat (ts + cs) = unat ts + unat cs" for ts cs :: u64
    using l unat_of_nat_u64 [of "unat ts + unat cs"] by simp
  then show ?thesis using raw_readKind_sound [OF l] raw_readKind_total [of b]
    by (auto simp: rlp_Split_def go_slice_def split: option.splits sum.splits)
qed


text \<open>\<open>SplitString\<close> and \<open>SplitList\<close> accept exactly a leading string and a leading list header.\<close>

lemma split_ok_string: "k \<noteq> KList \<Longrightarrow> split_ok k c rest b \<Longrightarrow> b = rlp_str c @ rest"
  by (cases k) (auto simp: split_ok_def content_ok_def rlp_str_def khead_def)

lemma string_split_ok: "split_ok (if length c = 1 \<and> hd c < 0x80 then KByte else KString) c rest (rlp_str c @ rest)"
  by (auto simp: split_ok_def content_ok_def rlp_str_def khead_def)

lemma SplitString_iff:
  assumes "length b < 2 ^ 64"
  shows "SplitString b = Some (Inr (c, rest)) \<longleftrightarrow> b = rlp_str c @ rest"
proof
  assume "SplitString b = Some (Inr (c, rest))"
  then obtain k where "rlp_Split b = Some (Inr (k, c, rest))" "k \<noteq> KList"
    by (auto simp: SplitString_def split: option.splits sum.splits if_splits)
  then show "b = rlp_str c @ rest" using Split_sound [OF assms] split_ok_string by blast
next
  assume b: "b = rlp_str c @ rest"
  then show "SplitString b = Some (Inr (c, rest))"
    using Split_complete [OF assms string_split_ok [of c rest, folded b]] by (simp add: SplitString_def)
qed

lemma SplitList_iff:
  assumes "length b < 2 ^ 64"
  shows "SplitList b = Some (Inr (c, rest)) \<longleftrightarrow> b = rlp_head 0xC0 0xF7 (length c) @ c @ rest"
proof
  assume "SplitList b = Some (Inr (c, rest))"
  then have "rlp_Split b = Some (Inr (KList, c, rest))"
    by (auto simp: SplitList_def split: option.splits sum.splits if_splits)
  then show "b = rlp_head 0xC0 0xF7 (length c) @ c @ rest"
    using Split_sound [OF assms] by (auto simp: split_ok_def khead_def)
next
  assume "b = rlp_head 0xC0 0xF7 (length c) @ c @ rest"
  then show "SplitList b = Some (Inr (c, rest))"
    using Split_complete [OF assms, of KList c rest] by (auto simp: SplitList_def split_ok_def content_ok_def khead_def)
qed

lemma AppendUint64_eq: "AppendUint64 b i = b @ rlp_str (be_min (unat i))"
  using writeUint64_eq [of i encBuffer_reset]
  by (auto simp: AppendUint64_def writeUint64_def append_str_def encBuffer_reset_def Let_def split: if_splits)

lemma be_min_two: "length (be_min n) \<noteq> 0 \<Longrightarrow> length (be_min n) \<noteq> 1 \<Longrightarrow> 256 \<le> n"
  using length_be_min_le [of n 1] by (cases "length (be_min n)") auto

lemma SplitUint64_iff:
  assumes "length b < 2 ^ 64"
  shows "SplitUint64 b = Some (Inr (i, rest)) \<longleftrightarrow> b = AppendUint64 [] i @ rest"
proof
  assume "SplitUint64 b = Some (Inr (i, rest))"
  then obtain c where c: "SplitString b = Some (Inr (c, rest))" "be_min (unat i) = c"
  proof (atomize_elim, goal_cases)
    case 1
    then obtain c where c: "SplitString b = Some (Inr (c, rest))"
      by (auto simp: SplitUint64_def split: option.splits sum.splits list.splits if_splits)
    consider "c = []" | x where "c = [x]" | x y ys where "c = x # y # ys" by (cases c; cases "drop 1 c") auto
    then have "be_min (unat i) = c"
    proof cases
      case 1
      then show ?thesis using \<open>SplitUint64 b = Some (Inr (i, rest))\<close> c by (simp add: SplitUint64_def)
    next
      case (2 x)
      then have "x \<noteq> 0" "i = ucast x" using \<open>SplitUint64 b = Some (Inr (i, rest))\<close> c
        by (auto simp: SplitUint64_def split: if_splits)
      then show ?thesis using 2 be_min_be_val [of "[x]"] by (simp add: unat_ucast_byte be_val_def)
    next
      case (3 x y ys)
      then have r: "readSize c (length c) = Some (Inr i)" "length c \<le> 8" using \<open>SplitUint64 b = Some (Inr (i, rest))\<close> c
        by (auto simp: SplitUint64_def split: if_splits option.splits sum.splits)
      then have "hd c \<noteq> 0" "i = of_nat (be_val c)" using readSize_eq [of "length c" c] 3 by (auto split: if_splits)
      then show ?thesis using be_min_be_val [of c] be_val_take [OF r(2), of c] by simp
    qed
    then show ?case using c by blast
  qed
  then show "b = AppendUint64 [] i @ rest" using SplitString_iff [OF assms] by (simp add: AppendUint64_eq)
next
  assume b: "b = AppendUint64 [] i @ rest"
  let ?c = "be_min (unat i)"
  have s: "SplitString b = Some (Inr (?c, rest))" using SplitString_iff [OF assms] b by (simp add: AppendUint64_eq)
  have z: "i = 0" if "?c = []" using that by (simp add: unsigned_eq_0_iff)
  consider "?c = []" | x where "?c = [x]" | x y ys where "?c = x # y # ys" by (cases ?c; cases "drop 1 ?c") auto
  then show "SplitUint64 b = Some (Inr (i, rest))"
  proof cases
    case 1
    then show ?thesis using s z by (simp add: SplitUint64_def)
  next
    case (2 x)
    then have "0 < unat i" using be_min_Nil_iff [of "unat i"] by (cases "unat i") auto
    then have "x \<noteq> 0" using hd_be_min [of "unat i"] 2 by simp
    moreover have "unat i = unat x" using be_val_be_min [of "unat i"] 2 by (simp add: be_val_def)
    then have "ucast x = i" by (intro unsigned_word_eqI [where ?'a = nat]) (simp add: unat_ucast_byte)
    ultimately show ?thesis using s 2 by (simp add: SplitUint64_def)
  next
    case (3 x y ys)
    then have "56 \<le> unat i" using be_min_two [of "unat i"] by simp
    then have "readSize ?c (length ?c) = Some (Inr i)"
      using readSize_complete [of "unat i" "[]"] u64_bound [of i] by simp
    moreover have "length ?c \<le> 8" by (rule be_min_u64)
    ultimately show ?thesis using s 3 by (simp add: SplitUint64_def)
  qed
qed


lemma Split_str_total: "length b < 2 ^ 64 \<Longrightarrow> SplitString b \<noteq> None \<and> SplitList b \<noteq> None"
  using Split_total [of b] by (auto simp: SplitString_def SplitList_def split: option.splits sum.splits)

lemma SplitUint64_total: "length b < 2 ^ 64 \<Longrightarrow> SplitUint64 b \<noteq> None"
proof -
  assume b: "length b < 2 ^ 64"
  have "length c \<le> 6 \<Longrightarrow> readSize (x # y # c) (Suc (Suc (length c))) \<noteq> None" for x y c by (rule readSize_total) auto
  then have "readSize (x # y # c) (Suc (Suc (length c))) = None \<Longrightarrow> \<not> length c \<le> 6" for x y c by blast
  then show ?thesis using Split_str_total [OF b]
    by (auto simp: SplitUint64_def not_less split: option.splits sum.splits list.splits)
qed

section \<open>Properties\<close>

text \<open>C9. \<open>EncodeToBytes\<close> and \<open>Encode\<close> write the same bytes, the RLP encoding of the value: for every value of
  the covered types whose encoding is shorter than \<open>2 ^ 64\<close> bytes the buffer with its postponed list
  headers is flattened into the reference encoding, a negative integer anywhere in the value is the only error, and no
  slice operation of the encoder is out of range.\<close>

theorem rlp_encoder_writes_reference:
  assumes "\<And>r. val_rlp v = Some r \<Longrightarrow> length (rlp_enc r) < 2 ^ 64"
  shows "EncodeToBytes v = Some (case val_rlp v of None \<Rightarrow> Inl ErrNegativeBigInt | Some r \<Rightarrow> Inr (rlp_enc r)) \<and>
    rlp_Encode v = EncodeToBytes v"
  using EncodeToBytes_eq [OF assms] by blast

theorem rlp_encoder_writes_reference_witness:
  "EncodeToBytes (GStruct [GUint 1024, GSlice [GBytes [0x61, 0x62], GBool True]]) =
     Some (Inr [0xC8, 0x82, 4, 0, 0xC4, 0x82, 0x61, 0x62, 1])"
proof -
  let ?v = "GStruct [GUint 1024, GSlice [GBytes [0x61, 0x62], GBool True]]"
  have v: "val_rlp ?v = Some (RList [RString [4, 0], RList [RString [0x61, 0x62], RString [1]]])" by code_simp
  have e: "rlp_enc (RList [RString [4, 0], RList [RString [0x61, 0x62], RString [1]]]) = [0xC8, 0x82, 4, 0, 0xC4, 0x82, 0x61, 0x62, 1]"
    by code_simp
  have "length (rlp_enc r) < 2 ^ 64" if "val_rlp ?v = Some r" for r using that e by (simp only: v option.inject) auto
  then show ?thesis using rlp_encoder_writes_reference [of ?v] by (simp only: v e option.case)
qed

text \<open>C8. \<open>DecodeBytes\<close> accepts exactly the canonical encodings of its target type: it succeeds with a value
  if and only if the whole input is the reference encoding of an item that the type reads as that value, for every type
  with legal integer and array sizes and every input below \<open>2 ^ 64\<close> bytes.  On every other input it returns an
  error; it always returns.\<close>

theorem rlp_decoder_accepts_exactly_encodings:
  assumes "ty_ok t" "length b < 2 ^ 64"
  shows "DecodeBytes t b \<noteq> None \<and> (\<forall>v. DecodeBytes t b = Some (Inr v) \<longleftrightarrow> (\<exists>x. b = rlp_enc x \<and> conv t x = Some v))"
  using DecodeBytes_iff [OF assms] by blast

theorem rlp_decoder_accepts_exactly_encodings_witness:
  "DecodeBytes (TSlice (TUint 64)) [0xC2, 0x81, 0x05] \<noteq> None \<and>
   (\<nexists>x. [0xC2, 0x81, 0x05] = rlp_enc x \<and> conv (TSlice (TUint 64)) x = Some (GSlice [GUint 5]))"
proof -
  have "DecodeBytes (TSlice (TUint 64)) [0xC2, 0x81, 0x05] \<noteq> Some (Inr (GSlice [GUint 5]))" by code_simp
  then show ?thesis using rlp_decoder_accepts_exactly_encodings [of "TSlice (TUint 64)" "[0xC2, 0x81, 0x05]"] by simp
qed

text \<open>C38. Typed values survive the round trip: every value of a covered type whose encoding is
  below \<open>2 ^ 64\<close> bytes is encoded, and decoding the bytes at that type gives the value back.\<close>

theorem rlp_typed_round_trip:
  assumes "ty_ok t" "has_type t v" "\<And>r. val_rlp v = Some r \<Longrightarrow> length (rlp_enc r) < 2 ^ 64"
  shows "\<exists>b. EncodeToBytes v = Some (Inr b) \<and> DecodeBytes t b = Some (Inr v)"
proof -
  obtain x where x: "val_rlp v = Some x" "conv t x = Some v" using conv_val_rlp [OF assms(2)] by blast
  then have "EncodeToBytes v = Some (Inr (rlp_enc x))" using EncodeToBytes_eq(1) [of v, OF assms(3)] by simp
  moreover have "DecodeBytes t (rlp_enc x) = Some (Inr v)" using DecodeBytes_iff(1) [OF assms(1) assms(3) [OF x(1)]] x(2) by blast
  ultimately show ?thesis by blast
qed

theorem rlp_typed_round_trip_witness:
  "\<exists>b. EncodeToBytes (GStruct [GUint 1024, GBytes [1, 2]]) = Some (Inr b) \<and>
     DecodeBytes (TStruct [TUint 64, TBytes]) b = Some (Inr (GStruct [GUint 1024, GBytes [1, 2]]))"
proof (rule rlp_typed_round_trip)
  show "ty_ok (TStruct [TUint 64, TBytes])" by simp
  show "has_type (TStruct [TUint 64, TBytes]) (GStruct [GUint 1024, GBytes [1, 2]])" by simp
  fix r
  have "map_option (\<lambda>r. length (rlp_enc r)) (val_rlp (GStruct [GUint 1024, GBytes [1, 2]])) = Some 7" by code_simp
  moreover assume "val_rlp (GStruct [GUint 1024, GBytes [1, 2]]) = Some r"
  ultimately show "length (rlp_enc r) < 2 ^ 64" by (simp only: option.map option.inject) simp
qed

text \<open>C39. The slice functions agree with the codec: on inputs below \<open>2 ^ 64\<close> bytes \<open>SplitString\<close>
  succeeds exactly on inputs that start with the canonical encoding of a string, \<open>SplitList\<close> exactly on inputs that
  start with a canonical list header and its content, and \<open>SplitUint64\<close> exactly on inputs that start with what
  \<open>AppendUint64\<close> writes; none of them reads out of range.\<close>

theorem rlp_split_accepts_exactly_encodings:
  assumes "length b < 2 ^ 64"
  shows "(SplitString b = Some (Inr (c, rest)) \<longleftrightarrow> b = rlp_enc (RString c) @ rest) \<and>
    (SplitList b = Some (Inr (c, rest)) \<longleftrightarrow> b = rlp_head 0xC0 0xF7 (length c) @ c @ rest) \<and>
    (SplitUint64 b = Some (Inr (i, rest)) \<longleftrightarrow> b = AppendUint64 [] i @ rest) \<and>
    SplitString b \<noteq> None \<and> SplitList b \<noteq> None \<and> SplitUint64 b \<noteq> None"
  using SplitString_iff [OF assms] SplitList_iff [OF assms] SplitUint64_iff [OF assms] Split_str_total [OF assms]
    SplitUint64_total [OF assms]
  by simp

theorem rlp_split_accepts_exactly_encodings_witness:
  "SplitUint64 [0x82, 4, 0, 7] = Some (Inr (1024, [7])) \<and> [0x82, 4, 0, 7] = AppendUint64 [] 1024 @ [7 :: byte]"
proof -
  have "[0x82, 4, 0, 7] = AppendUint64 [] 1024 @ [7 :: byte]" by code_simp
  then show ?thesis using rlp_split_accepts_exactly_encodings [of "[0x82, 4, 0, 7]" "[]" "[7]" 1024] by simp
qed

end
