(* ===== verification/Base_Fee.thy ===== *)
theory Base_Fee
  imports Unsealed
begin

text \<open>
  The base fee of op-geth, \<^verbatim>\<open>consensus/misc/eip1559/eip1559.go\<close>, with the parts of \<^verbatim>\<open>params/config.go\<close> it reads and the
  encoding of the Holocene parameters in payload attributes and header extra data. A panic, be it an explicit one, a
  division by zero or a missing base fee, is \<open>None\<close>.
\<close>

section \<open>Chain configuration (params/config.go)\<close>

record OptimismConfig =
  EIP1559Elasticity :: u64
  EIP1559Denominator :: u64
  EIP1559DenominatorCanyon :: "u64 option"

record ChainConfig =
  LondonBlock :: "nat option"
  cc_CanyonTime :: "u64 option"
  cc_HoloceneTime :: "u64 option"
  cc_Optimism :: "OptimismConfig option"

definition isBlockForked :: "nat option \<Rightarrow> nat \<Rightarrow> bool" where
  "isBlockForked s head = (case s of None \<Rightarrow> False | Some b \<Rightarrow> b \<le> head)"

definition isTimestampForked :: "u64 option \<Rightarrow> u64 \<Rightarrow> bool" where
  "isTimestampForked s head = (case s of None \<Rightarrow> False | Some t \<Rightarrow> t \<le> head)"

definition IsLondon :: "ChainConfig \<Rightarrow> nat \<Rightarrow> bool" where
  "IsLondon c num = isBlockForked (LondonBlock c) num"

definition cc_IsCanyon :: "ChainConfig \<Rightarrow> u64 \<Rightarrow> bool" where
  "cc_IsCanyon c time = isTimestampForked (cc_CanyonTime c) time"

definition cc_IsHolocene :: "ChainConfig \<Rightarrow> u64 \<Rightarrow> bool" where
  "cc_IsHolocene c time = isTimestampForked (cc_HoloceneTime c) time"

definition DefaultBaseFeeChangeDenominator :: u64 where
  "DefaultBaseFeeChangeDenominator = 8"

definition DefaultElasticityMultiplier :: u64 where
  "DefaultElasticityMultiplier = 2"

definition InitialBaseFee :: nat where
  "InitialBaseFee = 1000000000"

definition BaseFeeChangeDenominator :: "ChainConfig \<Rightarrow> u64 \<Rightarrow> u64 option" where
  "BaseFeeChangeDenominator c time =
     (case cc_Optimism c of
        None \<Rightarrow> Some DefaultBaseFeeChangeDenominator
      | Some oc \<Rightarrow>
          if cc_IsCanyon c time then
            (case EIP1559DenominatorCanyon oc of
               None \<Rightarrow> None
             | Some d \<Rightarrow> if d = 0 then None else Some d)
          else Some (EIP1559Denominator oc))"

definition ElasticityMultiplier :: "ChainConfig \<Rightarrow> u64" where
  "ElasticityMultiplier c =
     (case cc_Optimism c of None \<Rightarrow> DefaultElasticityMultiplier | Some oc \<Rightarrow> EIP1559Elasticity oc)"

section \<open>Holocene parameters\<close>

datatype HoloceneErr = ParamsLength nat | ZeroDenominator | ExtraDataLength nat | ExtraDataVersion byte

definition DecodeHolocene1559Params :: "bytes \<Rightarrow> u64 \<times> u64" where
  "DecodeHolocene1559Params params =
     (if length params \<noteq> 8 then (0, 0)
      else (ucast (Uint32BE (take 4 params)), ucast (Uint32BE (drop 4 params))))"

definition DecodeHoloceneExtraData :: "bytes \<Rightarrow> u64 \<times> u64" where
  "DecodeHoloceneExtraData extra = (if length extra \<noteq> 9 then (0, 0) else DecodeHolocene1559Params (drop 1 extra))"

definition EncodeHolocene1559Params :: "u64 \<Rightarrow> u64 \<Rightarrow> bytes option" where
  "EncodeHolocene1559Params denom elasticity =
     (if denom > 0xFFFFFFFF \<or> elasticity > 0xFFFFFFFF then None
      else Some (PutUint32BE (ucast denom) @ PutUint32BE (ucast elasticity)))"

definition EncodeHoloceneExtraData :: "u64 \<Rightarrow> u64 \<Rightarrow> bytes option" where
  "EncodeHoloceneExtraData denom elasticity =
     (if denom > 0xFFFFFFFF \<or> elasticity > 0xFFFFFFFF then None
      else Some (0 # PutUint32BE (ucast denom) @ PutUint32BE (ucast elasticity)))"

definition ValidateHolocene1559Params :: "bytes \<Rightarrow> HoloceneErr option" where
  "ValidateHolocene1559Params params =
     (if length params \<noteq> 8 then Some (ParamsLength (length params))
      else case DecodeHolocene1559Params params of (d, e) \<Rightarrow> if e \<noteq> 0 \<and> d = 0 then Some ZeroDenominator else None)"

definition ValidateHoloceneExtraData :: "bytes \<Rightarrow> HoloceneErr option" where
  "ValidateHoloceneExtraData extra =
     (if length extra \<noteq> 9 then Some (ExtraDataLength (length extra))
      else if hd extra \<noteq> 0 then Some (ExtraDataVersion (hd extra))
      else ValidateHolocene1559Params (drop 1 extra))"

section \<open>The base fee\<close>

definition CalcBaseFee :: "ChainConfig \<Rightarrow> Header \<Rightarrow> u64 \<Rightarrow> nat option" where
  "CalcBaseFee config parent time =
     (if \<not> IsLondon config (h_Number parent) then Some InitialBaseFee
      else case BaseFeeChangeDenominator config time of
        None \<Rightarrow> None
      | Some denominator0 \<Rightarrow>
          (let holocene = cc_IsHolocene config (h_Time parent);
               (denominator, elasticity) =
                 (if holocene then DecodeHoloceneExtraData (h_Extra parent)
                  else (denominator0, ElasticityMultiplier config))
           in if holocene \<and> denominator = 0 then None
              else if elasticity = 0 then None
              else
                (let parentGasTarget = h_GasLimit parent div elasticity in
                 case h_BaseFee parent of
                   None \<Rightarrow> None
                 | Some baseFee \<Rightarrow>
                     if h_GasUsed parent = parentGasTarget then Some baseFee
                     else if parentGasTarget = 0 \<or> denominator = 0 then None
                     else if h_GasUsed parent > parentGasTarget then
                       (let num = unat (h_GasUsed parent - parentGasTarget) * baseFee div unat parentGasTarget
                                  div unat denominator
                        in Some (baseFee + max num 1))
                     else
                       (let num = unat (parentGasTarget - h_GasUsed parent) * baseFee div unat parentGasTarget
                                  div unat denominator
                        in Some (nat (max (int baseFee - int num) 0))))))"

datatype VerifyErr = InvalidGasLimit | GasLimitBelowMinimum | MissingBaseFee | InvalidBaseFee

definition GasLimitBoundDivisor :: u64 where
  "GasLimitBoundDivisor = 1024"

definition MinGasLimit :: u64 where
  "MinGasLimit = 5000"

text \<open>The difference is taken in \<^verbatim>\<open>int64\<close>, as the source does.\<close>

definition VerifyGaslimit :: "u64 \<Rightarrow> u64 \<Rightarrow> VerifyErr option" where
  "VerifyGaslimit parentGasLimit headerGasLimit =
     (let diff0 = parentGasLimit - headerGasLimit;
          diff = (if sint diff0 < 0 then - diff0 else diff0);
          limit = parentGasLimit div GasLimitBoundDivisor
      in if diff \<ge> limit then Some InvalidGasLimit
         else if headerGasLimit < MinGasLimit then Some GasLimitBelowMinimum
         else None)"

definition VerifyEIP1559Header :: "ChainConfig \<Rightarrow> Header \<Rightarrow> Header \<Rightarrow> (VerifyErr option) option" where
  "VerifyEIP1559Header config parent header =
     (let parentGasLimit =
            (if \<not> IsLondon config (h_Number parent) then h_GasLimit parent * ElasticityMultiplier config
             else h_GasLimit parent);
          gaslimit = (if cc_Optimism config = None then VerifyGaslimit parentGasLimit (h_GasLimit header) else None)
      in case gaslimit of
           Some e \<Rightarrow> Some (Some e)
         | None \<Rightarrow>
             (case h_BaseFee header of
                None \<Rightarrow> Some (Some MissingBaseFee)
              | Some baseFee \<Rightarrow>
                  (case CalcBaseFee config parent (h_Time header) of
                     None \<Rightarrow> None
                   | Some expectedBaseFee \<Rightarrow> Some (if baseFee \<noteq> expectedBaseFee then Some InvalidBaseFee else None))))"

section \<open>Shape of the base fee\<close>

text \<open>The denominator and elasticity in force, and the fee as a function of the gas used.\<close>

definition fee_params :: "ChainConfig \<Rightarrow> Header \<Rightarrow> u64 \<Rightarrow> u64 \<times> u64" where
  "fee_params config parent time =
     (if cc_IsHolocene config (h_Time parent) then DecodeHoloceneExtraData (h_Extra parent)
      else (the (BaseFeeChangeDenominator config time), ElasticityMultiplier config))"

definition fee_step :: "nat \<Rightarrow> nat \<Rightarrow> nat \<Rightarrow> nat \<Rightarrow> nat" where
  "fee_step f t d used =
     (if used = t then f
      else if used > t then f + max ((used - t) * f div t div d) 1
      else f - (t - used) * f div t div d)"

lemma unat_diff: "(b :: u64) \<le> a \<Longrightarrow> unat (a - b) = unat a - unat b"
  by (simp add: unat_sub)

lemma CalcBaseFee_step:
  assumes "IsLondon config (h_Number parent)" "CalcBaseFee config parent time = Some f'" "fee_params config parent time = (d, e)"
  shows "\<exists>f. h_BaseFee parent = Some f \<and> e \<noteq> 0 \<and>
    f' = fee_step f (unat (h_GasLimit parent div e)) (unat d) (unat (h_GasUsed parent))"
proof -
  obtain d0 where d0: "BaseFeeChangeDenominator config time = Some d0"
    using assms(1,2) by (auto simp: CalcBaseFee_def split: option.splits)
  then have p: "(if cc_IsHolocene config (h_Time parent) then DecodeHoloceneExtraData (h_Extra parent)
      else (d0, ElasticityMultiplier config)) = (d, e)"
    using assms(3) by (auto simp: fee_params_def split: if_splits)
  let ?t = "h_GasLimit parent div e"
  have e: "e \<noteq> 0" and "\<exists>f. h_BaseFee parent = Some f"
    using assms(1,2) d0 p by (auto simp: CalcBaseFee_def Let_def split: option.splits if_splits)
  then obtain f where f: "h_BaseFee parent = Some f" by blast
  have "f' = (if h_GasUsed parent = ?t then f
      else if h_GasUsed parent > ?t then f + max (unat (h_GasUsed parent - ?t) * f div unat ?t div unat d) 1
      else nat (max (int f - int (unat (?t - h_GasUsed parent) * f div unat ?t div unat d)) 0))"
    using assms(1,2) d0 p f by (auto simp: CalcBaseFee_def Let_def split: if_splits)
  then show ?thesis using e f
    by (auto simp: fee_step_def unat_diff word_less_nat_alt word_le_nat_alt)
qed

lemma fee_step_mono:
  assumes "u \<le> v"
  shows "fee_step f t d u \<le> fee_step f t d v"
proof -
  consider "u > t" | "u \<le> t" "t \<le> v" | "v < t" by linarith
  then show ?thesis
  proof cases
    case 1
    then have "(u - t) * f div t div d \<le> (v - t) * f div t div d" using assms by (intro div_le_mono mult_le_mono1) simp
    then show ?thesis using 1 assms by (auto simp: fee_step_def)
  next
    case 2
    then show ?thesis by (auto simp: fee_step_def)
  next
    case 3
    then have "(t - v) * f div t div d \<le> (t - u) * f div t div d" using assms by (intro div_le_mono mult_le_mono1) simp
    then show ?thesis using 3 assms by (auto simp: fee_step_def)
  qed
qed

lemma fee_step_low: "0 < t \<Longrightarrow> f - f div d \<le> fee_step f t d u"
proof -
  assume t: "0 < t"
  have "fee_step f t d 0 = f - f div d" using t by (simp add: fee_step_def)
  then show ?thesis using fee_step_mono [of 0 u f t d] by simp
qed

lemma fee_step_high:
  assumes "t < u" "u \<le> l"
  shows "fee_step f t d u \<le> f + max 1 ((l - t) * f div t div d)"
proof -
  have "(u - t) * f div t div d \<le> (l - t) * f div t div d" using assms by (intro div_le_mono mult_le_mono1) simp
  then show ?thesis using assms by (auto simp: fee_step_def)
qed

lemmas fee_defs = CalcBaseFee_def fee_params_def IsLondon_def isBlockForked_def isTimestampForked_def cc_IsHolocene_def
  cc_IsCanyon_def BaseFeeChangeDenominator_def ElasticityMultiplier_def DefaultBaseFeeChangeDenominator_def
  DefaultElasticityMultiplier_def

lemma VerifyGaslimit_None:
  assumes "unat p < 2 ^ 63" "unat h < 2 ^ 63"
  shows "VerifyGaslimit p h = None \<longleftrightarrow> 5000 \<le> unat h \<and> \<bar>int (unat p) - int (unat h)\<bar> < int (unat p div 1024)"
proof -
  let ?k = "int (unat p) - int (unat h)"
  have k: "p - h = of_int ?k" by simp
  have "int (unat p) < int (2 ^ 63)" "int (unat h) < int (2 ^ 63)" using assms by (simp_all only: of_nat_less_iff)
  then have b: "uint p < 2 ^ 63" "uint h < 2 ^ 63" "0 \<le> uint p" "0 \<le> uint h" by simp_all
  have kb: "- (2 ^ 63) \<le> ?k" "?k < 2 ^ 63" unfolding of_nat_unat using b by linarith+
  have "sint (of_int ?k :: u64) = signed_take_bit (LENGTH(64) - Suc 0) ?k" by (subst signed_of_int) simp
  also have "\<dots> = ?k" by (rule signed_take_bit_int_eq_self) (use kb in \<open>simp_all del: of_nat_unat\<close>)
  finally have s: "sint (p - h) = ?k" unfolding k .
  let ?d = "if sint (p - h) < 0 then - (p - h) else p - h"
  have "unat ?d = nat \<bar>?k\<bar>"
  proof (cases "unat h \<le> unat p")
    case True
    then have u: "unat (p - h) = unat p - unat h" by (intro unat_diff) (simp add: word_le_nat_alt)
    have "\<not> ?k < 0" "nat \<bar>?k\<bar> = unat p - unat h" using True by linarith+
    then show ?thesis by (simp only: s u if_False simp_thms)
  next
    case False
    then have u: "unat (h - p) = unat h - unat p" by (intro unat_diff) (simp add: word_le_nat_alt)
    have "?k < 0" "nat \<bar>?k\<bar> = unat h - unat p" using False by linarith+
    then show ?thesis by (simp only: s u if_True minus_diff_eq)
  qed
  moreover have "unat (p div GasLimitBoundDivisor) = unat p div 1024" by (simp add: GasLimitBoundDivisor_def unat_div)
  moreover have "(int (unat p div 1024) \<le> \<bar>?k\<bar>) = (unat p div 1024 \<le> nat \<bar>?k\<bar>)" by linarith
  ultimately show ?thesis unfolding VerifyGaslimit_def Let_def
    by (simp add: MinGasLimit_def word_le_nat_alt word_less_nat_alt flip: not_le del: of_nat_unat)
qed

lemma VerifyEIP1559Header_accepts:
  assumes "IsLondon config (h_Number parent)"
  shows "VerifyEIP1559Header config parent header = Some None \<longleftrightarrow>
    (cc_Optimism config = None \<longrightarrow> VerifyGaslimit (h_GasLimit parent) (h_GasLimit header) = None) \<and>
    (\<exists>f. h_BaseFee header = Some f \<and> CalcBaseFee config parent (h_Time header) = Some f)"
  using assms by (auto simp: VerifyEIP1559Header_def split: option.splits if_splits)

section \<open>Properties\<close>

text \<open>C40. The base fee follows the gas the parent used, whenever the computation returns and the parent is a London block: it is
  unchanged exactly at the gas target, rises above it and does not rise below it, and is monotone in the gas used. It falls by at
  most the base fee over the denominator; it rises by at least one and, unless by just one, at most by the base fee times the excess
  of the gas limit over the target, divided by the target and the denominator. A header is accepted exactly when it carries that
  base fee and, on a chain without the Optimism rules, its gas limit is at least 5000 and differs from the parent's by less than a
  1024th of it; gas limits are below \<open>2\<^sup>6\<^sup>3\<close>.\<close>

theorem base_fee_follows_gas_used:
  assumes "IsLondon config (h_Number parent)" "fee_params config parent (h_Time header) = (d, e)" "h_BaseFee parent = Some f"
    and "CalcBaseFee config parent (h_Time header) = Some f1"
    and "CalcBaseFee config (parent\<lparr>h_GasUsed := g\<rparr>) (h_Time header) = Some f2"
    and "h_GasUsed parent \<le> g"
    and "unat (h_GasLimit parent) < 2 ^ 63" "unat (h_GasLimit header) < 2 ^ 63"
  shows "f1 \<le> f2 \<and> (h_GasUsed parent = h_GasLimit parent div e \<longrightarrow> f1 = f) \<and>
    (h_GasUsed parent > h_GasLimit parent div e \<longrightarrow> f < f1) \<and>
    (h_GasUsed parent > h_GasLimit parent div e \<and> h_GasUsed parent \<le> h_GasLimit parent \<longrightarrow>
       f1 \<le> f + max 1 ((unat (h_GasLimit parent) - unat (h_GasLimit parent div e)) * f div
         unat (h_GasLimit parent div e) div unat d)) \<and>
    (h_GasUsed parent < h_GasLimit parent div e \<longrightarrow> f1 \<le> f \<and> f - f div unat d \<le> f1) \<and>
    (VerifyEIP1559Header config parent header = Some None \<longleftrightarrow>
       h_BaseFee header = Some f1 \<and>
       (cc_Optimism config \<noteq> None \<or> 5000 \<le> unat (h_GasLimit header) \<and>
          \<bar>int (unat (h_GasLimit parent)) - int (unat (h_GasLimit header))\<bar> < int (unat (h_GasLimit parent) div 1024)))"
proof -
  let ?t = "unat (h_GasLimit parent div e)"
  have p: "fee_params config (parent\<lparr>h_GasUsed := g\<rparr>) (h_Time header) = (d, e)"
    using assms(2) by (auto simp: fee_params_def split: if_splits)
  have 1: "f1 = fee_step f ?t (unat d) (unat (h_GasUsed parent))"
    using CalcBaseFee_step [OF assms(1,4,2)] assms(3) by auto
  have 2: "f2 = fee_step f ?t (unat d) (unat g)"
    using CalcBaseFee_step [OF _ assms(5) p] assms(1,3) by auto
  have "f1 \<le> f2" unfolding 1 2 using assms(6) by (intro fee_step_mono) (simp add: word_le_nat_alt)
  moreover have "h_GasUsed parent < h_GasLimit parent div e \<Longrightarrow> f - f div unat d \<le> f1"
    unfolding 1 by (rule fee_step_low) (simp add: word_less_nat_alt)
  moreover have "h_GasUsed parent > h_GasLimit parent div e \<and> h_GasUsed parent \<le> h_GasLimit parent \<Longrightarrow>
      f1 \<le> f + max 1 ((unat (h_GasLimit parent) - ?t) * f div ?t div unat d)"
    unfolding 1 by (rule fee_step_high) (auto simp: word_less_nat_alt word_le_nat_alt)
  moreover have "VerifyEIP1559Header config parent header = Some None \<longleftrightarrow> h_BaseFee header = Some f1 \<and>
       (cc_Optimism config \<noteq> None \<or> 5000 \<le> unat (h_GasLimit header) \<and>
          \<bar>int (unat (h_GasLimit parent)) - int (unat (h_GasLimit header))\<bar> < int (unat (h_GasLimit parent) div 1024))"
    unfolding VerifyEIP1559Header_accepts [OF assms(1)] VerifyGaslimit_None [OF assms(7,8)] using assms(4) by auto
  ultimately show ?thesis
    by (auto simp: 1 fee_step_def word_less_nat_alt)
qed

definition ex_header :: "u64 \<Rightarrow> nat \<Rightarrow> u64 \<Rightarrow> nat \<Rightarrow> Header" where
  "ex_header time num used fee =
     \<lparr>h_ParentHash = [], h_UncleHash = [], h_Coinbase = [], h_Root = [], h_TxHash = [], h_ReceiptHash = [], h_Bloom = [],
      h_Difficulty = 0, h_Number = num, h_GasLimit = 30000000, h_GasUsed = used, h_Time = time, h_Extra = [],
      h_MixDigest = [], h_Nonce = 0, h_BaseFee = Some fee, h_WithdrawalsHash = None, h_BlobGasUsed = None,
      h_ExcessBlobGas = None, h_ParentBeaconRoot = None, h_RequestsHash = None\<rparr>"

definition ex_london :: ChainConfig where
  "ex_london = \<lparr>LondonBlock = Some 0, cc_CanyonTime = None, cc_HoloceneTime = None, cc_Optimism = None\<rparr>"

theorem base_fee_follows_gas_used_witness:
  "CalcBaseFee ex_london (ex_header 10 5 20000000 1000) 12 = Some 1041 \<and> (1041 :: nat) \<le> 1125 \<and>
   VerifyEIP1559Header ex_london (ex_header 10 5 20000000 1000) (ex_header 12 6 0 1041) = Some None"
proof -
  let ?p = "ex_header 10 5 20000000 1000" and ?h = "ex_header 12 6 0 1041"
  have 1: "CalcBaseFee ex_london ?p (h_Time ?h) = Some 1041" by (simp add: fee_defs ex_header_def ex_london_def)
  have 2: "CalcBaseFee ex_london (?p\<lparr>h_GasUsed := 30000000\<rparr>) (h_Time ?h) = Some 1125"
    by (simp add: fee_defs ex_header_def ex_london_def)
  have 3: "IsLondon ex_london (h_Number ?p)" "fee_params ex_london ?p (h_Time ?h) = (8, 2)"
    by (simp_all add: fee_defs ex_header_def ex_london_def)
  have 4: "h_BaseFee ?p = Some 1000" "h_GasUsed ?p \<le> 30000000" "unat (h_GasLimit ?p) < 2 ^ 63" "unat (h_GasLimit ?h) < 2 ^ 63"
    "h_BaseFee ?h = Some 1041" "unat (h_GasLimit ?p) = 30000000" "unat (h_GasLimit ?h) = 30000000" "h_Time ?h = 12"
    by (simp_all add: ex_header_def)
  show ?thesis using base_fee_follows_gas_used [OF 3 4(1) 1 2 4(2,3,4)] 1 4(5-8) by simp
qed

end
