(* ===== verification/L1_Info.thy ===== *)
theory L1_Info
  imports Base_Fee Registry Rollup_Config Ssz Rlp
begin

text \<open>
  The L1 information an L2 block carries in its first transaction: the ABI readers and writers of
  \<^verbatim>\<open>op-service/solabi\<close>, the scalars of \<^verbatim>\<open>op-service/eth/types.go\<close>, deposit transactions of op-geth, and
  \<^verbatim>\<open>l1_block_info.go\<close>, \<^verbatim>\<open>deposit_source.go\<close>, \<^verbatim>\<open>payload_util.go\<close> and \<^verbatim>\<open>l2block_util.go\<close> of \<^verbatim>\<open>op-node/rollup/derive\<close>.
  The hash function is the argument \<open>keccak\<close>. A panic is \<open>None\<close>.
\<close>

datatype InfoErr =
  IoEOF | IoUnexpectedEOF | InvalidFunctionSignature | AddressPaddingNotEmpty | NumberPaddingNotEmpty
| NumberLengthNot8 | BigIntExceeds256Bits | UnexpectedDataLength nat | TooManyBytes | ErrInvalidFormat
| ErrBedrockScalarPaddingNotEmpty | InvalidV1ScalarPadding | UnrecognizedScalarVersion byte | UnexpectedScalar
| TxEncodeErr RlpErr | TxDecodeErr RlpErr | ErrShortTypedTx | NotADeposit | GenesisHashMismatch | MissingL1InfoTx
| HoloceneExtra HoloceneErr

section \<open>ABI readers and writers (solabi/util.go)\<close>

definition io_ReadFull :: "nat \<Rightarrow> bytes \<Rightarrow> InfoErr + bytes \<times> bytes" where
  "io_ReadFull n r =
     (if n \<le> length r then Inr (take n r, drop n r) else if r = [] then Inl IoEOF else Inl IoUnexpectedEOF)"

definition ReadAndValidateSignature :: "bytes \<Rightarrow> bytes \<Rightarrow> InfoErr + bytes \<times> bytes" where
  "ReadAndValidateSignature expectedSignature r =
     bind_res (io_ReadFull 4 r) (\<lambda>(sig, r).
       if sig \<noteq> expectedSignature then Inl InvalidFunctionSignature else Inr (sig, r))"

definition ReadHash :: "bytes \<Rightarrow> InfoErr + Hash \<times> bytes" where
  "ReadHash r = io_ReadFull 32 r"

definition ReadEthBytes32 :: "bytes \<Rightarrow> InfoErr + bytes \<times> bytes" where
  "ReadEthBytes32 r = io_ReadFull 32 r"

definition ReadAddress :: "bytes \<Rightarrow> InfoErr + Address \<times> bytes" where
  "ReadAddress r =
     bind_res (io_ReadFull 12 r) (\<lambda>(readPadding, r).
       if readPadding \<noteq> replicate 12 0 then Inl AddressPaddingNotEmpty else io_ReadFull 20 r)"

definition ReadUint64 :: "bytes \<Rightarrow> InfoErr + u64 \<times> bytes" where
  "ReadUint64 r =
     bind_res (io_ReadFull 24 r) (\<lambda>(readPadding, r).
       if readPadding \<noteq> replicate 24 0 then Inl NumberPaddingNotEmpty
       else case io_ReadFull 8 r of Inl e \<Rightarrow> Inl NumberLengthNot8 | Inr (n, r) \<Rightarrow> Inr (Uint64BE n, r))"

definition ReadUint256 :: "bytes \<Rightarrow> InfoErr + int \<times> bytes" where
  "ReadUint256 r = bind_res (io_ReadFull 32 r) (\<lambda>(n, r). Inr (int (be_val n), r))"

definition EmptyReader :: "bytes \<Rightarrow> bool" where
  "EmptyReader r \<longleftrightarrow> r = []"

text \<open>\<^verbatim>\<open>binary.Read\<close> of a fixed-width integer; its error is replaced by \<open>ErrInvalidFormat\<close>.\<close>

definition read_u32 :: "bytes \<Rightarrow> InfoErr + u32 \<times> bytes" where
  "read_u32 r = (case io_ReadFull 4 r of Inl e \<Rightarrow> Inl ErrInvalidFormat | Inr (n, r) \<Rightarrow> Inr (Uint32BE n, r))"

definition read_u64 :: "bytes \<Rightarrow> InfoErr + u64 \<times> bytes" where
  "read_u64 r = (case io_ReadFull 8 r of Inl e \<Rightarrow> Inl ErrInvalidFormat | Inr (n, r) \<Rightarrow> Inr (Uint64BE n, r))"

text \<open>A writer gives the bytes it adds; a failing write ends the sequence.\<close>

type_synonym writes = "(InfoErr + bytes) option"

fun write_seq :: "writes list \<Rightarrow> writes" where
  "write_seq [] = Some (Inr [])"
| "write_seq (w # ws) =
     (case w of
        None \<Rightarrow> None
      | Some (Inl e) \<Rightarrow> Some (Inl e)
      | Some (Inr b) \<Rightarrow>
          (case write_seq ws of
             None \<Rightarrow> None
           | Some (Inl e) \<Rightarrow> Some (Inl e)
           | Some (Inr bs) \<Rightarrow> Some (Inr (b @ bs))))"

definition WriteSignature :: "bytes \<Rightarrow> writes" where
  "WriteSignature sig = Some (Inr sig)"

definition WriteHash :: "Hash \<Rightarrow> writes" where
  "WriteHash h = Some (Inr h)"

definition WriteEthBytes32 :: "bytes \<Rightarrow> writes" where
  "WriteEthBytes32 b = Some (Inr b)"

definition WriteAddress :: "Address \<Rightarrow> writes" where
  "WriteAddress a = Some (Inr (replicate 12 0 @ a))"

definition WriteUint64 :: "u64 \<Rightarrow> writes" where
  "WriteUint64 n = Some (Inr (replicate 24 0 @ PutUint64BE n))"

text \<open>A nil \<^verbatim>\<open>*big.Int\<close> panics; \<^verbatim>\<open>BitLen\<close> and \<^verbatim>\<open>FillBytes\<close> take the absolute value.\<close>

definition WriteUint256 :: "int option \<Rightarrow> writes" where
  "WriteUint256 n =
     (case n of
        None \<Rightarrow> None
      | Some i \<Rightarrow>
          if big_BitLen (nat \<bar>i\<bar>) > 256 then Some (Inl BigIntExceeds256Bits)
          else Some (Inr (be_bytes 32 (nat \<bar>i\<bar>))))"

section \<open>Scalars (op-service/eth/types.go)\<close>

record EcotoneScalars =
  es_BlobBaseFeeScalar :: u32
  es_BaseFeeScalar :: u32

definition L1ScalarBedrock :: byte where
  "L1ScalarBedrock = 0"

definition L1ScalarEcotone :: byte where
  "L1ScalarEcotone = 1"

definition CheckEcotoneL1SystemConfigScalar :: "bytes \<Rightarrow> InfoErr option" where
  "CheckEcotoneL1SystemConfigScalar scalarBytes =
     (let versionByte = hd scalarBytes in
      if versionByte = L1ScalarBedrock then
        if take 27 (drop 1 scalarBytes) \<noteq> replicate 27 0 then Some ErrBedrockScalarPaddingNotEmpty else None
      else if versionByte = L1ScalarEcotone then
        if take 23 (drop 1 scalarBytes) \<noteq> replicate 23 0 then Some InvalidV1ScalarPadding else None
      else Some (UnrecognizedScalarVersion versionByte))"

definition DecodeScalar :: "bytes \<Rightarrow> InfoErr + EcotoneScalars" where
  "DecodeScalar scalarBytes =
     (if hd scalarBytes = L1ScalarBedrock then
        Inr \<lparr>es_BlobBaseFeeScalar = 0, es_BaseFeeScalar = Uint32BE (take 4 (drop 28 scalarBytes))\<rparr>
      else if hd scalarBytes = L1ScalarEcotone then
        Inr \<lparr>es_BlobBaseFeeScalar = Uint32BE (take 4 (drop 24 scalarBytes)),
             es_BaseFeeScalar = Uint32BE (take 4 (drop 28 scalarBytes))\<rparr>
      else Inl UnexpectedScalar)"

definition EncodeScalar :: "EcotoneScalars \<Rightarrow> bytes" where
  "EncodeScalar scalars =
     L1ScalarEcotone # replicate 23 0 @ PutUint32BE (es_BlobBaseFeeScalar scalars) @ PutUint32BE (es_BaseFeeScalar scalars)"

definition EcotoneScalars_of :: "SystemConfig \<Rightarrow> InfoErr + EcotoneScalars" where
  "EcotoneScalars_of sysCfg =
     (case CheckEcotoneL1SystemConfigScalar (sc_Scalar sysCfg) of
        Some e \<Rightarrow>
          if e = ErrBedrockScalarPaddingNotEmpty then
            Inr \<lparr>es_BlobBaseFeeScalar = 0, es_BaseFeeScalar = 0xFFFFFFFF\<rparr>
          else Inl e
      | None \<Rightarrow> DecodeScalar (sc_Scalar sysCfg))"

section \<open>L1 block info (l1_block_info.go)\<close>

definition bytes_of_string :: "string \<Rightarrow> bytes" where
  "bytes_of_string s = map of_char s"

definition L1InfoFuncBedrockBytes4 :: "(bytes \<Rightarrow> Hash) \<Rightarrow> bytes" where
  "L1InfoFuncBedrockBytes4 keccak =
     take 4 (keccak (bytes_of_string
       ''setL1BlockValues(uint64,uint64,uint256,bytes32,uint64,bytes32,uint256,uint256)''))"

definition L1InfoFuncEcotoneBytes4 :: "(bytes \<Rightarrow> Hash) \<Rightarrow> bytes" where
  "L1InfoFuncEcotoneBytes4 keccak = take 4 (keccak (bytes_of_string ''setL1BlockValuesEcotone()''))"

definition L1InfoFuncInteropBytes4 :: "(bytes \<Rightarrow> Hash) \<Rightarrow> bytes" where
  "L1InfoFuncInteropBytes4 keccak = take 4 (keccak (bytes_of_string ''setL1BlockValuesInterop()''))"

definition DepositsCompleteBytes4 :: "(bytes \<Rightarrow> Hash) \<Rightarrow> bytes" where
  "DepositsCompleteBytes4 keccak = take 4 (keccak (bytes_of_string ''depositsComplete()''))"

definition L1InfoBedrockLen :: nat where
  "L1InfoBedrockLen = 4 + 32 * 8"

definition L1InfoEcotoneLen :: nat where
  "L1InfoEcotoneLen = 4 + 32 * 5"

record L1BlockInfo =
  info_Number :: u64
  info_Time :: u64
  info_BaseFee :: "int option"
  info_BlockHash :: Hash
  info_SequenceNumber :: u64
  info_BatcherAddr :: Address
  info_L1FeeOverhead :: bytes
  info_L1FeeScalar :: bytes
  info_BlobBaseFee :: "int option"
  info_BaseFeeScalar :: u32
  info_BlobBaseFeeScalar :: u32

definition marshalBinaryBedrock :: "(bytes \<Rightarrow> Hash) \<Rightarrow> L1BlockInfo \<Rightarrow> writes" where
  "marshalBinaryBedrock keccak info =
     write_seq
       [WriteSignature (L1InfoFuncBedrockBytes4 keccak),
        WriteUint64 (info_Number info),
        WriteUint64 (info_Time info),
        WriteUint256 (info_BaseFee info),
        WriteHash (info_BlockHash info),
        WriteUint64 (info_SequenceNumber info),
        WriteAddress (info_BatcherAddr info),
        WriteEthBytes32 (info_L1FeeOverhead info),
        WriteEthBytes32 (info_L1FeeScalar info)]"

definition unmarshalBinaryBedrock :: "(bytes \<Rightarrow> Hash) \<Rightarrow> bytes \<Rightarrow> InfoErr + L1BlockInfo" where
  "unmarshalBinaryBedrock keccak data =
     (if length data \<noteq> L1InfoBedrockLen then Inl (UnexpectedDataLength (length data))
      else
        bind_res (ReadAndValidateSignature (L1InfoFuncBedrockBytes4 keccak) data) (\<lambda>(_, r).
        bind_res (ReadUint64 r) (\<lambda>(number, r).
        bind_res (ReadUint64 r) (\<lambda>(time, r).
        bind_res (ReadUint256 r) (\<lambda>(baseFee, r).
        bind_res (ReadHash r) (\<lambda>(blockHash, r).
        bind_res (ReadUint64 r) (\<lambda>(sequenceNumber, r).
        bind_res (ReadAddress r) (\<lambda>(batcherAddr, r).
        bind_res (ReadEthBytes32 r) (\<lambda>(overhead, r).
        bind_res (ReadEthBytes32 r) (\<lambda>(scalarBytes, r).
          if \<not> EmptyReader r then Inl TooManyBytes
          else Inr \<lparr>info_Number = number, info_Time = time, info_BaseFee = Some baseFee, info_BlockHash = blockHash,
                    info_SequenceNumber = sequenceNumber, info_BatcherAddr = batcherAddr, info_L1FeeOverhead = overhead,
                    info_L1FeeScalar = scalarBytes, info_BlobBaseFee = None, info_BaseFeeScalar = 0,
                    info_BlobBaseFeeScalar = 0\<rparr>))))))))))"

definition marshalBinaryWithSignature :: "L1BlockInfo \<Rightarrow> bytes \<Rightarrow> writes" where
  "marshalBinaryWithSignature info signature =
     write_seq
       [WriteSignature signature,
        Some (Inr (PutUint32BE (info_BaseFeeScalar info))),
        Some (Inr (PutUint32BE (info_BlobBaseFeeScalar info))),
        Some (Inr (PutUint64BE (info_SequenceNumber info))),
        Some (Inr (PutUint64BE (info_Time info))),
        Some (Inr (PutUint64BE (info_Number info))),
        WriteUint256 (info_BaseFee info),
        WriteUint256 (case info_BlobBaseFee info of None \<Rightarrow> Some 1 | Some f \<Rightarrow> Some f),
        WriteHash (info_BlockHash info),
        WriteAddress (info_BatcherAddr info)]"

definition marshalBinaryEcotone :: "(bytes \<Rightarrow> Hash) \<Rightarrow> L1BlockInfo \<Rightarrow> writes" where
  "marshalBinaryEcotone keccak info = marshalBinaryWithSignature info (L1InfoFuncEcotoneBytes4 keccak)"

definition marshalBinaryInterop :: "(bytes \<Rightarrow> Hash) \<Rightarrow> L1BlockInfo \<Rightarrow> writes" where
  "marshalBinaryInterop keccak info = marshalBinaryWithSignature info (L1InfoFuncInteropBytes4 keccak)"

definition unmarshalBinaryWithSignatureAndData :: "bytes \<Rightarrow> bytes \<Rightarrow> InfoErr + L1BlockInfo" where
  "unmarshalBinaryWithSignatureAndData signature data =
     (if length data \<noteq> L1InfoEcotoneLen then Inl (UnexpectedDataLength (length data))
      else
        bind_res (ReadAndValidateSignature signature data) (\<lambda>(_, r).
        bind_res (read_u32 r) (\<lambda>(baseFeeScalar, r).
        bind_res (read_u32 r) (\<lambda>(blobBaseFeeScalar, r).
        bind_res (read_u64 r) (\<lambda>(sequenceNumber, r).
        bind_res (read_u64 r) (\<lambda>(time, r).
        bind_res (read_u64 r) (\<lambda>(number, r).
        bind_res (ReadUint256 r) (\<lambda>(baseFee, r).
        bind_res (ReadUint256 r) (\<lambda>(blobBaseFee, r).
        bind_res (ReadHash r) (\<lambda>(blockHash, r).
        bind_res (ReadAddress r) (\<lambda>(batcherAddr, r).
          if \<not> EmptyReader r then Inl TooManyBytes
          else Inr \<lparr>info_Number = number, info_Time = time, info_BaseFee = Some baseFee, info_BlockHash = blockHash,
                    info_SequenceNumber = sequenceNumber, info_BatcherAddr = batcherAddr,
                    info_L1FeeOverhead = replicate 32 0, info_L1FeeScalar = replicate 32 0,
                    info_BlobBaseFee = Some blobBaseFee, info_BaseFeeScalar = baseFeeScalar,
                    info_BlobBaseFeeScalar = blobBaseFeeScalar\<rparr>)))))))))))"

definition unmarshalBinaryEcotone :: "(bytes \<Rightarrow> Hash) \<Rightarrow> bytes \<Rightarrow> InfoErr + L1BlockInfo" where
  "unmarshalBinaryEcotone keccak data = unmarshalBinaryWithSignatureAndData (L1InfoFuncEcotoneBytes4 keccak) data"

definition unmarshalBinaryInterop :: "(bytes \<Rightarrow> Hash) \<Rightarrow> bytes \<Rightarrow> InfoErr + L1BlockInfo" where
  "unmarshalBinaryInterop keccak data = unmarshalBinaryWithSignatureAndData (L1InfoFuncInteropBytes4 keccak) data"

definition isEcotoneButNotFirstBlock :: "Config \<Rightarrow> u64 \<Rightarrow> bool" where
  "isEcotoneButNotFirstBlock cfg l2Timestamp \<longleftrightarrow>
     IsEcotone cfg l2Timestamp \<and> \<not> IsEcotoneActivationBlock cfg l2Timestamp"

definition isInteropButNotFirstBlock :: "Config \<Rightarrow> u64 \<Rightarrow> bool" where
  "isInteropButNotFirstBlock cfg l2Timestamp \<longleftrightarrow>
     IsInterop cfg l2Timestamp \<and> \<not> IsInteropActivationBlock cfg l2Timestamp"

definition L1BlockInfoFromBytes :: "(bytes \<Rightarrow> Hash) \<Rightarrow> Config \<Rightarrow> u64 \<Rightarrow> bytes \<Rightarrow> InfoErr + L1BlockInfo" where
  "L1BlockInfoFromBytes keccak cfg l2BlockTime data =
     (if isInteropButNotFirstBlock cfg l2BlockTime then unmarshalBinaryInterop keccak data
      else if isEcotoneButNotFirstBlock cfg l2BlockTime then unmarshalBinaryEcotone keccak data
      else unmarshalBinaryBedrock keccak data)"

section \<open>Deposit transactions (core/types/deposit_tx.go, transaction.go)\<close>

record DepositTx =
  dep_SourceHash :: Hash
  dep_From :: Address
  dep_To :: "Address option"
  dep_Mint :: "int option"
  dep_Value :: "int option"
  dep_Gas :: u64
  dep_IsSystemTransaction :: bool
  dep_Data :: bytes

definition DepositTxType :: byte where
  "DepositTxType = 0x7E"

definition DepositTx_copy :: "DepositTx \<Rightarrow> DepositTx" where
  "DepositTx_copy tx = tx\<lparr>dep_Value := (case dep_Value tx of None \<Rightarrow> Some 0 | Some v \<Rightarrow> Some v)\<rparr>"

text \<open>The struct as the RLP library sees it, and its type. The nil tag of \<^verbatim>\<open>To\<close> selects the empty string for a byte
  array; the one of \<^verbatim>\<open>Mint\<close> has no effect on a \<^verbatim>\<open>*big.Int\<close>.\<close>

definition DepositTx_val :: "DepositTx \<Rightarrow> GoVal" where
  "DepositTx_val tx =
     GStruct [GByteArray (dep_SourceHash tx), GByteArray (dep_From tx), GPtr KString (map_option GByteArray (dep_To tx)),
              GBigInt (dep_Mint tx), GBigInt (dep_Value tx), GUint (dep_Gas tx), GBool (dep_IsSystemTransaction tx),
              GBytes (dep_Data tx)]"

definition DepositTx_type :: GoType where
  "DepositTx_type =
     TStruct [TByteArray 32, TByteArray 20, TNilPtr KString (TByteArray 20), TBigInt, TBigInt, TUint 64, TBool, TBytes]"

definition val_DepositTx :: "GoVal \<Rightarrow> DepositTx option" where
  "val_DepositTx v =
     (case v of
        GStruct [GByteArray sh, GByteArray from, GPtr k to, GBigInt mint, GBigInt value, GUint gas, GBool sys, GBytes dat] \<Rightarrow>
          Some \<lparr>dep_SourceHash = sh, dep_From = from,
                dep_To = (case to of Some (GByteArray a) \<Rightarrow> Some a | _ \<Rightarrow> None),
                dep_Mint = mint, dep_Value = value, dep_Gas = gas, dep_IsSystemTransaction = sys, dep_Data = dat\<rparr>
      | _ \<Rightarrow> None)"

text \<open>\<^verbatim>\<open>types.NewTx\<close> followed by \<^verbatim>\<open>MarshalBinary\<close>.\<close>

definition deposit_MarshalBinary :: "DepositTx \<Rightarrow> writes" where
  "deposit_MarshalBinary tx =
     (case rlp_Encode (DepositTx_val (DepositTx_copy tx)) of
        None \<Rightarrow> None
      | Some (Inl e) \<Rightarrow> Some (Inl (TxEncodeErr e))
      | Some (Inr b) \<Rightarrow> Some (Inr (DepositTxType # b)))"

text \<open>\<^verbatim>\<open>UnmarshalBinary\<close> followed by the test of the type: a transaction of another type ends in an error whether or not it
  decodes.\<close>

definition deposit_UnmarshalBinary :: "bytes \<Rightarrow> (InfoErr + DepositTx) option" where
  "deposit_UnmarshalBinary b =
     (if length b > 0 \<and> hd b > 0x7f then Some (Inl NotADeposit)
      else if length b \<le> 1 then Some (Inl ErrShortTypedTx)
      else if hd b \<noteq> DepositTxType then Some (Inl NotADeposit)
      else
        (case DecodeBytes DepositTx_type (drop 1 b) of
           None \<Rightarrow> None
         | Some (Inl e) \<Rightarrow> Some (Inl (TxDecodeErr e))
         | Some (Inr v) \<Rightarrow> (case val_DepositTx v of None \<Rightarrow> None | Some tx \<Rightarrow> Some (Inr tx))))"

section \<open>Source hashes (deposit_source.go)\<close>

definition UserDepositSourceDomain :: u64 where
  "UserDepositSourceDomain = 0"

definition L1InfoDepositSourceDomain :: u64 where
  "L1InfoDepositSourceDomain = 1"

definition UpgradeDepositSourceDomain :: u64 where
  "UpgradeDepositSourceDomain = 2"

definition AfterForceIncludeSourceDomain :: u64 where
  "AfterForceIncludeSourceDomain = 3"

definition domain_hash :: "(bytes \<Rightarrow> Hash) \<Rightarrow> u64 \<Rightarrow> Hash \<Rightarrow> Hash" where
  "domain_hash keccak domain depositIDHash = keccak (replicate 24 0 @ PutUint64BE domain @ depositIDHash)"

definition indexed_hash :: "(bytes \<Rightarrow> Hash) \<Rightarrow> Hash \<Rightarrow> u64 \<Rightarrow> Hash" where
  "indexed_hash keccak l1BlockHash i = keccak (l1BlockHash @ replicate 24 0 @ PutUint64BE i)"

definition UserDepositSource_SourceHash :: "(bytes \<Rightarrow> Hash) \<Rightarrow> Hash \<Rightarrow> u64 \<Rightarrow> Hash" where
  "UserDepositSource_SourceHash keccak l1BlockHash logIndex =
     domain_hash keccak UserDepositSourceDomain (indexed_hash keccak l1BlockHash logIndex)"

definition L1InfoDepositSource_SourceHash :: "(bytes \<Rightarrow> Hash) \<Rightarrow> Hash \<Rightarrow> u64 \<Rightarrow> Hash" where
  "L1InfoDepositSource_SourceHash keccak l1BlockHash seqNumber =
     domain_hash keccak L1InfoDepositSourceDomain (indexed_hash keccak l1BlockHash seqNumber)"

definition UpgradeDepositSource_SourceHash :: "(bytes \<Rightarrow> Hash) \<Rightarrow> string \<Rightarrow> Hash" where
  "UpgradeDepositSource_SourceHash keccak intent =
     domain_hash keccak UpgradeDepositSourceDomain (keccak (bytes_of_string intent))"

definition AfterForceIncludeSource_SourceHash :: "(bytes \<Rightarrow> Hash) \<Rightarrow> Hash \<Rightarrow> u64 \<Rightarrow> Hash" where
  "AfterForceIncludeSource_SourceHash keccak l1BlockHash seqNumber =
     domain_hash keccak AfterForceIncludeSourceDomain (indexed_hash keccak l1BlockHash seqNumber)"

section \<open>The L1 info deposit (l1_block_info.go)\<close>

text \<open>What the code reads of an L1 header through \<^verbatim>\<open>eth.BlockInfo\<close>.\<close>

record BlockInfo =
  bi_Hash :: Hash
  bi_ParentHash :: Hash
  bi_NumberU64 :: u64
  bi_Time :: u64
  bi_MixDigest :: Hash
  bi_BaseFee :: "int option"
  bi_BlobBaseFee :: "int option"
  bi_ParentBeaconRoot :: "Hash option"

definition L1InfoDepositerAddress :: Address where
  "L1InfoDepositerAddress = HexToAddress ''0xdeaddeaddeaddeaddeaddeaddeaddeaddead0001''"

definition L1BlockAddress :: Address where
  "L1BlockAddress = HexToAddress ''0x4200000000000000000000000000000000000015''"

definition RegolithSystemTxGas :: u64 where
  "RegolithSystemTxGas = 1000000"

definition DepositsCompleteGas :: u64 where
  "DepositsCompleteGas = 21000 + 15000"

definition L1InfoDeposit_data :: "(bytes \<Rightarrow> Hash) \<Rightarrow> Config \<Rightarrow> SystemConfig \<Rightarrow> u64 \<Rightarrow> BlockInfo \<Rightarrow> u64 \<Rightarrow> writes" where
  "L1InfoDeposit_data keccak cfg sysCfg seqNumber block l2Timestamp =
     (let l1BlockInfo =
            \<lparr>info_Number = bi_NumberU64 block, info_Time = bi_Time block, info_BaseFee = bi_BaseFee block,
             info_BlockHash = bi_Hash block, info_SequenceNumber = seqNumber, info_BatcherAddr = sc_BatcherAddr sysCfg,
             info_L1FeeOverhead = replicate 32 0, info_L1FeeScalar = replicate 32 0, info_BlobBaseFee = None,
             info_BaseFeeScalar = 0, info_BlobBaseFeeScalar = 0\<rparr>
      in if isEcotoneButNotFirstBlock cfg l2Timestamp then
           (case EcotoneScalars_of sysCfg of
              Inl e \<Rightarrow> Some (Inl e)
            | Inr scalars \<Rightarrow>
                (let l1BlockInfo = l1BlockInfo\<lparr>
                       info_BlobBaseFee := (case bi_BlobBaseFee block of None \<Rightarrow> Some 1 | Some f \<Rightarrow> Some f),
                       info_BlobBaseFeeScalar := es_BlobBaseFeeScalar scalars,
                       info_BaseFeeScalar := es_BaseFeeScalar scalars\<rparr>
                 in if isInteropButNotFirstBlock cfg l2Timestamp then marshalBinaryInterop keccak l1BlockInfo
                    else marshalBinaryEcotone keccak l1BlockInfo))
         else
           marshalBinaryBedrock keccak
             (l1BlockInfo\<lparr>info_L1FeeOverhead := sc_Overhead sysCfg, info_L1FeeScalar := sc_Scalar sysCfg\<rparr>))"

definition L1InfoDeposit ::
  "(bytes \<Rightarrow> Hash) \<Rightarrow> Config \<Rightarrow> SystemConfig \<Rightarrow> u64 \<Rightarrow> BlockInfo \<Rightarrow> u64 \<Rightarrow> (InfoErr + DepositTx) option" where
  "L1InfoDeposit keccak cfg sysCfg seqNumber block l2Timestamp =
     (case L1InfoDeposit_data keccak cfg sysCfg seqNumber block l2Timestamp of
        None \<Rightarrow> None
      | Some (Inl e) \<Rightarrow> Some (Inl e)
      | Some (Inr data) \<Rightarrow>
          (let out = \<lparr>dep_SourceHash = L1InfoDepositSource_SourceHash keccak (bi_Hash block) seqNumber,
                      dep_From = L1InfoDepositerAddress, dep_To = Some L1BlockAddress, dep_Mint = None,
                      dep_Value = Some 0, dep_Gas = 150000000, dep_IsSystemTransaction = True, dep_Data = data\<rparr>
           in Some (Inr (if IsRegolith cfg l2Timestamp
                         then out\<lparr>dep_IsSystemTransaction := False, dep_Gas := RegolithSystemTxGas\<rparr> else out))))"

definition L1InfoDepositBytes :: "(bytes \<Rightarrow> Hash) \<Rightarrow> Config \<Rightarrow> SystemConfig \<Rightarrow> u64 \<Rightarrow> BlockInfo \<Rightarrow> u64 \<Rightarrow> writes" where
  "L1InfoDepositBytes keccak cfg sysCfg seqNumber l1Info l2Timestamp =
     (case L1InfoDeposit keccak cfg sysCfg seqNumber l1Info l2Timestamp of
        None \<Rightarrow> None
      | Some (Inl e) \<Rightarrow> Some (Inl e)
      | Some (Inr dep) \<Rightarrow> deposit_MarshalBinary dep)"

definition DepositsCompleteDeposit :: "(bytes \<Rightarrow> Hash) \<Rightarrow> u64 \<Rightarrow> BlockInfo \<Rightarrow> DepositTx" where
  "DepositsCompleteDeposit keccak seqNumber block =
     \<lparr>dep_SourceHash = AfterForceIncludeSource_SourceHash keccak (bi_Hash block) seqNumber,
      dep_From = L1InfoDepositerAddress, dep_To = Some L1BlockAddress, dep_Mint = None, dep_Value = Some 0,
      dep_Gas = DepositsCompleteGas, dep_IsSystemTransaction = False, dep_Data = DepositsCompleteBytes4 keccak\<rparr>"

definition DepositsCompleteBytes :: "(bytes \<Rightarrow> Hash) \<Rightarrow> u64 \<Rightarrow> BlockInfo \<Rightarrow> writes" where
  "DepositsCompleteBytes keccak seqNumber l1Info = deposit_MarshalBinary (DepositsCompleteDeposit keccak seqNumber l1Info)"

section \<open>Reading a block back (payload_util.go, l2block_util.go)\<close>

definition PayloadToBlockRef :: "(bytes \<Rightarrow> Hash) \<Rightarrow> Config \<Rightarrow> ExecutionPayload \<Rightarrow> (InfoErr + L2BlockRef) option" where
  "PayloadToBlockRef keccak cfg payload =
     (let genesis = cfg_Genesis cfg;
          ref = (\<lambda>l1Origin sequenceNumber.
                   \<lparr>l2_Hash = ep_BlockHash payload, l2_Number = ep_BlockNumber payload,
                    l2_ParentHash = ep_ParentHash payload, l2_Time = ep_Timestamp payload, l2_L1Origin = l1Origin,
                    l2_SequenceNumber = sequenceNumber\<rparr>)
      in if ep_BlockNumber payload = id_Number (gen_L2 genesis) then
           if ep_BlockHash payload \<noteq> id_Hash (gen_L2 genesis) then Some (Inl GenesisHashMismatch)
           else Some (Inr (ref (gen_L1 genesis) 0))
         else
           (case ep_Transactions payload of
              [] \<Rightarrow> Some (Inl MissingL1InfoTx)
            | t # _ \<Rightarrow>
                (case deposit_UnmarshalBinary t of
                   None \<Rightarrow> None
                 | Some (Inl e) \<Rightarrow> Some (Inl e)
                 | Some (Inr tx) \<Rightarrow>
                     (case L1BlockInfoFromBytes keccak cfg (ep_Timestamp payload) (dep_Data tx) of
                        Inl e \<Rightarrow> Some (Inl e)
                      | Inr info \<Rightarrow>
                          Some (Inr (ref \<lparr>id_Hash = info_BlockHash info, id_Number = info_Number info\<rparr>
                                         (info_SequenceNumber info)))))))"

definition PayloadToSystemConfig :: "(bytes \<Rightarrow> Hash) \<Rightarrow> Config \<Rightarrow> ExecutionPayload \<Rightarrow> (InfoErr + SystemConfig) option" where
  "PayloadToSystemConfig keccak cfg payload =
     (if ep_BlockNumber payload = id_Number (gen_L2 (cfg_Genesis cfg)) then
        if ep_BlockHash payload \<noteq> id_Hash (gen_L2 (cfg_Genesis cfg)) then Some (Inl GenesisHashMismatch)
        else Some (Inr (gen_SystemConfig (cfg_Genesis cfg)))
      else
        (case ep_Transactions payload of
           [] \<Rightarrow> Some (Inl MissingL1InfoTx)
         | t # _ \<Rightarrow>
             (case deposit_UnmarshalBinary t of
                None \<Rightarrow> None
              | Some (Inl e) \<Rightarrow> Some (Inl e)
              | Some (Inr tx) \<Rightarrow>
                  (case L1BlockInfoFromBytes keccak cfg (ep_Timestamp payload) (dep_Data tx) of
                     Inl e \<Rightarrow> Some (Inl e)
                   | Inr info \<Rightarrow>
                       (let l1FeeScalar =
                              (if isEcotoneButNotFirstBlock cfg (ep_Timestamp payload)
                               then (1 # take 23 (drop 1 (info_L1FeeScalar info))) @
                                    PutUint32BE (info_BlobBaseFeeScalar info) @ PutUint32BE (info_BaseFeeScalar info)
                               else info_L1FeeScalar info);
                            r = \<lparr>sc_BatcherAddr = info_BatcherAddr info, sc_Overhead = info_L1FeeOverhead info,
                                 sc_Scalar = l1FeeScalar, sc_GasLimit = ep_GasLimit payload,
                                 sc_EIP1559Params = replicate 8 0\<rparr>
                        in if IsHolocene cfg (ep_Timestamp payload) then
                             (case ValidateHoloceneExtraData (ep_ExtraData payload) of
                                Some e \<Rightarrow> Some (Inl (HoloceneExtra e))
                              | None \<Rightarrow>
                                  (case DecodeHoloceneExtraData (ep_ExtraData payload) of
                                     (d, e) \<Rightarrow>
                                       (case EncodeHolocene1559Params d e of
                                          None \<Rightarrow> None
                                        | Some params \<Rightarrow> Some (Inr (r\<lparr>sc_EIP1559Params := params\<rparr>)))))
                           else Some (Inr r))))))"

text \<open>A block as \<^verbatim>\<open>L2BlockRefSource\<close> offers it: each transaction with its type and call data.\<close>

record L2BlockRefSource =
  src_Hash :: Hash
  src_ParentHash :: Hash
  src_NumberU64 :: u64
  src_Time :: u64
  src_Transactions :: "(byte \<times> bytes) list"

definition L2BlockToBlockRef :: "(bytes \<Rightarrow> Hash) \<Rightarrow> Config \<Rightarrow> L2BlockRefSource \<Rightarrow> InfoErr + L2BlockRef" where
  "L2BlockToBlockRef keccak cfg block =
     (let genesis = cfg_Genesis cfg;
          ref = (\<lambda>l1Origin sequenceNumber.
                   \<lparr>l2_Hash = src_Hash block, l2_Number = src_NumberU64 block, l2_ParentHash = src_ParentHash block,
                    l2_Time = src_Time block, l2_L1Origin = l1Origin, l2_SequenceNumber = sequenceNumber\<rparr>)
      in if src_NumberU64 block = id_Number (gen_L2 genesis) then
           if src_Hash block \<noteq> id_Hash (gen_L2 genesis) then Inl GenesisHashMismatch else Inr (ref (gen_L1 genesis) 0)
         else
           (case src_Transactions block of
              [] \<Rightarrow> Inl MissingL1InfoTx
            | (typ, data) # _ \<Rightarrow>
                if typ \<noteq> DepositTxType then Inl NotADeposit
                else
                  bind_res (L1BlockInfoFromBytes keccak cfg (src_Time block) data) (\<lambda>info.
                    Inr (ref \<lparr>id_Hash = info_BlockHash info, id_Number = info_Number info\<rparr> (info_SequenceNumber info)))))"

end
