(* ===== verification/L1_Info_Props.thy ===== *)
theory L1_Info_Props
  imports L1_Info Rlp_Props Rollup_Props
begin

text \<open>
  What the L1 info transaction guarantees: its call data is parsed exactly when it was written by the matching
  writer, deposits survive their encoding, and a block that starts with the L1 info deposit is read back with the L1
  origin and sequence number it was built with.
\<close>

section \<open>Readers\<close>

lemma ReadFull_iff [result_simps]: "io_ReadFull n r = Inr (a, r') \<longleftrightarrow> length a = n \<and> r = a @ r'"
  by (auto simp: io_ReadFull_def)

lemma Uint64BE_iff: "length b = 8 \<Longrightarrow> Uint64BE b = n \<longleftrightarrow> b = PutUint64BE n"
  using Put_Uint(3) [of b] by auto

lemma Uint32BE_iff: "length b = 4 \<Longrightarrow> Uint32BE b = n \<longleftrightarrow> b = PutUint32BE n"
  using Put_Uint(2) [of b] by auto

lemma ReadSignature_iff [result_simps]:
  "ReadAndValidateSignature sig r = Inr (s, r') \<longleftrightarrow> s = sig \<and> length sig = 4 \<and> r = sig @ r'"
  by (auto simp: ReadAndValidateSignature_def result_simps split: if_splits)

lemma ReadHash_iff [result_simps]:
  "ReadHash r = Inr (h, r') \<longleftrightarrow> length h = 32 \<and> r = h @ r'" "ReadEthBytes32 r = Inr (h, r') \<longleftrightarrow> length h = 32 \<and> r = h @ r'"
  by (simp_all add: ReadHash_def ReadEthBytes32_def ReadFull_iff)

lemma ReadAddress_iff [result_simps]:
  "ReadAddress r = Inr (a, r') \<longleftrightarrow> length a = 20 \<and> r = replicate 12 0 @ a @ r'"
  by (auto simp: ReadAddress_def result_simps split: if_splits)

lemma read8_iff:
  "(case io_ReadFull 8 r of Inl e \<Rightarrow> Inl err | Inr (b, r1) \<Rightarrow> Inr (Uint64BE b, r1)) = Inr (n, r') \<longleftrightarrow> r = PutUint64BE n @ r'"
proof -
  have "(case io_ReadFull 8 r of Inl e \<Rightarrow> Inl err | Inr (b, r1) \<Rightarrow> Inr (Uint64BE b, r1)) = Inr (n, r') \<longleftrightarrow>
      (\<exists>b. io_ReadFull 8 r = Inr (b, r') \<and> Uint64BE b = n)"
    by (auto split: sum.splits)
  then show ?thesis using Uint64BE_iff by (auto simp: ReadFull_iff)
qed

lemma read_u64_iff [result_simps]: "read_u64 r = Inr (n, r') \<longleftrightarrow> r = PutUint64BE n @ r'"
  by (simp only: read_u64_def read8_iff)

lemma read_u32_iff [result_simps]: "read_u32 r = Inr (n, r') \<longleftrightarrow> r = PutUint32BE n @ r'"
proof -
  have "read_u32 r = Inr (n, r') \<longleftrightarrow> (\<exists>b. io_ReadFull 4 r = Inr (b, r') \<and> Uint32BE b = n)"
    by (auto simp: read_u32_def split: sum.splits)
  then show ?thesis using Uint32BE_iff by (auto simp: ReadFull_iff)
qed

lemma ReadUint64_iff [result_simps]: "ReadUint64 r = Inr (n, r') \<longleftrightarrow> r = replicate 24 0 @ PutUint64BE n @ r'"
  by (auto simp: ReadUint64_def bind_res_Inr_iff ReadFull_iff read8_iff split: if_splits)

lemma ReadUint256_iff [result_simps]:
  "ReadUint256 r = Inr (i, r') \<longleftrightarrow> 0 \<le> i \<and> i < 2 ^ 256 \<and> r = be_bytes 32 (nat i) @ r'"
proof
  assume "ReadUint256 r = Inr (i, r')"
  then obtain b where b: "length b = 32" "r = b @ r'" "i = int (be_val b)" by (auto simp: ReadUint256_def result_simps)
  have "be_val b < 2 ^ 256" using be_val_less [of b] b(1) by simp
  then show "0 \<le> i \<and> i < 2 ^ 256 \<and> r = be_bytes 32 (nat i) @ r'"
    using b be_bytes_be_val [of b] by simp
next
  assume i: "0 \<le> i \<and> i < 2 ^ 256 \<and> r = be_bytes 32 (nat i) @ r'"
  then have "nat i < 256 ^ 32" by (simp add: nat_less_iff)
  then have "be_val (be_bytes 32 (nat i)) = nat i" by (rule be_val_be_bytes)
  then show "ReadUint256 r = Inr (i, r')" using i by (simp add: ReadUint256_def io_ReadFull_def)
qed

lemma WriteUint256_ok: "0 \<le> i \<Longrightarrow> i < 2 ^ 256 \<Longrightarrow> WriteUint256 (Some i) = Some (Inr (be_bytes 32 (nat i)))"
proof -
  assume "0 \<le> i" "i < 2 ^ 256"
  then have "nat i < 2 ^ 256" by (simp add: nat_less_iff)
  then have "big_BitLen (nat i) \<le> 256" by (simp only: BitLen_le)
  then show ?thesis using \<open>0 \<le> i\<close> by (simp add: WriteUint256_def)
qed

section \<open>Call data\<close>

definition bedrock_info :: "L1BlockInfo \<Rightarrow> bool" where
  "bedrock_info info \<longleftrightarrow> (\<exists>f. info_BaseFee info = Some f \<and> 0 \<le> f \<and> f < 2 ^ 256) \<and> length (info_BlockHash info) = 32 \<and>
     length (info_BatcherAddr info) = 20 \<and> length (info_L1FeeOverhead info) = 32 \<and> length (info_L1FeeScalar info) = 32 \<and>
     info_BlobBaseFee info = None \<and> info_BaseFeeScalar info = 0 \<and> info_BlobBaseFeeScalar info = 0"

definition ecotone_info :: "L1BlockInfo \<Rightarrow> bool" where
  "ecotone_info info \<longleftrightarrow> (\<exists>f. info_BaseFee info = Some f \<and> 0 \<le> f \<and> f < 2 ^ 256) \<and> length (info_BlockHash info) = 32 \<and>
     length (info_BatcherAddr info) = 20 \<and> info_L1FeeOverhead info = replicate 32 0 \<and> info_L1FeeScalar info = replicate 32 0 \<and>
     (\<exists>f. info_BlobBaseFee info = Some f \<and> 0 \<le> f \<and> f < 2 ^ 256)"

lemmas write_defs = WriteSignature_def WriteUint64_def WriteHash_def WriteAddress_def WriteEthBytes32_def

definition bedrock_bytes :: "bytes \<Rightarrow> L1BlockInfo \<Rightarrow> bytes" where
  "bedrock_bytes sig info =
     sig @ replicate 24 0 @ PutUint64BE (info_Number info) @ replicate 24 0 @ PutUint64BE (info_Time info) @
     be_bytes 32 (nat (the (info_BaseFee info))) @ info_BlockHash info @ replicate 24 0 @
     PutUint64BE (info_SequenceNumber info) @ replicate 12 0 @ info_BatcherAddr info @ info_L1FeeOverhead info @
     info_L1FeeScalar info"

definition ecotone_bytes :: "bytes \<Rightarrow> L1BlockInfo \<Rightarrow> bytes" where
  "ecotone_bytes sig info =
     sig @ PutUint32BE (info_BaseFeeScalar info) @ PutUint32BE (info_BlobBaseFeeScalar info) @
     PutUint64BE (info_SequenceNumber info) @ PutUint64BE (info_Time info) @ PutUint64BE (info_Number info) @
     be_bytes 32 (nat (the (info_BaseFee info))) @ be_bytes 32 (nat (the (info_BlobBaseFee info))) @
     info_BlockHash info @ replicate 12 0 @ info_BatcherAddr info"

lemma marshal_bedrock:
  "bedrock_info info \<Longrightarrow> marshalBinaryBedrock keccak info = Some (Inr (bedrock_bytes (L1InfoFuncBedrockBytes4 keccak) info))"
  by (auto simp: bedrock_info_def marshalBinaryBedrock_def write_defs WriteUint256_ok bedrock_bytes_def)

lemma marshal_ecotone:
  "ecotone_info info \<Longrightarrow> marshalBinaryWithSignature info sig = Some (Inr (ecotone_bytes sig info))"
  by (auto simp: ecotone_info_def marshalBinaryWithSignature_def write_defs WriteUint256_ok ecotone_bytes_def)

lemma unmarshal_bedrock:
  assumes "length (L1InfoFuncBedrockBytes4 keccak) = 4"
  shows "unmarshalBinaryBedrock keccak d = Inr info \<longleftrightarrow>
    bedrock_info info \<and> d = bedrock_bytes (L1InfoFuncBedrockBytes4 keccak) info"
  using assms
  by (cases info) (auto simp: unmarshalBinaryBedrock_def result_simps EmptyReader_def bedrock_info_def bedrock_bytes_def
      L1InfoBedrockLen_def)

lemma unmarshal_ecotone:
  assumes "length sig = 4"
  shows "unmarshalBinaryWithSignatureAndData sig d = Inr info \<longleftrightarrow> ecotone_info info \<and> d = ecotone_bytes sig info"
  using assms
  by (cases info) (auto simp: unmarshalBinaryWithSignatureAndData_def result_simps EmptyReader_def ecotone_info_def
      ecotone_bytes_def L1InfoEcotoneLen_def)

lemma length_selectors:
  assumes "\<And>b. length (keccak b) = 32"
  shows "length (L1InfoFuncBedrockBytes4 keccak) = 4" "length (L1InfoFuncEcotoneBytes4 keccak) = 4"
    "length (L1InfoFuncInteropBytes4 keccak) = 4" "length (DepositsCompleteBytes4 keccak) = 4"
  by (simp_all add: L1InfoFuncBedrockBytes4_def L1InfoFuncEcotoneBytes4_def L1InfoFuncInteropBytes4_def
      DepositsCompleteBytes4_def assms)

text \<open>The writer that the block time selects, and the infos it writes in full.\<close>

definition info_valid :: "Config \<Rightarrow> u64 \<Rightarrow> L1BlockInfo \<Rightarrow> bool" where
  "info_valid cfg t info =
     (if isInteropButNotFirstBlock cfg t \<or> isEcotoneButNotFirstBlock cfg t then ecotone_info info else bedrock_info info)"

definition info_bytes :: "(bytes \<Rightarrow> Hash) \<Rightarrow> Config \<Rightarrow> u64 \<Rightarrow> L1BlockInfo \<Rightarrow> bytes" where
  "info_bytes keccak cfg t info =
     (if isInteropButNotFirstBlock cfg t then ecotone_bytes (L1InfoFuncInteropBytes4 keccak) info
      else if isEcotoneButNotFirstBlock cfg t then ecotone_bytes (L1InfoFuncEcotoneBytes4 keccak) info
      else bedrock_bytes (L1InfoFuncBedrockBytes4 keccak) info)"

lemma L1BlockInfoFromBytes_iff:
  assumes "\<And>b. length (keccak b) = 32"
  shows "L1BlockInfoFromBytes keccak cfg t d = Inr info \<longleftrightarrow> info_valid cfg t info \<and> d = info_bytes keccak cfg t info"
  by (simp add: L1BlockInfoFromBytes_def unmarshalBinaryInterop_def unmarshalBinaryEcotone_def info_valid_def info_bytes_def
      unmarshal_ecotone length_selectors [OF assms] unmarshal_bedrock)

section \<open>Deposit transactions\<close>

definition deposit_ok :: "DepositTx \<Rightarrow> bool" where
  "deposit_ok tx \<longleftrightarrow> length (dep_SourceHash tx) = 32 \<and> length (dep_From tx) = 20 \<and>
     (\<forall>a. dep_To tx = Some a \<longrightarrow> length a = 20) \<and> (\<forall>m. dep_Mint tx = Some m \<longrightarrow> 0 \<le> m \<and> m < 2 ^ 256) \<and>
     (\<forall>v. dep_Value tx = Some v \<longrightarrow> 0 \<le> v \<and> v < 2 ^ 256) \<and> length (dep_Data tx) < 2 ^ 60"

text \<open>What comes back: the missing integers are read as zero.\<close>

definition deposit_norm :: "DepositTx \<Rightarrow> DepositTx" where
  "deposit_norm tx = tx\<lparr>dep_Mint := Some (case dep_Mint tx of None \<Rightarrow> 0 | Some m \<Rightarrow> m),
     dep_Value := Some (case dep_Value tx of None \<Rightarrow> 0 | Some v \<Rightarrow> v)\<rparr>"

lemma length_rlp_head_9: "n < 2 ^ 64 \<Longrightarrow> length (rlp_head s l n) \<le> 9"
proof -
  assume "n < 2 ^ 64"
  then have "length (be_min n) \<le> 8" by (simp add: length_be_min_le)
  then show ?thesis by (simp add: length_rlp_head)
qed

lemma length_rlp_str_9: "length b < 2 ^ 64 \<Longrightarrow> length (rlp_enc (RString b)) \<le> length b + 9"
  using length_rlp_head_9 [of "length b"] by (simp add: rlp_str_def add.commute)

lemma length_rlp_list_9:
  "length (concat (map rlp_enc xs)) < 2 ^ 64 \<Longrightarrow> length (rlp_enc (RList xs)) \<le> length (concat (map rlp_enc xs)) + 9"
  using length_rlp_head_9 [of "length (concat (map rlp_enc xs))"] by (simp add: Let_def)

definition deposit_items :: "DepositTx \<Rightarrow> rlp list" where
  "deposit_items tx = map RString
     [dep_SourceHash tx, dep_From tx, case dep_To tx of None \<Rightarrow> [] | Some a \<Rightarrow> a,
      be_min (nat (case dep_Mint tx of None \<Rightarrow> 0 | Some m \<Rightarrow> m)), be_min (nat (case dep_Value tx of None \<Rightarrow> 0 | Some v \<Rightarrow> v)),
      be_min (unat (dep_Gas tx)), if dep_IsSystemTransaction tx then [1] else [], dep_Data tx]"

lemma deposit_rlp: "deposit_ok tx \<Longrightarrow> val_rlp (DepositTx_val (DepositTx_copy tx)) = Some (RList (deposit_items tx))"
  by (auto simp: deposit_ok_def DepositTx_val_def DepositTx_copy_def deposit_items_def split: option.splits)

lemma deposit_rlp_norm: "deposit_ok tx \<Longrightarrow> val_rlp (DepositTx_val (deposit_norm tx)) = Some (RList (deposit_items tx))"
  by (auto simp: deposit_ok_def DepositTx_val_def deposit_norm_def deposit_items_def split: option.splits)

lemma length_items:
  assumes "\<forall>x \<in> set xs. length (rlp_enc x) \<le> k"
  shows "length (concat (map rlp_enc xs)) \<le> length xs * k"
  using assms by (induction xs) auto

lemma deposit_length:
  assumes "deposit_ok tx"
  shows "length (rlp_enc (RList (deposit_items tx))) < 2 ^ 64"
proof -
  have be: "length (be_min (nat i)) \<le> 32" if "i < 2 ^ 256" for i
    using that by (cases "0 \<le> i") (simp_all add: length_be_min_le nat_less_iff)
  have g: "length (be_min (unat (dep_Gas tx))) \<le> 8" by (rule be_min_u64)
  have m: "length (be_min (nat (case dep_Mint tx of None \<Rightarrow> 0 | Some m \<Rightarrow> m))) \<le> 32"
    "length (be_min (nat (case dep_Value tx of None \<Rightarrow> 0 | Some v \<Rightarrow> v))) \<le> 32"
    using assms by (auto simp: deposit_ok_def intro!: be split: option.splits)
  have le: "length b \<le> 2 ^ 60" if "RString b \<in> set (deposit_items tx)" for b
  proof -
    have "length b \<le> 32 \<or> b = dep_Data tx"
      using that assms m g by (auto simp: deposit_items_def deposit_ok_def simp del: option.case_eq_if split: option.splits if_splits)
    then show ?thesis using assms by (auto simp: deposit_ok_def)
  qed
  have "length (rlp_enc x) \<le> 2 ^ 60 + 9" if x: "x \<in> set (deposit_items tx)" for x
  proof -
    obtain b where b: "x = RString b" using x by (auto simp: deposit_items_def)
    then show ?thesis using le [of b] x length_rlp_str_9 [of b] by simp
  qed
  then have "length (concat (map rlp_enc (deposit_items tx))) \<le> length (deposit_items tx) * (2 ^ 60 + 9)"
    by (intro length_items) blast
  then show ?thesis using length_rlp_list_9 [of "deposit_items tx"] by (simp add: deposit_items_def)
qed


lemma deposit_marshal:
  assumes "deposit_ok tx"
  shows "deposit_MarshalBinary tx = Some (Inr (DepositTxType # rlp_enc (RList (deposit_items tx))))"
proof -
  have "length (rlp_enc r) < 2 ^ 64" if "val_rlp (DepositTx_val (DepositTx_copy tx)) = Some r" for r
    using that deposit_rlp [OF assms] deposit_length [OF assms] by simp
  then have "rlp_Encode (DepositTx_val (DepositTx_copy tx)) = Some (Inr (rlp_enc (RList (deposit_items tx))))"
    using EncodeToBytes_eq [of "DepositTx_val (DepositTx_copy tx)"] deposit_rlp [OF assms] by simp
  then show ?thesis by (simp add: deposit_MarshalBinary_def)
qed

lemma deposit_has_type: "deposit_ok tx \<Longrightarrow> has_type DepositTx_type (DepositTx_val (deposit_norm tx))"
  using u64_bound [of "dep_Gas tx"]
  by (cases "dep_To tx") (auto simp: deposit_ok_def DepositTx_type_def DepositTx_val_def deposit_norm_def split: option.splits)

lemma val_DepositTx_val: "val_DepositTx (DepositTx_val tx) = Some tx"
  by (cases "dep_To tx") (simp_all add: DepositTx_val_def val_DepositTx_def)

lemma DepositTx_type_ok: "ty_ok DepositTx_type"
  by (simp add: DepositTx_type_def)

lemma deposit_unmarshal:
  assumes "deposit_ok tx"
  shows "deposit_UnmarshalBinary (DepositTxType # rlp_enc (RList (deposit_items tx))) = Some (Inr (deposit_norm tx))"
proof -
  let ?b = "rlp_enc (RList (deposit_items tx))"
  obtain x where "val_rlp (DepositTx_val (deposit_norm tx)) = Some x" "conv DepositTx_type x = Some (DepositTx_val (deposit_norm tx))"
    using conv_val_rlp [OF deposit_has_type [OF assms]] by blast
  then have "conv DepositTx_type (RList (deposit_items tx)) = Some (DepositTx_val (deposit_norm tx))"
    using deposit_rlp_norm [OF assms] by simp
  then have "DecodeBytes DepositTx_type ?b = Some (Inr (DepositTx_val (deposit_norm tx)))"
    using DecodeBytes_iff(1) [OF DepositTx_type_ok deposit_length [OF assms]] by blast
  moreover have "?b \<noteq> []" by (simp add: Let_def rlp_head_def)
  ultimately show ?thesis
    by (simp add: deposit_UnmarshalBinary_def DepositTxType_def val_DepositTx_val del: rlp_enc.simps)
qed

section \<open>The L1 info deposit\<close>

lemma HexToAddress_length: "length (HexToAddress s) = 20"
  by (simp add: HexToAddress_def BytesToAddress_def set_bytes_def Let_def)

definition l1_ok :: "BlockInfo \<Rightarrow> SystemConfig \<Rightarrow> bool" where
  "l1_ok block sysCfg \<longleftrightarrow> length (bi_Hash block) = 32 \<and> length (sc_BatcherAddr sysCfg) = 20 \<and>
     length (sc_Overhead sysCfg) = 32 \<and> length (sc_Scalar sysCfg) = 32 \<and>
     (\<exists>f. bi_BaseFee block = Some f \<and> 0 \<le> f \<and> f < 2 ^ 256) \<and> (\<forall>f. bi_BlobBaseFee block = Some f \<longrightarrow> 0 \<le> f \<and> f < 2 ^ 256)"

text \<open>The info that a block carries.\<close>

definition l1_info :: "Config \<Rightarrow> SystemConfig \<Rightarrow> u64 \<Rightarrow> BlockInfo \<Rightarrow> u64 \<Rightarrow> L1BlockInfo" where
  "l1_info cfg sysCfg seq block t =
     (let eco = isEcotoneButNotFirstBlock cfg t;
          scs = (case EcotoneScalars_of sysCfg of Inl e \<Rightarrow> \<lparr>es_BlobBaseFeeScalar = 0, es_BaseFeeScalar = 0\<rparr> | Inr s \<Rightarrow> s)
      in \<lparr>info_Number = bi_NumberU64 block, info_Time = bi_Time block, info_BaseFee = bi_BaseFee block,
          info_BlockHash = bi_Hash block, info_SequenceNumber = seq, info_BatcherAddr = sc_BatcherAddr sysCfg,
          info_L1FeeOverhead = (if eco then replicate 32 0 else sc_Overhead sysCfg),
          info_L1FeeScalar = (if eco then replicate 32 0 else sc_Scalar sysCfg),
          info_BlobBaseFee = (if eco then Some (case bi_BlobBaseFee block of None \<Rightarrow> 1 | Some f \<Rightarrow> f) else None),
          info_BaseFeeScalar = (if eco then es_BaseFeeScalar scs else 0),
          info_BlobBaseFeeScalar = (if eco then es_BlobBaseFeeScalar scs else 0)\<rparr>)"

lemma interop_ecotone:
  assumes "\<And>t. IsInterop cfg t \<Longrightarrow> IsEcotone cfg t" "isInteropButNotFirstBlock cfg t"
  shows "isEcotoneButNotFirstBlock cfg t"
  using assms by (auto simp: isInteropButNotFirstBlock_def isEcotoneButNotFirstBlock_def IsInteropActivationBlock_def
      IsEcotoneActivationBlock_def activation_block_def)

lemma l1_info_valid:
  assumes "l1_ok block sysCfg" "\<And>t. IsInterop cfg t \<Longrightarrow> IsEcotone cfg t"
  shows "info_valid cfg t (l1_info cfg sysCfg seq block t)"
proof (cases "isEcotoneButNotFirstBlock cfg t")
  case True
  then show ?thesis using assms(1)
    by (auto simp: info_valid_def l1_info_def Let_def ecotone_info_def l1_ok_def split: option.splits)
next
  case False
  then have "\<not> isInteropButNotFirstBlock cfg t" using interop_ecotone [OF assms(2)] by blast
  then show ?thesis using assms(1) False by (auto simp: info_valid_def l1_info_def Let_def bedrock_info_def l1_ok_def)
qed

lemma L1InfoDeposit_data_eq:
  assumes "l1_ok block sysCfg" "\<And>t. IsInterop cfg t \<Longrightarrow> IsEcotone cfg t"
    and "isEcotoneButNotFirstBlock cfg t \<Longrightarrow> is_ok (EcotoneScalars_of sysCfg)"
  shows "L1InfoDeposit_data keccak cfg sysCfg seq block t = Some (Inr (info_bytes keccak cfg t (l1_info cfg sysCfg seq block t)))"
proof -
  note v = l1_info_valid [OF assms(1,2), of t seq]
  show ?thesis
  proof (cases "isEcotoneButNotFirstBlock cfg t")
    case True
    then obtain scs where s: "EcotoneScalars_of sysCfg = Inr scs" using assms(3) by (auto simp: is_ok_iff)
    have "ecotone_info (l1_info cfg sysCfg seq block t)" using v True by (simp add: info_valid_def)
    note m = marshal_ecotone [OF this]
    have blob: "(case bi_BlobBaseFee block of None \<Rightarrow> Some 1 | Some f \<Rightarrow> Some f) =
        Some (case bi_BlobBaseFee block of None \<Rightarrow> 1 | Some f \<Rightarrow> f)" by (simp split: option.splits)
    show ?thesis using True s m
      by (simp add: L1InfoDeposit_data_def Let_def marshalBinaryInterop_def marshalBinaryEcotone_def info_bytes_def l1_info_def blob)
  next
    case False
    then have ni: "\<not> isInteropButNotFirstBlock cfg t" using interop_ecotone [OF assms(2)] by blast
    have "bedrock_info (l1_info cfg sysCfg seq block t)" using v False ni by (simp add: info_valid_def)
    note m = marshal_bedrock [OF this, of keccak]
    show ?thesis using False ni m by (simp add: L1InfoDeposit_data_def Let_def info_bytes_def l1_info_def)
  qed
qed

lemma length_info_bytes:
  assumes "\<And>b. length (keccak b) = 32" "info_valid cfg t info"
  shows "length (info_bytes keccak cfg t info) < 2 ^ 60"
  using assms(2) by (auto simp: info_valid_def info_bytes_def ecotone_info_def bedrock_info_def ecotone_bytes_def bedrock_bytes_def
      length_selectors [OF assms(1)] split: if_splits)

lemma L1InfoDepositBytes_read:
  assumes "\<And>b. length (keccak b) = 32" "l1_ok block sysCfg" "\<And>t. IsInterop cfg t \<Longrightarrow> IsEcotone cfg t"
    and "isEcotoneButNotFirstBlock cfg t \<Longrightarrow> is_ok (EcotoneScalars_of sysCfg)"
  shows "\<exists>b tx. L1InfoDepositBytes keccak cfg sysCfg seq block t = Some (Inr (DepositTxType # b)) \<and>
    deposit_UnmarshalBinary (DepositTxType # b) = Some (Inr tx) \<and>
    L1BlockInfoFromBytes keccak cfg t (dep_Data tx) = Inr (l1_info cfg sysCfg seq block t)"
proof -
  let ?i = "l1_info cfg sysCfg seq block t"
  have v: "info_valid cfg t ?i" using l1_info_valid [OF assms(2,3)] .
  obtain dep where dep: "L1InfoDeposit keccak cfg sysCfg seq block t = Some (Inr dep)"
      "dep_Data dep = info_bytes keccak cfg t ?i" "deposit_ok dep"
    using length_info_bytes [OF assms(1) v]
    by (auto simp: L1InfoDeposit_def L1InfoDeposit_data_eq [OF assms(2-4)] Let_def deposit_ok_def L1InfoDepositerAddress_def
        L1BlockAddress_def HexToAddress_length L1InfoDepositSource_SourceHash_def domain_hash_def assms(1))
  have "L1BlockInfoFromBytes keccak cfg t (dep_Data (deposit_norm dep)) = Inr ?i"
    using v dep(2) by (simp add: L1BlockInfoFromBytes_iff [OF assms(1)] deposit_norm_def)
  then show ?thesis
    using dep(1) deposit_marshal [OF dep(3)] deposit_unmarshal [OF dep(3)]
    by (auto simp: L1InfoDepositBytes_def simp del: rlp_enc.simps)
qed


lemma PayloadToBlockRef_read:
  assumes "deposit_UnmarshalBinary tx0 = Some (Inr tx)" "L1BlockInfoFromBytes keccak cfg (ep_Timestamp p) (dep_Data tx) = Inr info"
    and "ep_Transactions p = tx0 # txs" "ep_BlockNumber p \<noteq> id_Number (gen_L2 (cfg_Genesis cfg))"
  shows "PayloadToBlockRef keccak cfg p = Some (Inr \<lparr>l2_Hash = ep_BlockHash p, l2_Number = ep_BlockNumber p,
    l2_ParentHash = ep_ParentHash p, l2_Time = ep_Timestamp p,
    l2_L1Origin = \<lparr>id_Hash = info_BlockHash info, id_Number = info_Number info\<rparr>, l2_SequenceNumber = info_SequenceNumber info\<rparr>)"
  using assms by (simp add: PayloadToBlockRef_def Let_def)

section \<open>System configuration\<close>

lemma unat_ucast_u32: "unat (ucast (w :: u32) :: u64) = unat w"
  using unsigned_less [of w, where ?'a = nat] by (simp add: unsigned_ucast_eq take_bit_eq_mod)

lemma ucast_u32_small: "\<not> (ucast (w :: u32) :: u64) > 0xFFFFFFFF"
  using unsigned_less [of w, where ?'a = nat] by (simp add: word_less_nat_alt unat_ucast_u32)

lemma ucast_back: "(ucast (ucast (w :: u32) :: u64) :: u32) = w"
proof (rule unsigned_word_eqI [where ?'a = nat])
  have "unat (ucast x :: u32) = unat x mod 2 ^ 32" for x :: u64 by (simp add: unsigned_ucast_eq take_bit_eq_mod)
  then show "unat (ucast (ucast w :: u64) :: u32) = unat w"
    using unsigned_less [of w, where ?'a = nat] by (simp add: unat_ucast_u32)
qed

lemma Holocene_params_round_trip:
  assumes "length ps = 8"
  shows "EncodeHolocene1559Params (fst (DecodeHolocene1559Params ps)) (snd (DecodeHolocene1559Params ps)) = Some ps"
proof -
  have "PutUint32BE (Uint32BE (take 4 ps)) = take 4 ps" "PutUint32BE (Uint32BE (drop 4 ps)) = drop 4 ps"
    using assms by (simp_all add: Put_Uint(2))
  then show ?thesis using assms ucast_u32_small
    by (simp add: EncodeHolocene1559Params_def DecodeHolocene1559Params_def ucast_back)
qed

lemma EncodeScalar_read: "EcotoneScalars_of (sc\<lparr>sc_Scalar := EncodeScalar scs\<rparr>) = Inr scs"
  by (simp add: EcotoneScalars_of_def CheckEcotoneL1SystemConfigScalar_def EncodeScalar_def L1ScalarEcotone_def L1ScalarBedrock_def
      DecodeScalar_def)

text \<open>The configuration read from a block against the one it was built with.\<close>

definition same_config :: "Config \<Rightarrow> u64 \<Rightarrow> SystemConfig \<Rightarrow> SystemConfig \<Rightarrow> bool" where
  "same_config cfg t a b \<longleftrightarrow> sc_BatcherAddr a = sc_BatcherAddr b \<and>
     (if isEcotoneButNotFirstBlock cfg t then EcotoneScalars_of a = EcotoneScalars_of b \<and> sc_Overhead a = replicate 32 0
      else sc_Overhead a = sc_Overhead b \<and> sc_Scalar a = sc_Scalar b)"

lemma l1_info_config:
  assumes "isEcotoneButNotFirstBlock cfg t \<Longrightarrow> is_ok (EcotoneScalars_of sysCfg)"
  shows "same_config cfg t
     \<lparr>sc_BatcherAddr = info_BatcherAddr (l1_info cfg sysCfg seq block t),
      sc_Overhead = info_L1FeeOverhead (l1_info cfg sysCfg seq block t),
      sc_Scalar = (if isEcotoneButNotFirstBlock cfg t
         then (1 # take 23 (drop 1 (info_L1FeeScalar (l1_info cfg sysCfg seq block t)))) @
           PutUint32BE (info_BlobBaseFeeScalar (l1_info cfg sysCfg seq block t)) @
           PutUint32BE (info_BaseFeeScalar (l1_info cfg sysCfg seq block t))
         else info_L1FeeScalar (l1_info cfg sysCfg seq block t)),
      sc_GasLimit = g, sc_EIP1559Params = ps\<rparr> sysCfg"
proof (cases "isEcotoneButNotFirstBlock cfg t")
  case True
  then obtain scs where s: "EcotoneScalars_of sysCfg = Inr scs" using assms by (auto simp: is_ok_iff)
  have e: "(1 # take 23 (drop 1 (replicate 32 0))) @ PutUint32BE (es_BlobBaseFeeScalar scs) @ PutUint32BE (es_BaseFeeScalar scs) =
      EncodeScalar scs" by (simp add: EncodeScalar_def L1ScalarEcotone_def)
  show ?thesis using True s EncodeScalar_read [of scs "\<lparr>sc_BatcherAddr = a, sc_Overhead = b, sc_Scalar = c, sc_GasLimit = g, sc_EIP1559Params = ps\<rparr>" for a b c]
    by (simp add: same_config_def l1_info_def Let_def e [simplified])
next
  case False
  then show ?thesis by (simp add: same_config_def l1_info_def Let_def)
qed


section \<open>Properties\<close>

text \<open>C22. The call data of an L1 info transaction is accepted exactly when the writer that the block time selects
  (Bedrock, Ecotone or Interop) writes it for the info that is returned, with its integers in range: every encoding the
  sequencer can produce is read back, and nothing else is read. The hash function gives 32 bytes.\<close>

theorem l1_info_accepts_exactly_written:
  assumes "\<And>b. length (keccak b) = 32"
  shows "L1BlockInfoFromBytes keccak cfg t d = Inr info \<longleftrightarrow> info_valid cfg t info \<and>
    (if isInteropButNotFirstBlock cfg t then marshalBinaryInterop keccak info
     else if isEcotoneButNotFirstBlock cfg t then marshalBinaryEcotone keccak info
     else marshalBinaryBedrock keccak info) = Some (Inr d)"
  unfolding L1BlockInfoFromBytes_iff [OF assms] info_valid_def info_bytes_def marshalBinaryInterop_def marshalBinaryEcotone_def
  using marshal_ecotone [of info] marshal_bedrock [of info keccak] by auto

theorem l1_info_accepts_exactly_written_witness:
  "L1BlockInfoFromBytes (\<lambda>b. replicate 32 7) ex_cfg 1001
     (bedrock_bytes [7, 7, 7, 7] \<lparr>info_Number = 3, info_Time = 4, info_BaseFee = Some 5, info_BlockHash = replicate 32 1,
        info_SequenceNumber = 2, info_BatcherAddr = replicate 20 9, info_L1FeeOverhead = replicate 32 0,
        info_L1FeeScalar = replicate 32 0, info_BlobBaseFee = None, info_BaseFeeScalar = 0, info_BlobBaseFeeScalar = 0\<rparr>) =
   Inr \<lparr>info_Number = 3, info_Time = 4, info_BaseFee = Some 5, info_BlockHash = replicate 32 1,
        info_SequenceNumber = 2, info_BatcherAddr = replicate 20 9, info_L1FeeOverhead = replicate 32 0,
        info_L1FeeScalar = replicate 32 0, info_BlobBaseFee = None, info_BaseFeeScalar = 0, info_BlobBaseFeeScalar = 0\<rparr>"
proof -
  let ?i = "\<lparr>info_Number = 3, info_Time = 4, info_BaseFee = Some 5, info_BlockHash = replicate 32 1,
        info_SequenceNumber = 2, info_BatcherAddr = replicate 20 9, info_L1FeeOverhead = replicate 32 0,
        info_L1FeeScalar = replicate 32 0, info_BlobBaseFee = None, info_BaseFeeScalar = 0, info_BlobBaseFeeScalar = 0\<rparr>"
  have n: "\<not> isInteropButNotFirstBlock ex_cfg 1001" "\<not> isEcotoneButNotFirstBlock ex_cfg 1001"
    by (simp_all add: isInteropButNotFirstBlock_def isEcotoneButNotFirstBlock_def fork_defs active_at_def ex_cfg_def)
  have v: "bedrock_info ?i" by (simp add: bedrock_info_def)
  have s: "L1InfoFuncBedrockBytes4 (\<lambda>b. replicate 32 7) = [7, 7, 7, 7]" by (simp add: L1InfoFuncBedrockBytes4_def numeral_eq_Suc)
  show ?thesis
    using l1_info_accepts_exactly_written [of "\<lambda>b. replicate 32 7" ex_cfg 1001 "bedrock_bytes [7, 7, 7, 7] ?i" ?i]
      n v marshal_bedrock [OF v, of "\<lambda>b. replicate 32 7"] s
    by (simp add: info_valid_def)
qed

text \<open>C21. A block that starts with the L1 info deposit is read back: \<open>PayloadToBlockRef\<close> returns the L1 origin and the
  sequence number that the deposit was made for, and \<open>PayloadToSystemConfig\<close> returns a configuration with the same
  batcher and the same effective fee scalars, the gas limit of the block and the Holocene parameters of its extra data, for
  every block time under a fork order that puts Ecotone before Interop.\<close>

theorem block_is_read_back:
  assumes "\<And>b. length (keccak b) = 32" "l1_ok l1 sysCfg" "\<And>t. IsInterop cfg t \<Longrightarrow> IsEcotone cfg t"
    and "isEcotoneButNotFirstBlock cfg (ep_Timestamp p) \<Longrightarrow> is_ok (EcotoneScalars_of sysCfg)"
    and "L1InfoDepositBytes keccak cfg sysCfg seq l1 (ep_Timestamp p) = Some (Inr tx0)" "ep_Transactions p = tx0 # txs"
    and "ep_BlockNumber p \<noteq> id_Number (gen_L2 (cfg_Genesis cfg))"
    and "IsHolocene cfg (ep_Timestamp p) \<Longrightarrow> ValidateHoloceneExtraData (ep_ExtraData p) = None"
  shows "PayloadToBlockRef keccak cfg p = Some (Inr \<lparr>l2_Hash = ep_BlockHash p, l2_Number = ep_BlockNumber p,
      l2_ParentHash = ep_ParentHash p, l2_Time = ep_Timestamp p,
      l2_L1Origin = \<lparr>id_Hash = bi_Hash l1, id_Number = bi_NumberU64 l1\<rparr>, l2_SequenceNumber = seq\<rparr>) \<and>
    (\<exists>r. PayloadToSystemConfig keccak cfg p = Some (Inr r) \<and> same_config cfg (ep_Timestamp p) r sysCfg \<and>
      sc_GasLimit r = ep_GasLimit p \<and> (IsHolocene cfg (ep_Timestamp p) \<longrightarrow> 0 # sc_EIP1559Params r = ep_ExtraData p))"
proof -
  let ?t = "ep_Timestamp p" and ?i = "l1_info cfg sysCfg seq l1 (ep_Timestamp p)"
  obtain tx where tx: "deposit_UnmarshalBinary tx0 = Some (Inr tx)" "L1BlockInfoFromBytes keccak cfg ?t (dep_Data tx) = Inr ?i"
    using L1InfoDepositBytes_read [of keccak l1 sysCfg cfg ?t seq, OF assms(1-4)] assms(5) by auto
  have ref: "PayloadToBlockRef keccak cfg p = Some (Inr \<lparr>l2_Hash = ep_BlockHash p, l2_Number = ep_BlockNumber p,
      l2_ParentHash = ep_ParentHash p, l2_Time = ?t,
      l2_L1Origin = \<lparr>id_Hash = bi_Hash l1, id_Number = bi_NumberU64 l1\<rparr>, l2_SequenceNumber = seq\<rparr>)"
    using PayloadToBlockRef_read [OF tx assms(6,7)] by (simp add: l1_info_def Let_def)
  note c = l1_info_config [OF assms(4), where seq = seq and block = l1]
  show ?thesis
  proof (cases "IsHolocene cfg ?t")
    case False
    then show ?thesis using ref tx assms(6,7) c [where g = "ep_GasLimit p" and ps = "replicate 8 0"]
      by (simp add: PayloadToSystemConfig_def Let_def)
  next
    case True
    let ?ps = "drop 1 (ep_ExtraData p)"
    have v: "ValidateHoloceneExtraData (ep_ExtraData p) = None" using assms(8) True .
    then have l9: "length (ep_ExtraData p) = 9" by (simp add: ValidateHoloceneExtraData_def split: if_splits)
    then have e: "length ?ps = 8" "0 # ?ps = ep_ExtraData p" using v
      by (cases "ep_ExtraData p"; auto simp: ValidateHoloceneExtraData_def split: if_splits)+
    have d: "DecodeHoloceneExtraData (ep_ExtraData p) = DecodeHolocene1559Params ?ps" using l9 by (simp add: DecodeHoloceneExtraData_def)
    show ?thesis using ref tx assms(6,7) c [where g = "ep_GasLimit p" and ps = ?ps] True v e
        Holocene_params_round_trip [OF e(1)]
      by (simp add: PayloadToSystemConfig_def Let_def d split_beta)
  qed
qed


definition ex_l1 :: BlockInfo where
  "ex_l1 = \<lparr>bi_Hash = replicate 32 1, bi_ParentHash = replicate 32 2, bi_NumberU64 = 11, bi_Time = 1650,
     bi_MixDigest = replicate 32 3, bi_BaseFee = Some 7, bi_BlobBaseFee = None, bi_ParentBeaconRoot = None\<rparr>"

definition ex_sys :: SystemConfig where
  "ex_sys = \<lparr>sc_BatcherAddr = replicate 20 4, sc_Overhead = replicate 32 0, sc_Scalar = replicate 32 0,
     sc_GasLimit = 30000000, sc_EIP1559Params = replicate 8 0\<rparr>"

definition ex_payload :: "bytes \<Rightarrow> ExecutionPayload" where
  "ex_payload tx0 = \<lparr>ep_ParentHash = [], ep_FeeRecipient = [], ep_StateRoot = [], ep_ReceiptsRoot = [], ep_LogsBloom = [],
     ep_PrevRandao = [], ep_BlockNumber = 400, ep_GasLimit = 30000000, ep_GasUsed = 0, ep_Timestamp = 1700,
     ep_ExtraData = [0, 0, 0, 0, 8, 0, 0, 0, 2], ep_BaseFeePerGas = (0, 0, 0, 0), ep_BlockHash = [8], ep_Transactions = [tx0],
     ep_Withdrawals = None, ep_BlobGasUsed = None, ep_ExcessBlobGas = None\<rparr>"

lemma ex_l1_ok: "l1_ok ex_l1 ex_sys"
  by (simp add: l1_ok_def ex_l1_def ex_sys_def)

lemma ex_interop: "IsInterop ex_cfg t \<Longrightarrow> IsEcotone ex_cfg t"
  by (simp add: fork_defs active_at_def ex_cfg_def)

lemma ex_scalars: "is_ok (EcotoneScalars_of ex_sys)"
  by (simp add: EcotoneScalars_of_def ex_sys_def CheckEcotoneL1SystemConfigScalar_def DecodeScalar_def L1ScalarBedrock_def)

theorem block_is_read_back_witness:
  "\<exists>tx0. L1InfoDepositBytes (\<lambda>b. replicate 32 7) ex_cfg ex_sys 3 ex_l1 1700 = Some (Inr tx0) \<and>
     PayloadToBlockRef (\<lambda>b. replicate 32 7) ex_cfg (ex_payload tx0) = Some (Inr \<lparr>l2_Hash = [8], l2_Number = 400,
       l2_ParentHash = [], l2_Time = 1700, l2_L1Origin = \<lparr>id_Hash = replicate 32 1, id_Number = 11\<rparr>, l2_SequenceNumber = 3\<rparr>)"
proof -
  obtain tx0 where tx0: "L1InfoDepositBytes (\<lambda>b. replicate 32 7) ex_cfg ex_sys 3 ex_l1 1700 = Some (Inr tx0)"
    using L1InfoDepositBytes_read [of "\<lambda>b. replicate 32 7" ex_l1 ex_sys ex_cfg 1700 3, OF _ ex_l1_ok ex_interop ex_scalars] by auto
  have v: "ValidateHoloceneExtraData [0, 0, 0, 0, 8, 0, 0, 0, 2] = None" by code_simp
  have "PayloadToBlockRef (\<lambda>b. replicate 32 7) ex_cfg (ex_payload tx0) = Some (Inr \<lparr>l2_Hash = ep_BlockHash (ex_payload tx0),
      l2_Number = ep_BlockNumber (ex_payload tx0), l2_ParentHash = ep_ParentHash (ex_payload tx0),
      l2_Time = ep_Timestamp (ex_payload tx0), l2_L1Origin = \<lparr>id_Hash = bi_Hash ex_l1, id_Number = bi_NumberU64 ex_l1\<rparr>,
      l2_SequenceNumber = 3\<rparr>)"
    by (rule block_is_read_back [of "\<lambda>b. replicate 32 7" ex_l1 ex_sys ex_cfg "ex_payload tx0" 3 tx0 "[]", THEN conjunct1,
          OF _ ex_l1_ok ex_interop ex_scalars])
       (use v tx0 in \<open>simp_all add: ex_payload_def, simp add: ex_cfg_def\<close>)
  then show ?thesis using tx0 by (auto simp: ex_payload_def ex_l1_def)
qed

end
