(* ===== verification/Deposits.thy ===== *)
theory Deposits
  imports L1_Info
begin

text \<open>
  What derivation reads from L1 receipts: user deposits (\<^verbatim>\<open>deposit_log.go\<close>, \<^verbatim>\<open>deposits.go\<close>) and updates of the system
  configuration (\<^verbatim>\<open>system_config.go\<close>) of \<^verbatim>\<open>op-node/rollup/derive\<close>. Errors that the source collects with \<^verbatim>\<open>multierror\<close> are lists
  in the order they are appended.
\<close>

record EvmLog =
  log_Address :: Address
  log_Topics :: "Hash list"
  log_Data :: bytes
  log_BlockHash :: Hash
  log_Index :: u64

record L1Receipt =
  rec_Status :: u64
  rec_Logs :: "EvmLog list"

definition ReceiptStatusSuccessful :: u64 where
  "ReceiptStatusSuccessful = 1"

section \<open>Deposit logs (deposit_log.go)\<close>

datatype DepositErr =
  TopicCount nat | BadSelector | IncompleteHeader nat | NotMultipleOf32 nat | BadOffset | BadLength | BadVersion
| OpaqueTooShort nat | MintExceeds256Bits | ValueExceeds256Bits | DepositEncodeErr InfoErr

definition DepositEventABIHash :: "(bytes \<Rightarrow> Hash) \<Rightarrow> Hash" where
  "DepositEventABIHash keccak = keccak (bytes_of_string ''TransactionDeposited(address,address,uint256,bytes)'')"

definition DepositEventVersion0 :: Hash where
  "DepositEventVersion0 = replicate 32 0"

definition unmarshalDepositVersion0 :: "DepositTx \<Rightarrow> Address \<Rightarrow> bytes \<Rightarrow> DepositErr + DepositTx" where
  "unmarshalDepositVersion0 dep to opaqueData =
     (if length opaqueData < 32 + 32 + 8 + 1 then Inl (OpaqueTooShort (length opaqueData))
      else
        (let mint = int (be_val (take 32 opaqueData));
             value = int (be_val (take 32 (drop 32 opaqueData)));
             gas = Uint64BE (take 8 (drop 64 opaqueData));
             isCreation = opaqueData ! 72;
             txDataLen = length opaqueData - 73
         in Inr (dep\<lparr>dep_Mint := (if mint = 0 then None else Some mint),
                     dep_Value := Some value,
                     dep_Gas := gas,
                     dep_To := (if isCreation = 0 then Some to else dep_To dep),
                     dep_Data := take txDataLen (drop 73 opaqueData)\<rparr>)))"

definition UnmarshalDepositLogEvent :: "(bytes \<Rightarrow> Hash) \<Rightarrow> EvmLog \<Rightarrow> DepositErr + DepositTx" where
  "UnmarshalDepositLogEvent keccak ev =
     (if length (log_Topics ev) \<noteq> 4 then Inl (TopicCount (length (log_Topics ev)))
      else if log_Topics ev ! 0 \<noteq> DepositEventABIHash keccak then Inl BadSelector
      else if length (log_Data ev) < 64 then Inl (IncompleteHeader (length (log_Data ev)))
      else if length (log_Data ev) mod 32 \<noteq> 0 then Inl (NotMultipleOf32 (length (log_Data ev)))
      else
        (let from = BytesToAddress (drop 12 (log_Topics ev ! 1));
             to = BytesToAddress (drop 12 (log_Topics ev ! 2));
             version = log_Topics ev ! 3;
             opaqueContentOffset = be_val (take 32 (log_Data ev));
             opaqueContentLength = be_val (take 32 (drop 32 (log_Data ev)));
             rest = of_nat (length (log_Data ev) - 64) :: u64
         in if opaqueContentOffset \<ge> 2 ^ 64 \<or> (of_nat opaqueContentOffset :: u64) \<noteq> 32 then Inl BadOffset
            else if opaqueContentLength \<ge> 2 ^ 64 \<or> of_nat opaqueContentLength > rest \<or>
                    of_nat opaqueContentLength + 32 \<le> rest then Inl BadLength
            else
              (let opaqueData = take opaqueContentLength (drop 64 (log_Data ev));
                   dep = \<lparr>dep_SourceHash = UserDepositSource_SourceHash keccak (log_BlockHash ev) (log_Index ev),
                          dep_From = from, dep_To = None, dep_Mint = None, dep_Value = None, dep_Gas = 0,
                          dep_IsSystemTransaction = False, dep_Data = []\<rparr>
               in if version = DepositEventVersion0 then unmarshalDepositVersion0 dep to opaqueData
                  else Inl BadVersion)))"

definition AddressAsLeftPaddedHash :: "Address \<Rightarrow> Hash" where
  "AddressAsLeftPaddedHash addr = replicate 12 0 @ addr"

text \<open>\<^verbatim>\<open>FillBytes\<close> writes the absolute value; a nil value panics.\<close>

definition marshalDepositVersion0 :: "DepositTx \<Rightarrow> (DepositErr + bytes) option" where
  "marshalDepositVersion0 deposit =
     (case (case dep_Mint deposit of
              None \<Rightarrow> Inr (replicate 32 0)
            | Some m \<Rightarrow> if big_BitLen (nat \<bar>m\<bar>) > 256 then Inl MintExceeds256Bits else Inr (be_bytes 32 (nat \<bar>m\<bar>))) of
        Inl e \<Rightarrow> Some (Inl e)
      | Inr mint \<Rightarrow>
          (case dep_Value deposit of
             None \<Rightarrow> None
           | Some v \<Rightarrow>
               if big_BitLen (nat \<bar>v\<bar>) > 256 then Some (Inl ValueExceeds256Bits)
               else Some (Inr (mint @ be_bytes 32 (nat \<bar>v\<bar>) @ PutUint64BE (dep_Gas deposit) @
                               [if dep_To deposit = None then 1 else 0] @ dep_Data deposit))))"

definition MarshalDepositLogEvent :: "(bytes \<Rightarrow> Hash) \<Rightarrow> Address \<Rightarrow> DepositTx \<Rightarrow> (DepositErr + EvmLog) option" where
  "MarshalDepositLogEvent keccak depositContractAddr deposit =
     (let toBytes = (case dep_To deposit of None \<Rightarrow> replicate 32 0 | Some a \<Rightarrow> AddressAsLeftPaddedHash a);
          topics = [DepositEventABIHash keccak, AddressAsLeftPaddedHash (dep_From deposit), toBytes, DepositEventVersion0]
      in case marshalDepositVersion0 deposit of
           None \<Rightarrow> None
         | Some (Inl e) \<Rightarrow> Some (Inl e)
         | Some (Inr opaqueData) \<Rightarrow>
             (let data = replicate 24 0 @ PutUint64BE 32 @ replicate 24 0 @ PutUint64BE (of_nat (length opaqueData)) @ opaqueData;
                  data = (if length data mod 32 \<noteq> 0 then data @ replicate (32 - length data mod 32) 0 else data)
              in Some (Inr \<lparr>log_Address = depositContractAddr, log_Topics = topics, log_Data = data,
                            log_BlockHash = replicate 32 0, log_Index = 0\<rparr>)))"

section \<open>Deposits of a block (deposits.go)\<close>

definition is_deposit_log :: "(bytes \<Rightarrow> Hash) \<Rightarrow> Address \<Rightarrow> EvmLog \<Rightarrow> bool" where
  "is_deposit_log keccak depositContractAddr log \<longleftrightarrow>
     log_Address log = depositContractAddr \<and> length (log_Topics log) > 0 \<and> log_Topics log ! 0 = DepositEventABIHash keccak"

fun deposit_logs ::
  "(bytes \<Rightarrow> Hash) \<Rightarrow> Address \<Rightarrow> EvmLog list \<Rightarrow> DepositTx list \<times> DepositErr list \<Rightarrow> DepositTx list \<times> DepositErr list" where
  "deposit_logs keccak addr [] (out, errs) = (out, errs)"
| "deposit_logs keccak addr (log # logs) (out, errs) =
     deposit_logs keccak addr logs
       (if is_deposit_log keccak addr log then
          (case UnmarshalDepositLogEvent keccak log of
             Inl e \<Rightarrow> (out, errs @ [e])
           | Inr dep \<Rightarrow> (out @ [dep], errs))
        else (out, errs))"

fun user_deposits ::
  "(bytes \<Rightarrow> Hash) \<Rightarrow> Address \<Rightarrow> L1Receipt list \<Rightarrow> DepositTx list \<times> DepositErr list \<Rightarrow> DepositTx list \<times> DepositErr list" where
  "user_deposits keccak addr [] acc = acc"
| "user_deposits keccak addr (rec # recs) acc =
     user_deposits keccak addr recs
       (if rec_Status rec \<noteq> ReceiptStatusSuccessful then acc else deposit_logs keccak addr (rec_Logs rec) acc)"

definition UserDeposits :: "(bytes \<Rightarrow> Hash) \<Rightarrow> L1Receipt list \<Rightarrow> Address \<Rightarrow> DepositTx list \<times> DepositErr list" where
  "UserDeposits keccak receipts depositContractAddr = user_deposits keccak depositContractAddr receipts ([], [])"

fun encode_deposits :: "DepositTx list \<Rightarrow> bytes list \<times> DepositErr list \<Rightarrow> (bytes list \<times> DepositErr list) option" where
  "encode_deposits [] acc = Some acc"
| "encode_deposits (tx # txs) (encodedTxs, errs) =
     (case deposit_MarshalBinary tx of
        None \<Rightarrow> None
      | Some (Inl e) \<Rightarrow> encode_deposits txs (encodedTxs, errs @ [DepositEncodeErr e])
      | Some (Inr opaqueTx) \<Rightarrow> encode_deposits txs (encodedTxs @ [opaqueTx], errs))"

definition DeriveDeposits :: "(bytes \<Rightarrow> Hash) \<Rightarrow> L1Receipt list \<Rightarrow> Address \<Rightarrow> (bytes list \<times> DepositErr list) option" where
  "DeriveDeposits keccak receipts depositContractAddr =
     (case UserDeposits keccak receipts depositContractAddr of
        (userDeposits, errs) \<Rightarrow> encode_deposits userDeposits ([], errs))"

section \<open>System configuration updates (system_config.go)\<close>

datatype SysCfgErr =
  SysTopicCount nat | InvalidUpdateEvent | UnrecognizedEventVersion | InvalidPointer | InvalidLength | CouldNotReadAddress
| CouldNotReadOverhead | CouldNotReadScalar | CouldNotReadGasLimit | CouldNotReadParams | SysTooManyBytes
| UnrecognizedUpdateType

definition update_type :: "byte \<Rightarrow> Hash" where
  "update_type b = replicate 31 0 @ [b]"

definition SystemConfigUpdateBatcher :: Hash where
  "SystemConfigUpdateBatcher = update_type 0"

definition SystemConfigUpdateFeeScalars :: Hash where
  "SystemConfigUpdateFeeScalars = update_type 1"

definition SystemConfigUpdateGasLimit :: Hash where
  "SystemConfigUpdateGasLimit = update_type 2"

definition SystemConfigUpdateUnsafeBlockSigner :: Hash where
  "SystemConfigUpdateUnsafeBlockSigner = update_type 3"

definition SystemConfigUpdateEIP1559Params :: Hash where
  "SystemConfigUpdateEIP1559Params = update_type 4"

definition ConfigUpdateEventABIHash :: "(bytes \<Rightarrow> Hash) \<Rightarrow> Hash" where
  "ConfigUpdateEventABIHash keccak = keccak (bytes_of_string ''ConfigUpdate(uint256,uint8,bytes)'')"

definition ConfigUpdateEventVersion0 :: Hash where
  "ConfigUpdateEventVersion0 = replicate 32 0"

text \<open>The pointer and length words in front of the payload.\<close>

definition read_header :: "u64 \<Rightarrow> bytes \<Rightarrow> SysCfgErr + bytes" where
  "read_header len reader =
     (case ReadUint64 reader of
        Inl e \<Rightarrow> Inl InvalidPointer
      | Inr (pointer, r) \<Rightarrow>
          if pointer \<noteq> 32 then Inl InvalidPointer
          else
            (case ReadUint64 r of
               Inl e \<Rightarrow> Inl InvalidLength
             | Inr (l, r) \<Rightarrow> if l \<noteq> len then Inl InvalidLength else Inr r))"

definition read_or :: "SysCfgErr \<Rightarrow> InfoErr + 'a \<Rightarrow> SysCfgErr + 'a" where
  "read_or err x = (case x of Inl e \<Rightarrow> Inl err | Inr v \<Rightarrow> Inr v)"

definition ProcessSystemConfigUpdateLogEvent ::
  "(bytes \<Rightarrow> Hash) \<Rightarrow> SystemConfig \<Rightarrow> EvmLog \<Rightarrow> Config \<Rightarrow> u64 \<Rightarrow> SysCfgErr + SystemConfig" where
  "ProcessSystemConfigUpdateLogEvent keccak destSysCfg ev rollupCfg l1Time =
     (if length (log_Topics ev) \<noteq> 3 then Inl (SysTopicCount (length (log_Topics ev)))
      else if log_Topics ev ! 0 \<noteq> ConfigUpdateEventABIHash keccak then Inl InvalidUpdateEvent
      else if log_Topics ev ! 1 \<noteq> ConfigUpdateEventVersion0 then Inl UnrecognizedEventVersion
      else
        (let updateType = log_Topics ev ! 2; reader = log_Data ev in
         if updateType = SystemConfigUpdateBatcher then
           bind_res (read_header 32 reader) (\<lambda>r.
           bind_res (read_or CouldNotReadAddress (ReadAddress r)) (\<lambda>(address, r).
             if \<not> EmptyReader r then Inl SysTooManyBytes
             else Inr (destSysCfg\<lparr>sc_BatcherAddr := address\<rparr>)))
         else if updateType = SystemConfigUpdateFeeScalars then
           bind_res (read_header 64 reader) (\<lambda>r.
           bind_res (read_or CouldNotReadOverhead (ReadEthBytes32 r)) (\<lambda>(overhead, r).
           bind_res (read_or CouldNotReadScalar (ReadEthBytes32 r)) (\<lambda>(scalarBytes, r).
             if \<not> EmptyReader r then Inl SysTooManyBytes
             else if IsEcotone rollupCfg l1Time then
               if CheckEcotoneL1SystemConfigScalar scalarBytes \<noteq> None then Inr destSysCfg
               else Inr (destSysCfg\<lparr>sc_Scalar := scalarBytes, sc_Overhead := replicate 32 0\<rparr>)
             else Inr (destSysCfg\<lparr>sc_Overhead := overhead, sc_Scalar := scalarBytes\<rparr>))))
         else if updateType = SystemConfigUpdateGasLimit then
           bind_res (read_header 32 reader) (\<lambda>r.
           bind_res (read_or CouldNotReadGasLimit (ReadUint64 r)) (\<lambda>(gasLimit, r).
             if \<not> EmptyReader r then Inl SysTooManyBytes
             else Inr (destSysCfg\<lparr>sc_GasLimit := gasLimit\<rparr>)))
         else if updateType = SystemConfigUpdateEIP1559Params then
           bind_res (read_header 32 reader) (\<lambda>r.
           bind_res (read_or CouldNotReadParams (ReadEthBytes32 r)) (\<lambda>(params, r).
             if \<not> EmptyReader r then Inl SysTooManyBytes
             else Inr (destSysCfg\<lparr>sc_EIP1559Params := take 8 (drop 24 params)\<rparr>)))
         else if updateType = SystemConfigUpdateUnsafeBlockSigner then Inr destSysCfg
         else Inl UnrecognizedUpdateType))"

definition is_config_log :: "(bytes \<Rightarrow> Hash) \<Rightarrow> Config \<Rightarrow> EvmLog \<Rightarrow> bool" where
  "is_config_log keccak cfg log \<longleftrightarrow>
     log_Address log = L1SystemConfigAddress cfg \<and> length (log_Topics log) > 0 \<and>
     log_Topics log ! 0 = ConfigUpdateEventABIHash keccak"

fun config_logs ::
  "(bytes \<Rightarrow> Hash) \<Rightarrow> Config \<Rightarrow> u64 \<Rightarrow> EvmLog list \<Rightarrow> SystemConfig \<times> SysCfgErr list \<Rightarrow> SystemConfig \<times> SysCfgErr list" where
  "config_logs keccak cfg l1Time [] acc = acc"
| "config_logs keccak cfg l1Time (log # logs) (sysCfg, errs) =
     config_logs keccak cfg l1Time logs
       (if is_config_log keccak cfg log then
          (case ProcessSystemConfigUpdateLogEvent keccak sysCfg log cfg l1Time of
             Inl e \<Rightarrow> (sysCfg, errs @ [e])
           | Inr sysCfg' \<Rightarrow> (sysCfg', errs))
        else (sysCfg, errs))"

fun config_receipts ::
  "(bytes \<Rightarrow> Hash) \<Rightarrow> Config \<Rightarrow> u64 \<Rightarrow> L1Receipt list \<Rightarrow> SystemConfig \<times> SysCfgErr list \<Rightarrow> SystemConfig \<times> SysCfgErr list" where
  "config_receipts keccak cfg l1Time [] acc = acc"
| "config_receipts keccak cfg l1Time (rec # recs) acc =
     config_receipts keccak cfg l1Time recs
       (if rec_Status rec \<noteq> ReceiptStatusSuccessful then acc else config_logs keccak cfg l1Time (rec_Logs rec) acc)"

definition UpdateSystemConfigWithL1Receipts ::
  "(bytes \<Rightarrow> Hash) \<Rightarrow> SystemConfig \<Rightarrow> L1Receipt list \<Rightarrow> Config \<Rightarrow> u64 \<Rightarrow> SystemConfig \<times> SysCfgErr list" where
  "UpdateSystemConfigWithL1Receipts keccak sysCfg receipts cfg l1Time =
     config_receipts keccak cfg l1Time receipts (sysCfg, [])"

end
