(* ===== verification/Deposits_Props.thy ===== *)
theory Deposits_Props
  imports Deposits L1_Info_Props
begin

text \<open>
  What the deposits and the system configuration of an L1 block guarantee: deposit events are read back as they were written,
  the deposits of a block are one transaction per well formed event in the order of the logs, and the
  configuration changes exactly on the events that encode an update and stays well formed.
\<close>

section \<open>Deposit events\<close>

definition user_deposit :: "DepositTx \<Rightarrow> bool" where
  "user_deposit dep \<longleftrightarrow> length (dep_From dep) = 20 \<and> (\<forall>a. dep_To dep = Some a \<longrightarrow> length a = 20) \<and>
     (\<forall>m. dep_Mint dep = Some m \<longrightarrow> 0 < m \<and> m < 2 ^ 256) \<and> (\<exists>v. dep_Value dep = Some v \<and> 0 \<le> v \<and> v < 2 ^ 256) \<and>
     \<not> dep_IsSystemTransaction dep \<and> length (dep_Data dep) < 2 ^ 60"

definition opaque :: "DepositTx \<Rightarrow> bytes" where
  "opaque dep = be_bytes 32 (nat (case dep_Mint dep of None \<Rightarrow> 0 | Some m \<Rightarrow> m)) @ be_bytes 32 (nat (the (dep_Value dep))) @
     PutUint64BE (dep_Gas dep) @ [if dep_To dep = None then 1 else 0] @ dep_Data dep"

lemma be_bytes_0: "be_bytes k 0 = replicate k 0"
proof -
  have "le_bytes k 0 = replicate k 0" by (induction k) simp_all
  then show ?thesis by (simp add: be_bytes_def)
qed

lemma nat_256: "0 \<le> i \<Longrightarrow> i < 2 ^ 256 \<Longrightarrow> nat \<bar>i\<bar> < 256 ^ 32 \<and> big_BitLen (nat \<bar>i\<bar>) \<le> 256"
  by (simp add: BitLen_le nat_less_iff)

lemma marshalDeposit_eq:
  assumes "user_deposit dep"
  shows "marshalDepositVersion0 dep = Some (Inr (opaque dep))"
proof -
  obtain v where v: "dep_Value dep = Some v" "0 \<le> v" "v < 2 ^ 256" using assms by (auto simp: user_deposit_def)
  show ?thesis
  proof (cases "dep_Mint dep")
    case None
    then show ?thesis using v nat_256 [OF v(2,3)] by (simp add: marshalDepositVersion0_def opaque_def be_bytes_0)
  next
    case (Some m)
    then have "0 \<le> m" "m < 2 ^ 256" using assms by (auto simp: user_deposit_def)
    then show ?thesis using v Some nat_256 [OF v(2,3)] nat_256 [of m] by (simp add: marshalDepositVersion0_def opaque_def)
  qed
qed

lemma Put_length [simp]: "length (PutUint64BE w) = 8"
  by (simp add: PutUint64BE_def)

lemma unmarshalDeposit_eq:
  assumes "user_deposit dep" "length (dep_From dep0) = 20" "dep_To dep0 = None" "dep_IsSystemTransaction dep0 = False"
    and "\<forall>a. dep_To dep = Some a \<longrightarrow> to = a" "dep_From dep0 = dep_From dep"
  shows "unmarshalDepositVersion0 dep0 to (opaque dep) = Inr (dep\<lparr>dep_SourceHash := dep_SourceHash dep0\<rparr>)"
proof -
  obtain v where v: "dep_Value dep = Some v" "0 \<le> v" "v < 2 ^ 256" using assms(1) by (auto simp: user_deposit_def)
  let ?m = "case dep_Mint dep of None \<Rightarrow> 0 | Some m \<Rightarrow> m"
  have m: "0 \<le> ?m" "?m < 2 ^ 256" "(if ?m = 0 then None else Some ?m) = dep_Mint dep"
    using assms(1) by (auto simp: user_deposit_def split: option.splits)
  have e: "int (be_val (be_bytes 32 (nat i))) = i" if "0 \<le> i" "i < 2 ^ 256" for i
    using that nat_256 [OF that] by (simp add: be_val_be_bytes)
  have parts: "take 32 (opaque dep) = be_bytes 32 (nat ?m)" "take 32 (drop 32 (opaque dep)) = be_bytes 32 (nat v)"
    "take 8 (drop 64 (opaque dep)) = PutUint64BE (dep_Gas dep)" "opaque dep ! 72 = (if dep_To dep = None then 1 else 0)"
    "drop 73 (opaque dep) = dep_Data dep" "length (opaque dep) = 73 + length (dep_Data dep)"
    by (simp_all add: opaque_def v(1) nth_append)
  show ?thesis
    using assms m(3) v(1) e [OF v(2,3)] e [OF m(1,2)] unfolding unmarshalDepositVersion0_def Let_def parts
    by (cases dep; cases dep0) (auto simp: user_deposit_def Put_Uint)
qed

lemma be_val_zeros: "be_val (replicate k 0 @ b) = be_val b"
proof (induction k)
  case (Suc k)
  then show ?case by (simp add: be_val_Cons)
qed simp

lemma be_val_word: "be_val (replicate 24 0 @ PutUint64BE w) = unat w"
  using u64_bound [of w] by (simp add: be_val_zeros PutUint64BE_def be_val_be_bytes)

definition padded :: "bytes \<Rightarrow> bytes" where
  "padded d = (if length d mod 32 \<noteq> 0 then d @ replicate (32 - length d mod 32) 0 else d)"

lemma length_padded: "length (padded d) mod 32 = 0" "length d \<le> length (padded d)" "length (padded d) < length d + 32"
proof -
  have "(n + (32 - n mod 32)) mod 32 = 0" for n :: nat
    using mod_less_divisor [of 32 n] by (metis add_diff_cancel_left' le_add_diff_inverse less_imp_le mod_add_left_eq mod_self zero_less_numeral)
  then show "length (padded d) mod 32 = 0" by (simp add: padded_def)
  have "length d mod 32 < 32" by simp
  then show "length d \<le> length (padded d)" "length (padded d) < length d + 32" unfolding padded_def by auto
qed

lemma take_padded: "n \<le> length d \<Longrightarrow> take n (padded d) = take n d"
  by (simp add: padded_def)

definition event_data :: "bytes \<Rightarrow> bytes" where
  "event_data b = padded (replicate 24 0 @ PutUint64BE 32 @ replicate 24 0 @ PutUint64BE (of_nat (length b)) @ b)"

lemma event_data_parts:
  assumes "length b < 2 ^ 62"
  shows "be_val (take 32 (event_data b)) = 32" "be_val (take 32 (drop 32 (event_data b))) = length b"
    "take (length b) (drop 64 (event_data b)) = b" "length (event_data b) mod 32 = 0"
    "64 + length b \<le> length (event_data b)" "length (event_data b) < 64 + length b + 32"
proof -
  let ?d = "replicate 24 0 @ PutUint64BE 32 @ replicate 24 0 @ PutUint64BE (of_nat (length b)) @ b"
  have l: "length ?d = 64 + length b" by simp
  have t: "take n (event_data b) = take n ?d" if "n \<le> 64 + length b" for n
    unfolding event_data_def by (rule take_padded) (use that l in simp)
  show "be_val (take 32 (event_data b)) = 32" using be_val_word [of 32] by (simp add: t)
  have "take 32 (drop 32 (event_data b)) = drop 32 (take 64 (event_data b))" by (simp add: drop_take)
  also have "\<dots> = replicate 24 0 @ PutUint64BE (of_nat (length b))" by (simp add: t)
  finally show "be_val (take 32 (drop 32 (event_data b))) = length b" using be_val_word assms by (simp add: unat_of_nat_u64)
  have "take (length b) (drop 64 (event_data b)) = drop 64 (take (64 + length b) (event_data b))" by (simp add: drop_take)
  then show "take (length b) (drop 64 (event_data b)) = b" by (simp add: t)
  show "length (event_data b) mod 32 = 0" "64 + length b \<le> length (event_data b)" "length (event_data b) < 64 + length b + 32"
    using length_padded [of ?d] by (simp_all add: event_data_def)
qed

lemma MarshalDepositLogEvent_eq:
  assumes "user_deposit dep"
  shows "MarshalDepositLogEvent keccak addr dep = Some (Inr \<lparr>log_Address = addr,
    log_Topics = [DepositEventABIHash keccak, AddressAsLeftPaddedHash (dep_From dep),
      (case dep_To dep of None \<Rightarrow> replicate 32 0 | Some a \<Rightarrow> AddressAsLeftPaddedHash a), DepositEventVersion0],
    log_Data = event_data (opaque dep), log_BlockHash = replicate 32 0, log_Index = 0\<rparr>)"
  by (simp add: MarshalDepositLogEvent_def marshalDeposit_eq [OF assms] event_data_def padded_def Let_def)

lemma padded_address: "length a = 20 \<Longrightarrow> BytesToAddress (drop 12 (AddressAsLeftPaddedHash a)) = a"
  by (simp add: AddressAsLeftPaddedHash_def BytesToAddress_def set_bytes_def)

lemma UnmarshalDepositLogEvent_eq:
  assumes "log_Topics ev = [DepositEventABIHash keccak, AddressAsLeftPaddedHash from, toBytes, DepositEventVersion0]"
    and "log_Data ev = event_data b" "length b < 2 ^ 62" "length from = 20"
  shows "UnmarshalDepositLogEvent keccak ev = unmarshalDepositVersion0
    \<lparr>dep_SourceHash = UserDepositSource_SourceHash keccak (log_BlockHash ev) (log_Index ev), dep_From = from, dep_To = None,
     dep_Mint = None, dep_Value = None, dep_Gas = 0, dep_IsSystemTransaction = False, dep_Data = []\<rparr> (BytesToAddress (drop 12 toBytes)) b"
proof -
  note p = event_data_parts [OF assms(3)]
  have bound: "length (event_data b) - 64 < 2 ^ 64" "length b < 2 ^ 64" using p(5,6) assms(3) by simp_all
  note n = unat_of_nat_u64 [OF bound(1)] unat_of_nat_u64 [OF bound(2)]
  have le: "\<not> (of_nat (length b) :: u64) > of_nat (length (event_data b) - 64)" using n p(5) by (simp add: word_less_nat_alt del: of_nat_diff)
  have "unat (of_nat (length b) + 32 :: u64) = length b + 32" using n(2) assms(3) by (simp add: unat_word_ariths(1))
  then have lt: "\<not> of_nat (length b) + 32 \<le> (of_nat (length (event_data b) - 64) :: u64)" using n(1) p(5,6) by (simp add: word_le_nat_alt)
  have "\<not> length (event_data b) < 64" "length b < 2 ^ 64" using p(5) assms(3) by simp_all
  then show ?thesis
    using le lt p(4) by (simp add: UnmarshalDepositLogEvent_def assms(1,2) Let_def p(1-3) padded_address [OF assms(4)])
qed

lemma deposit_event_read:
  assumes "user_deposit dep" "MarshalDepositLogEvent keccak addr dep = Some (Inr ev)"
  shows "UnmarshalDepositLogEvent keccak (ev\<lparr>log_BlockHash := h, log_Index := i\<rparr>) =
    Inr (dep\<lparr>dep_SourceHash := UserDepositSource_SourceHash keccak h i\<rparr>)"
proof -
  let ?ev = "ev\<lparr>log_BlockHash := h, log_Index := i\<rparr>"
  let ?to = "case dep_To dep of None \<Rightarrow> replicate 32 0 | Some a \<Rightarrow> AddressAsLeftPaddedHash a"
  have ev: "log_Topics ?ev = [DepositEventABIHash keccak, AddressAsLeftPaddedHash (dep_From dep), ?to, DepositEventVersion0]"
    "log_Data ?ev = event_data (opaque dep)" "log_BlockHash ?ev = h" "log_Index ?ev = i"
    using assms(2) unfolding MarshalDepositLogEvent_eq [OF assms(1)] by auto
  have "length (opaque dep) < 2 ^ 62" "length (dep_From dep) = 20" using assms(1) by (simp_all add: opaque_def user_deposit_def)
  then have "UnmarshalDepositLogEvent keccak ?ev = unmarshalDepositVersion0
      \<lparr>dep_SourceHash = UserDepositSource_SourceHash keccak h i, dep_From = dep_From dep, dep_To = None,
       dep_Mint = None, dep_Value = None, dep_Gas = 0, dep_IsSystemTransaction = False, dep_Data = []\<rparr> (BytesToAddress (drop 12 ?to)) (opaque dep)"
    using UnmarshalDepositLogEvent_eq [OF ev(1,2)] ev(3,4) by simp
  also have "\<dots> = Inr (dep\<lparr>dep_SourceHash := UserDepositSource_SourceHash keccak h i\<rparr>)"
    using assms(1) by (subst unmarshalDeposit_eq) (auto simp: user_deposit_def padded_address)
  finally show ?thesis .
qed


section \<open>The deposits of a block\<close>

definition block_logs :: "(EvmLog \<Rightarrow> bool) \<Rightarrow> L1Receipt list \<Rightarrow> EvmLog list" where
  "block_logs P receipts = filter P (concat (map rec_Logs (filter (\<lambda>r. rec_Status r = ReceiptStatusSuccessful) receipts)))"

definition rights :: "('e + 'a) list \<Rightarrow> 'a list" where
  "rights xs = concat (map (case_sum (\<lambda>_. []) (\<lambda>a. [a])) xs)"

definition lefts :: "('e + 'a) list \<Rightarrow> 'e list" where
  "lefts xs = concat (map (case_sum (\<lambda>e. [e]) (\<lambda>_. [])) xs)"

lemma deposit_logs_eq:
  "deposit_logs keccak addr logs (out, errs) =
     (let ds = map (UnmarshalDepositLogEvent keccak) (filter (is_deposit_log keccak addr) logs) in (out @ rights ds, errs @ lefts ds))"
  by (induction logs arbitrary: out errs) (auto simp: rights_def lefts_def Let_def split: sum.splits)

lemma user_deposits_eq:
  "user_deposits keccak addr receipts (out, errs) =
     (let ds = map (UnmarshalDepositLogEvent keccak) (block_logs (is_deposit_log keccak addr) receipts) in (out @ rights ds, errs @ lefts ds))"
  by (induction receipts arbitrary: out errs) (simp_all add: block_logs_def deposit_logs_eq Let_def, simp_all add: rights_def lefts_def)

lemma encode_deposits_eq:
  assumes "\<forall>d \<in> set ds. deposit_ok d"
  shows "encode_deposits ds (out, errs) = Some (out @ map (\<lambda>d. DepositTxType # rlp_enc (RList (deposit_items d))) ds, errs)"
  using assms by (induction ds arbitrary: out) (simp_all add: deposit_marshal)

lemma BytesToAddress_length: "length (BytesToAddress b) = 20"
  by (simp add: BytesToAddress_def set_bytes_def Let_def)

lemma be_val_256: "length b \<le> 32 \<Longrightarrow> int (be_val b) < 2 ^ 256"
proof -
  assume "length b \<le> 32"
  then have "(256 :: nat) ^ length b \<le> 256 ^ 32" by (rule power_increasing) simp
  then have "be_val b < 2 ^ 256" using be_val_less [of b] by simp
  then show ?thesis by (metis of_nat_less_iff of_nat_numeral of_nat_power)
qed

lemma read_deposit_ok:
  assumes "\<And>b. length (keccak b) = 32" "UnmarshalDepositLogEvent keccak ev = Inr dep" "length (log_Data ev) < 2 ^ 60"
  shows "deposit_ok dep"
proof -
  obtain dep0 to opq where u: "unmarshalDepositVersion0 dep0 to opq = Inr dep" and l: "length opq \<le> length (log_Data ev)"
    and d: "length (dep_SourceHash dep0) = 32" "length (dep_From dep0) = 20" "dep_To dep0 = None" "length to = 20"
    using assms(1,2) BytesToAddress_length
    by (fastforce simp: UnmarshalDepositLogEvent_def Let_def UserDepositSource_SourceHash_def domain_hash_def split: if_splits)
  have "int (be_val (take 32 b)) < 2 ^ 256" for b by (rule be_val_256) simp
  then show ?thesis using u l d assms(3) unfolding unmarshalDepositVersion0_def deposit_ok_def by (auto simp: Let_def split: if_splits)
qed

lemma set_rights: "d \<in> set (rights xs) \<longleftrightarrow> Inr d \<in> set xs"
  by (force simp: rights_def split: sum.splits)


section \<open>System configuration updates\<close>

definition abi_word :: "u64 \<Rightarrow> bytes" where
  "abi_word w = replicate 24 0 @ PutUint64BE w"

lemma read_header_iff: "read_header len r = Inr r' \<longleftrightarrow> r = abi_word 32 @ abi_word len @ r'"
proof -
  have "read_header len r = Inr r' \<longleftrightarrow> (\<exists>r1. ReadUint64 r = Inr (32, r1) \<and> ReadUint64 r1 = Inr (len, r'))"
    unfolding read_header_def by (auto split: sum.splits prod.splits if_splits)
  then show ?thesis by (auto simp: ReadUint64_iff abi_word_def)
qed

lemma read_or_iff: "read_or e x = Inr v \<longleftrightarrow> x = Inr v"
  by (cases x) (simp_all add: read_or_def)

lemma update_types_distinct [simp]: "update_type a = update_type b \<longleftrightarrow> a = b"
  by (simp add: update_type_def)

lemmas update_types = SystemConfigUpdateBatcher_def SystemConfigUpdateFeeScalars_def SystemConfigUpdateGasLimit_def
  SystemConfigUpdateUnsafeBlockSigner_def SystemConfigUpdateEIP1559Params_def

definition scalar_update :: "bool \<Rightarrow> SystemConfig \<Rightarrow> bytes \<Rightarrow> bytes \<Rightarrow> SystemConfig" where
  "scalar_update eco sc ov s = (if eco then if CheckEcotoneL1SystemConfigScalar s \<noteq> None then sc
     else sc\<lparr>sc_Scalar := s, sc_Overhead := replicate 32 0\<rparr> else sc\<lparr>sc_Overhead := ov, sc_Scalar := s\<rparr>)"

text \<open>
  An update event that derivation reads, as the contract emits it: the kind of the update, its data, and
  its effect. The update of the unsafe block signer, which derivation ignores, is not one of them.
\<close>

inductive config_update :: "Config \<Rightarrow> u64 \<Rightarrow> SystemConfig \<Rightarrow> Hash \<Rightarrow> bytes \<Rightarrow> SystemConfig \<Rightarrow> bool" for cfg t sc where
  batcher: "length a = 20 \<Longrightarrow>
    config_update cfg t sc SystemConfigUpdateBatcher (abi_word 32 @ abi_word 32 @ replicate 12 0 @ a) (sc\<lparr>sc_BatcherAddr := a\<rparr>)"
| scalars: "length ov = 32 \<Longrightarrow> length s = 32 \<Longrightarrow>
    config_update cfg t sc SystemConfigUpdateFeeScalars (abi_word 32 @ abi_word 64 @ ov @ s) (scalar_update (IsEcotone cfg t) sc ov s)"
| gas_limit: "config_update cfg t sc SystemConfigUpdateGasLimit (abi_word 32 @ abi_word 32 @ abi_word g) (sc\<lparr>sc_GasLimit := g\<rparr>)"
| eip1559: "length ps = 32 \<Longrightarrow>
    config_update cfg t sc SystemConfigUpdateEIP1559Params (abi_word 32 @ abi_word 32 @ ps) (sc\<lparr>sc_EIP1559Params := drop 24 ps\<rparr>)"

lemma process_batcher:
  "bind_res (read_header 32 d) (\<lambda>r. bind_res (read_or CouldNotReadAddress (ReadAddress r)) (\<lambda>(address, r).
     if \<not> EmptyReader r then Inl SysTooManyBytes else Inr (sc\<lparr>sc_BatcherAddr := address\<rparr>))) = Inr sc' \<longleftrightarrow>
   (\<exists>a. length a = 20 \<and> d = abi_word 32 @ abi_word 32 @ replicate 12 0 @ a \<and> sc' = sc\<lparr>sc_BatcherAddr := a\<rparr>)"
  by (auto simp: bind_res_Inr_iff read_header_iff read_or_iff ReadAddress_iff EmptyReader_def split: if_splits)

lemma process_gas:
  "bind_res (read_header 32 d) (\<lambda>r. bind_res (read_or CouldNotReadGasLimit (ReadUint64 r)) (\<lambda>(gasLimit, r).
     if \<not> EmptyReader r then Inl SysTooManyBytes else Inr (sc\<lparr>sc_GasLimit := gasLimit\<rparr>))) = Inr sc' \<longleftrightarrow>
   (\<exists>g. d = abi_word 32 @ abi_word 32 @ abi_word g \<and> sc' = sc\<lparr>sc_GasLimit := g\<rparr>)"
  by (auto simp: bind_res_Inr_iff read_header_iff read_or_iff ReadUint64_iff EmptyReader_def abi_word_def split: if_splits)

lemma process_params:
  "bind_res (read_header 32 d) (\<lambda>r. bind_res (read_or CouldNotReadParams (ReadEthBytes32 r)) (\<lambda>(params, r).
     if \<not> EmptyReader r then Inl SysTooManyBytes else Inr (sc\<lparr>sc_EIP1559Params := take 8 (drop 24 params)\<rparr>))) = Inr sc' \<longleftrightarrow>
   (\<exists>ps. length ps = 32 \<and> d = abi_word 32 @ abi_word 32 @ ps \<and> sc' = sc\<lparr>sc_EIP1559Params := drop 24 ps\<rparr>)"
  by (auto simp: bind_res_Inr_iff read_header_iff read_or_iff ReadHash_iff EmptyReader_def split: if_splits)

lemma Inr_if: "(if c then Inr a else Inr b) = Inr (if c then a else b)"
  by simp

lemma process_two_words:
  "bind_res (read_header 64 d) (\<lambda>r. bind_res (read_or e1 (ReadEthBytes32 r)) (\<lambda>(overhead, r).
     bind_res (read_or e2 (ReadEthBytes32 r)) (\<lambda>(scalarBytes, r).
       if \<not> EmptyReader r then Inl e3 else Inr (F overhead scalarBytes)))) = Inr sc' \<longleftrightarrow>
   (\<exists>ov s. length ov = 32 \<and> length s = 32 \<and> d = abi_word 32 @ abi_word 64 @ ov @ s \<and> sc' = F ov s)"
  by (auto simp: bind_res_Inr_iff read_header_iff read_or_iff ReadHash_iff EmptyReader_def split: if_splits)

lemma config_update_batcher:
  "config_update cfg t sc SystemConfigUpdateBatcher d sc' \<longleftrightarrow>
     (\<exists>a. length a = 20 \<and> d = abi_word 32 @ abi_word 32 @ replicate 12 0 @ a \<and> sc' = sc\<lparr>sc_BatcherAddr := a\<rparr>)"
  by (subst config_update.simps) (simp add: update_types conj_ac)

lemma config_update_scalars:
  "config_update cfg t sc SystemConfigUpdateFeeScalars d sc' \<longleftrightarrow>
     (\<exists>ov s. length ov = 32 \<and> length s = 32 \<and> d = abi_word 32 @ abi_word 64 @ ov @ s \<and> sc' = scalar_update (IsEcotone cfg t) sc ov s)"
  by (subst config_update.simps) (simp add: update_types conj_ac)

lemma config_update_gas:
  "config_update cfg t sc SystemConfigUpdateGasLimit d sc' \<longleftrightarrow>
     (\<exists>g. d = abi_word 32 @ abi_word 32 @ abi_word g \<and> sc' = sc\<lparr>sc_GasLimit := g\<rparr>)"
  by (subst config_update.simps) (simp add: update_types)

lemma config_update_params:
  "config_update cfg t sc SystemConfigUpdateEIP1559Params d sc' \<longleftrightarrow>
     (\<exists>ps. length ps = 32 \<and> d = abi_word 32 @ abi_word 32 @ ps \<and> sc' = sc\<lparr>sc_EIP1559Params := drop 24 ps\<rparr>)"
  by (subst config_update.simps) (simp add: update_types conj_ac)

text \<open>The effect of an event of a kind: the update of the unsafe block signer has none, whatever its data.\<close>

definition config_event :: "Config \<Rightarrow> u64 \<Rightarrow> SystemConfig \<Rightarrow> Hash \<Rightarrow> bytes \<Rightarrow> SystemConfig \<Rightarrow> bool" where
  "config_event cfg t sc k d sc' \<longleftrightarrow>
     (if k = SystemConfigUpdateUnsafeBlockSigner then sc' = sc else config_update cfg t sc k d sc')"

lemma config_event_kinds:
  "config_event cfg t sc SystemConfigUpdateBatcher d sc' \<longleftrightarrow> config_update cfg t sc SystemConfigUpdateBatcher d sc'"
  "config_event cfg t sc SystemConfigUpdateFeeScalars d sc' \<longleftrightarrow> config_update cfg t sc SystemConfigUpdateFeeScalars d sc'"
  "config_event cfg t sc SystemConfigUpdateGasLimit d sc' \<longleftrightarrow> config_update cfg t sc SystemConfigUpdateGasLimit d sc'"
  "config_event cfg t sc SystemConfigUpdateEIP1559Params d sc' \<longleftrightarrow> config_update cfg t sc SystemConfigUpdateEIP1559Params d sc'"
  "config_event cfg t sc SystemConfigUpdateUnsafeBlockSigner d sc' \<longleftrightarrow> sc' = sc"
  by (simp_all add: config_event_def update_types)


lemma process_scalars:
  "bind_res (read_header 64 d) (\<lambda>r. bind_res (read_or CouldNotReadOverhead (ReadEthBytes32 r)) (\<lambda>(overhead, r).
     bind_res (read_or CouldNotReadScalar (ReadEthBytes32 r)) (\<lambda>(scalarBytes, r).
       if \<not> EmptyReader r then Inl SysTooManyBytes
       else if eco then if CheckEcotoneL1SystemConfigScalar scalarBytes \<noteq> None then Inr sc
         else Inr (sc\<lparr>sc_Scalar := scalarBytes, sc_Overhead := replicate 32 0\<rparr>)
       else Inr (sc\<lparr>sc_Overhead := overhead, sc_Scalar := scalarBytes\<rparr>)))) = Inr sc' \<longleftrightarrow>
   (\<exists>ov s. length ov = 32 \<and> length s = 32 \<and> d = abi_word 32 @ abi_word 64 @ ov @ s \<and> sc' = scalar_update eco sc ov s)"
  unfolding scalar_update_def by (simp only: Inr_if process_two_words)

lemma update_kinds_distinct:
  "SystemConfigUpdateFeeScalars \<noteq> SystemConfigUpdateBatcher" "SystemConfigUpdateGasLimit \<noteq> SystemConfigUpdateBatcher"
  "SystemConfigUpdateEIP1559Params \<noteq> SystemConfigUpdateBatcher" "SystemConfigUpdateUnsafeBlockSigner \<noteq> SystemConfigUpdateBatcher"
  "SystemConfigUpdateGasLimit \<noteq> SystemConfigUpdateFeeScalars" "SystemConfigUpdateEIP1559Params \<noteq> SystemConfigUpdateFeeScalars"
  "SystemConfigUpdateUnsafeBlockSigner \<noteq> SystemConfigUpdateFeeScalars" "SystemConfigUpdateEIP1559Params \<noteq> SystemConfigUpdateGasLimit"
  "SystemConfigUpdateUnsafeBlockSigner \<noteq> SystemConfigUpdateGasLimit" "SystemConfigUpdateUnsafeBlockSigner \<noteq> SystemConfigUpdateEIP1559Params"
  by (simp_all add: update_types)

lemma process_kinds:
  assumes "log_Topics ev = [ConfigUpdateEventABIHash keccak, ConfigUpdateEventVersion0, k]"
  shows "ProcessSystemConfigUpdateLogEvent keccak sc ev cfg t = Inr sc' \<longleftrightarrow> config_event cfg t sc k (log_Data ev) sc'"
proof -
  have "length (log_Topics ev) = 3" "log_Topics ev ! 0 = ConfigUpdateEventABIHash keccak" "log_Topics ev ! 1 = ConfigUpdateEventVersion0"
    "log_Topics ev ! 2 = k" using assms by simp_all
  note u = ProcessSystemConfigUpdateLogEvent_def Let_def this simp_thms if_False
  consider "k = SystemConfigUpdateBatcher" | "k = SystemConfigUpdateFeeScalars" | "k = SystemConfigUpdateGasLimit"
    | "k = SystemConfigUpdateEIP1559Params" | "k = SystemConfigUpdateUnsafeBlockSigner"
    | "k \<noteq> SystemConfigUpdateBatcher" "k \<noteq> SystemConfigUpdateFeeScalars" "k \<noteq> SystemConfigUpdateGasLimit"
      "k \<noteq> SystemConfigUpdateEIP1559Params" "k \<noteq> SystemConfigUpdateUnsafeBlockSigner" by blast
  then show ?thesis
  proof cases
    case 1
    then show ?thesis by (simp only: u if_True process_batcher config_event_kinds config_update_batcher)
  next
    case 2
    then show ?thesis by (simp only: u update_kinds_distinct if_True process_scalars config_event_kinds config_update_scalars)
  next
    case 3
    then show ?thesis by (simp only: u update_kinds_distinct if_True process_gas config_event_kinds config_update_gas)
  next
    case 4
    then show ?thesis by (simp only: u update_kinds_distinct if_True process_params config_event_kinds config_update_params)
  next
    case 5
    then show ?thesis by (auto simp only: u update_kinds_distinct if_True config_event_kinds sum.inject)
  next
    case 6
    then have "\<not> config_event cfg t sc k (log_Data ev) sc'" by (auto simp: config_event_def elim: config_update.cases)
    then show ?thesis using 6 by (simp only: u sum.distinct)
  qed
qed

lemma process_iff:
  "ProcessSystemConfigUpdateLogEvent keccak sc ev cfg t = Inr sc' \<longleftrightarrow>
   (\<exists>k. log_Topics ev = [ConfigUpdateEventABIHash keccak, ConfigUpdateEventVersion0, k] \<and> config_event cfg t sc k (log_Data ev) sc')"
proof (cases "\<exists>k. log_Topics ev = [ConfigUpdateEventABIHash keccak, ConfigUpdateEventVersion0, k]")
  case True
  then show ?thesis using process_kinds by fastforce
next
  case False
  then have "\<not> (length (log_Topics ev) = 3 \<and> log_Topics ev ! 0 = ConfigUpdateEventABIHash keccak \<and> log_Topics ev ! 1 = ConfigUpdateEventVersion0)"
    by (auto simp: numeral_3_eq_3 length_Suc_conv)
  then consider "length (log_Topics ev) \<noteq> 3" | "length (log_Topics ev) = 3" "log_Topics ev ! 0 \<noteq> ConfigUpdateEventABIHash keccak"
    | "length (log_Topics ev) = 3" "log_Topics ev ! 0 = ConfigUpdateEventABIHash keccak" "log_Topics ev ! 1 \<noteq> ConfigUpdateEventVersion0"
    by blast
  then have "ProcessSystemConfigUpdateLogEvent keccak sc ev cfg t \<noteq> Inr sc'"
    by cases (simp_all add: ProcessSystemConfigUpdateLogEvent_def)
  then show ?thesis using False by blast
qed


section \<open>The configuration after a block\<close>

definition config_step :: "(bytes \<Rightarrow> Hash) \<Rightarrow> Config \<Rightarrow> u64 \<Rightarrow> SystemConfig \<times> SysCfgErr list \<Rightarrow> EvmLog \<Rightarrow> SystemConfig \<times> SysCfgErr list" where
  "config_step keccak cfg t acc log =
     (case ProcessSystemConfigUpdateLogEvent keccak (fst acc) log cfg t of Inl e \<Rightarrow> (fst acc, snd acc @ [e]) | Inr sc \<Rightarrow> (sc, snd acc))"

lemma config_logs_eq: "config_logs keccak cfg t logs acc = foldl (config_step keccak cfg t) acc (filter (is_config_log keccak cfg) logs)"
proof (induction logs arbitrary: acc)
  case (Cons log logs)
  then show ?case by (cases acc; cases "ProcessSystemConfigUpdateLogEvent keccak (fst acc) log cfg t") (simp_all add: config_step_def)
qed simp

lemma update_config_eq:
  "UpdateSystemConfigWithL1Receipts keccak sc receipts cfg t =
     foldl (config_step keccak cfg t) (sc, []) (block_logs (is_config_log keccak cfg) receipts)"
proof -
  have "config_receipts keccak cfg t receipts acc = foldl (config_step keccak cfg t) acc (block_logs (is_config_log keccak cfg) receipts)" for acc
    by (induction receipts arbitrary: acc) (simp_all add: config_logs_eq block_logs_def)
  then show ?thesis by (simp add: UpdateSystemConfigWithL1Receipts_def)
qed

definition config_ok :: "Config \<Rightarrow> u64 \<Rightarrow> SystemConfig \<Rightarrow> bool" where
  "config_ok cfg t sc \<longleftrightarrow> length (sc_BatcherAddr sc) = 20 \<and> length (sc_Overhead sc) = 32 \<and> length (sc_Scalar sc) = 32 \<and>
     length (sc_EIP1559Params sc) = 8 \<and> (IsEcotone cfg t \<longrightarrow> is_ok (EcotoneScalars_of sc))"

lemma EcotoneScalars_scalar [simp]:
  "EcotoneScalars_of (sc\<lparr>sc_BatcherAddr := a\<rparr>) = EcotoneScalars_of sc"
  "EcotoneScalars_of (sc\<lparr>sc_GasLimit := g\<rparr>) = EcotoneScalars_of sc"
  "EcotoneScalars_of (sc\<lparr>sc_EIP1559Params := ps\<rparr>) = EcotoneScalars_of sc"
  by (simp_all add: EcotoneScalars_of_def split: option.split)

lemma checked_scalars: "CheckEcotoneL1SystemConfigScalar (sc_Scalar sc) = None \<Longrightarrow> is_ok (EcotoneScalars_of sc)"
  by (auto simp: EcotoneScalars_of_def DecodeScalar_def CheckEcotoneL1SystemConfigScalar_def Let_def split: if_splits)

lemma config_ok_update: "config_update cfg t sc k d sc' \<Longrightarrow> config_ok cfg t sc \<Longrightarrow> config_ok cfg t sc'"
  by (induction rule: config_update.induct)
     (auto simp: config_ok_def scalar_update_def intro!: checked_scalars)

lemma config_ok_event: "config_event cfg t sc k d sc' \<Longrightarrow> config_ok cfg t sc \<Longrightarrow> config_ok cfg t sc'"
  by (auto simp: config_event_def intro: config_ok_update split: if_splits)

lemma config_ok_run: "config_ok cfg t (fst acc) \<Longrightarrow> config_ok cfg t (fst (foldl (config_step keccak cfg t) acc logs))"
proof (induction logs arbitrary: acc)
  case (Cons log logs)
  have "config_ok cfg t (fst (config_step keccak cfg t acc log))"
    using Cons.prems by (auto simp: config_step_def process_iff intro: config_ok_event split: sum.splits)
  then show ?case using Cons.IH by simp
qed simp


section \<open>Properties\<close>

text \<open>C26. A deposit written as an event of the deposit contract is read back from the log, whatever block and index the
  log ends up with: all fields are the same, and the source hash is that of the block and index.\<close>

theorem deposit_event_round_trip:
  assumes "user_deposit dep"
  shows "\<exists>ev. MarshalDepositLogEvent keccak addr dep = Some (Inr ev) \<and> is_deposit_log keccak addr ev \<and>
    UnmarshalDepositLogEvent keccak (ev\<lparr>log_BlockHash := h, log_Index := i\<rparr>) =
      Inr (dep\<lparr>dep_SourceHash := UserDepositSource_SourceHash keccak h i\<rparr>)"
  using MarshalDepositLogEvent_eq [OF assms, of keccak addr] deposit_event_read [OF assms, of keccak addr _ i h]
  by (auto simp: is_deposit_log_def)

text \<open>C23. The deposits of an L1 block are one transaction per well formed event of the deposit contract in a successful receipt,
  in the order of the logs: each carries the deposit type and decodes to the deposit of its event, the
  malformed events are reported and skipped, and nothing panics. Hashes are 32 bytes long and log data is shorter than
  \<open>2\<^sup>6\<^sup>0\<close> bytes.\<close>

theorem deposits_follow_logs:
  assumes "\<And>b. length (keccak b) = 32"
    and "\<And>log. log \<in> set (block_logs (is_deposit_log keccak addr) receipts) \<Longrightarrow> length (log_Data log) < 2 ^ 60"
  shows "let ds = map (UnmarshalDepositLogEvent keccak) (block_logs (is_deposit_log keccak addr) receipts) in
    \<exists>txs. DeriveDeposits keccak receipts addr = Some (txs, lefts ds) \<and> list_all (\<lambda>tx. hd tx = DepositTxType) txs \<and>
      map deposit_UnmarshalBinary txs = map (\<lambda>d. Some (Inr (deposit_norm d))) (rights ds)"
proof -
  let ?ds = "map (UnmarshalDepositLogEvent keccak) (block_logs (is_deposit_log keccak addr) receipts)"
  have ok: "\<forall>d \<in> set (rights ?ds). deposit_ok d"
    using read_deposit_ok [OF assms(1)] assms(2) by (auto simp: set_rights)
  have "DeriveDeposits keccak receipts addr = Some (map (\<lambda>d. DepositTxType # rlp_enc (RList (deposit_items d))) (rights ?ds), lefts ?ds)"
    by (simp add: DeriveDeposits_def UserDeposits_def user_deposits_eq encode_deposits_eq [OF ok] Let_def)
  then show ?thesis using ok deposit_unmarshal by (auto simp: Let_def list_all_iff)
qed

text \<open>C24. A configuration event is accepted exactly when it has the three topics of the contract, the last of them a known kind of
  update, and its data is the ABI encoding of an update of that kind, and then has the effect of that update: a batcher address,
  the fee scalars (ignored from Ecotone on when they fail the Ecotone check), a gas limit or EIP-1559 parameters. The data of an
  unsafe-block-signer update is not looked at: it is accepted with any data and changes nothing. A block applies the events of its
  successful receipts in order, and an event that is refused leaves the configuration as it was and is reported.\<close>

theorem config_updates_exact:
  "(ProcessSystemConfigUpdateLogEvent keccak sc ev cfg t = Inr sc' \<longleftrightarrow>
      (\<exists>k. log_Topics ev = [ConfigUpdateEventABIHash keccak, ConfigUpdateEventVersion0, k] \<and>
         (if k = SystemConfigUpdateUnsafeBlockSigner then sc' = sc else config_update cfg t sc k (log_Data ev) sc'))) \<and>
   UpdateSystemConfigWithL1Receipts keccak sc receipts cfg t =
     foldl (config_step keccak cfg t) (sc, []) (block_logs (is_config_log keccak cfg) receipts)"
  by (simp add: process_iff update_config_eq config_event_def)

text \<open>C25. Whatever the logs of an L1 block hold, the system configuration keeps its field widths, and
  from Ecotone on its scalars stay readable, so that the L1 info deposit of the next blocks can be made.\<close>

theorem config_stays_valid:
  assumes "config_ok cfg t sc"
  shows "config_ok cfg t (fst (UpdateSystemConfigWithL1Receipts keccak sc receipts cfg t))"
  using assms by (simp add: update_config_eq config_ok_run)

section \<open>Examples\<close>

definition ex_deposit :: DepositTx where
  "ex_deposit = \<lparr>dep_SourceHash = [], dep_From = replicate 20 1, dep_To = Some (replicate 20 2), dep_Mint = Some 5, dep_Value = Some 7,
     dep_Gas = 21000, dep_IsSystemTransaction = False, dep_Data = [1, 2]\<rparr>"

lemma ex_deposit_ok: "user_deposit ex_deposit"
  by (simp add: user_deposit_def ex_deposit_def)

theorem deposit_event_round_trip_witness:
  "\<exists>ev. MarshalDepositLogEvent (\<lambda>b. replicate 32 7) [6] ex_deposit = Some (Inr ev) \<and>
     UnmarshalDepositLogEvent (\<lambda>b. replicate 32 7) (ev\<lparr>log_BlockHash := [3], log_Index := 4\<rparr>) =
       Inr (ex_deposit\<lparr>dep_SourceHash := replicate 32 7\<rparr>)"
  using deposit_event_round_trip [OF ex_deposit_ok, of "\<lambda>b. replicate 32 7" "[6]" 4 "[3]"]
  by (auto simp: UserDepositSource_SourceHash_def domain_hash_def)

definition ex_deposit_log :: EvmLog where
  "ex_deposit_log = \<lparr>log_Address = [6], log_Topics = [replicate 32 7], log_Data = [], log_BlockHash = [], log_Index = 0\<rparr>"

definition ex_event :: EvmLog where
  "ex_event = \<lparr>log_Address = [6],
     log_Topics = [replicate 32 7, AddressAsLeftPaddedHash (replicate 20 1), AddressAsLeftPaddedHash (replicate 20 2), DepositEventVersion0],
     log_Data = event_data (opaque ex_deposit), log_BlockHash = replicate 32 0, log_Index = 0\<rparr>"

lemma ex_event_read:
  "UnmarshalDepositLogEvent (\<lambda>b. replicate 32 7) ex_event = Inr (ex_deposit\<lparr>dep_SourceHash := replicate 32 7\<rparr>)"
proof -
  have "MarshalDepositLogEvent (\<lambda>b. replicate 32 7) [6] ex_deposit = Some (Inr ex_event)"
    by (subst MarshalDepositLogEvent_eq [OF ex_deposit_ok])
       (simp add: ex_event_def DepositEventABIHash_def ex_deposit_def [THEN arg_cong, of dep_From] ex_deposit_def [THEN arg_cong, of dep_To])
  from deposit_event_read [OF ex_deposit_ok this, of 0 "replicate 32 0"] show ?thesis
    by (simp add: ex_event_def UserDepositSource_SourceHash_def domain_hash_def)
qed

text \<open>A well formed event, a malformed one, and a failed receipt.\<close>

theorem deposits_follow_logs_witness:
  "\<exists>tx. DeriveDeposits (\<lambda>b. replicate 32 7)
       [\<lparr>rec_Status = 1, rec_Logs = [ex_event, ex_deposit_log]\<rparr>, \<lparr>rec_Status = 0, rec_Logs = [ex_event]\<rparr>] [6] =
     Some ([tx], [TopicCount 1]) \<and>
   deposit_UnmarshalBinary tx = Some (Inr (deposit_norm (ex_deposit\<lparr>dep_SourceHash := replicate 32 7\<rparr>)))"
proof -
  let ?k = "\<lambda>b :: bytes. replicate 32 (7 :: byte)"
  let ?r = "[\<lparr>rec_Status = 1, rec_Logs = [ex_event, ex_deposit_log]\<rparr>, \<lparr>rec_Status = 0, rec_Logs = [ex_event]\<rparr>]"
  have l: "block_logs (is_deposit_log ?k [6]) ?r = [ex_event, ex_deposit_log]"
    by (simp add: block_logs_def ReceiptStatusSuccessful_def is_deposit_log_def DepositEventABIHash_def ex_deposit_log_def ex_event_def)
  have m: "UnmarshalDepositLogEvent ?k ex_deposit_log = Inl (TopicCount 1)" by (simp add: UnmarshalDepositLogEvent_def ex_deposit_log_def)
  have "length (opaque ex_deposit) < 2 ^ 20" by (simp add: opaque_def ex_deposit_def)
  then have "length (event_data (opaque ex_deposit)) < 2 ^ 60" using event_data_parts(6) [of "opaque ex_deposit"] by simp
  then have "length (log_Data log) < 2 ^ 60" if "log \<in> {ex_event, ex_deposit_log}" for log
    using that by (auto simp: ex_event_def ex_deposit_log_def)
  then show ?thesis
    using deposits_follow_logs [of ?k "[6]" ?r] unfolding l by (auto simp: Let_def rights_def lefts_def ex_event_read m)
qed

theorem config_stays_valid_witness:
  "config_ok ex_cfg 1700 (fst (UpdateSystemConfigWithL1Receipts (\<lambda>b. replicate 32 7) ex_sys
     [\<lparr>rec_Status = 1, rec_Logs = [ex_deposit_log\<lparr>log_Address := [7]\<rparr>]\<rparr>] ex_cfg 1700))"
  by (rule config_stays_valid) (use ex_scalars in \<open>simp add: config_ok_def, simp add: ex_sys_def\<close>)

end
