(* ===== verification/Derive_Batches.thy ===== *)
theory Derive_Batches
  imports L1_Info
begin

text \<open>
  Batches of \<^verbatim>\<open>op-node/rollup/derive\<close> and the rules that decide about them: \<^verbatim>\<open>singular_batch.go\<close>, the derived form of
  \<^verbatim>\<open>span_batch.go\<close>, and \<^verbatim>\<open>batches.go\<close>. A panic (an empty span, a block time of zero, an empty safe transaction) is \<open>None\<close>.
\<close>

section \<open>Data\<close>

record SingularBatch =
  sb_ParentHash :: Hash
  sb_EpochNum :: u64
  sb_EpochHash :: Hash
  sb_Timestamp :: u64
  sb_Transactions :: "bytes list"

definition SingularBatch_Epoch :: "SingularBatch \<Rightarrow> BlockID" where
  "SingularBatch_Epoch b = \<lparr>id_Hash = sb_EpochHash b, id_Number = sb_EpochNum b\<rparr>"

record SpanBatchElement =
  se_EpochNum :: u64
  se_Timestamp :: u64
  se_Transactions :: "bytes list"

definition singularBatchToElement :: "SingularBatch \<Rightarrow> SpanBatchElement" where
  "singularBatchToElement b =
     \<lparr>se_EpochNum = sb_EpochNum b, se_Timestamp = sb_Timestamp b, se_Transactions = sb_Transactions b\<rparr>"

record SpanBatch =
  sp_ParentCheck :: bytes
  sp_L1OriginCheck :: bytes
  sp_Batches :: "SpanBatchElement list"

datatype Batch = Singular SingularBatch | Span SpanBatch

record BatchWithL1InclusionBlock =
  bw_Batch :: Batch
  bw_L1InclusionBlock :: L1BlockRef

datatype BatchValidity = BatchDrop | BatchAccept | BatchUndecided | BatchFuture | BatchPast

text \<open>\<^verbatim>\<open>SafeBlockFetcher\<close>: \<open>None\<close> is an error of the fetch.\<close>

record SafeBlockFetcher =
  L2BlockRefByNumber :: "u64 \<Rightarrow> L2BlockRef option"
  PayloadByNumber :: "u64 \<Rightarrow> ExecutionPayload option"

definition zero_l1ref :: L1BlockRef where
  "zero_l1ref = \<lparr>l1_Hash = replicate 32 0, l1_Number = 0, l1_ParentHash = replicate 32 0, l1_Time = 0\<rparr>"

definition zero_l2ref :: L2BlockRef where
  "zero_l2ref = \<lparr>l2_Hash = replicate 32 0, l2_Number = 0, l2_ParentHash = replicate 32 0, l2_Time = 0,
     l2_L1Origin = \<lparr>id_Hash = replicate 32 0, id_Number = 0\<rparr>, l2_SequenceNumber = 0\<rparr>"

section \<open>Span batch accessors (span_batch.go)\<close>

text \<open>Indexing outside the span panics.\<close>

definition span_elem :: "SpanBatch \<Rightarrow> nat \<Rightarrow> SpanBatchElement option" where
  "span_elem b i = (if i < length (sp_Batches b) then Some (sp_Batches b ! i) else None)"

definition GetBlockCount :: "SpanBatch \<Rightarrow> nat" where
  "GetBlockCount b = length (sp_Batches b)"

definition GetTimestamp :: "SpanBatch \<Rightarrow> u64 option" where
  "GetTimestamp b = map_option se_Timestamp (span_elem b 0)"

definition GetStartEpochNum :: "SpanBatch \<Rightarrow> u64 option" where
  "GetStartEpochNum b = map_option se_EpochNum (span_elem b 0)"

definition GetBlockEpochNum :: "SpanBatch \<Rightarrow> nat \<Rightarrow> u64 option" where
  "GetBlockEpochNum b i = map_option se_EpochNum (span_elem b i)"

definition GetBlockTimestamp :: "SpanBatch \<Rightarrow> nat \<Rightarrow> u64 option" where
  "GetBlockTimestamp b i = map_option se_Timestamp (span_elem b i)"

definition GetBlockTransactions :: "SpanBatch \<Rightarrow> nat \<Rightarrow> bytes list option" where
  "GetBlockTransactions b i = map_option se_Transactions (span_elem b i)"

definition CheckOriginHash :: "SpanBatch \<Rightarrow> Hash \<Rightarrow> bool" where
  "CheckOriginHash b hash \<longleftrightarrow> sp_L1OriginCheck b = take 20 hash"

definition CheckParentHash :: "SpanBatch \<Rightarrow> Hash \<Rightarrow> bool" where
  "CheckParentHash b hash \<longleftrightarrow> sp_ParentCheck b = take 20 hash"

text \<open>The search for an L1 block by number, from index \<open>j\<close> on.\<close>

fun find_origin :: "nat \<Rightarrow> L1BlockRef list \<Rightarrow> u64 \<Rightarrow> nat option" where
  "find_origin j [] n = None"
| "find_origin j (b # bs) n = (if l1_Number b = n then Some j else find_origin (Suc j) bs n)"

fun get_singular :: "L1BlockRef list \<Rightarrow> L2BlockRef \<Rightarrow> nat \<Rightarrow> SpanBatchElement list \<Rightarrow> u64 + SingularBatch list" where
  "get_singular l1Origins l2SafeHead originIdx [] = Inr []"
| "get_singular l1Origins l2SafeHead originIdx (batch # bs) =
     (if se_Timestamp batch \<le> l2_Time l2SafeHead then get_singular l1Origins l2SafeHead originIdx bs
      else
        (case find_origin originIdx (drop originIdx l1Origins) (se_EpochNum batch) of
           None \<Rightarrow> Inl (se_EpochNum batch)
         | Some i \<Rightarrow>
             bind_res (get_singular l1Origins l2SafeHead i bs) (\<lambda>rest.
               Inr (\<lparr>sb_ParentHash = replicate 32 0, sb_EpochNum = se_EpochNum batch, sb_EpochHash = l1_Hash (l1Origins ! i),
                     sb_Timestamp = se_Timestamp batch, sb_Transactions = se_Transactions batch\<rparr> # rest))))"

definition GetSingularBatches :: "SpanBatch \<Rightarrow> L1BlockRef list \<Rightarrow> L2BlockRef \<Rightarrow> u64 + SingularBatch list" where
  "GetSingularBatches b l1Origins l2SafeHead = get_singular l1Origins l2SafeHead 0 (sp_Batches b)"

section \<open>Validity (batches.go)\<close>

text \<open>The transactions of a batch: none is empty and none is a deposit.\<close>

fun check_txs :: "bytes list \<Rightarrow> bool" where
  "check_txs [] \<longleftrightarrow> True"
| "check_txs (txBytes # txs) \<longleftrightarrow>
     (if length txBytes = 0 then False else if hd txBytes = DepositTxType then False else check_txs txs)"

definition checkSingularBatch ::
  "Config \<Rightarrow> L1BlockRef list \<Rightarrow> L2BlockRef \<Rightarrow> SingularBatch \<Rightarrow> L1BlockRef \<Rightarrow> BatchValidity" where
  "checkSingularBatch cfg l1Blocks l2SafeHead batch l1InclusionBlock =
     (case l1Blocks of
        [] \<Rightarrow> BatchUndecided
      | epoch # more_blocks \<Rightarrow>
          (let nextTimestamp = l2_Time l2SafeHead + BlockTime cfg in
           if sb_Timestamp batch > nextTimestamp then
             if IsHolocene cfg (l1_Time l1InclusionBlock) then BatchDrop else BatchFuture
           else if sb_Timestamp batch < nextTimestamp then
             if IsHolocene cfg (l1_Time l1InclusionBlock) then BatchPast else BatchDrop
           else if sb_ParentHash batch \<noteq> l2_Hash l2SafeHead then BatchDrop
           else if sb_EpochNum batch + SeqWindowSize cfg < l1_Number l1InclusionBlock then BatchDrop
           else
             (let origin =
                (if sb_EpochNum batch < l1_Number epoch then Inl BatchDrop
                 else if sb_EpochNum batch = l1_Number epoch then Inr epoch
                 else if sb_EpochNum batch = l1_Number epoch + 1 then
                   (case more_blocks of [] \<Rightarrow> Inl BatchUndecided | nextOrigin # _ \<Rightarrow> Inr nextOrigin)
                 else Inl BatchDrop)
              in case origin of
                   Inl v \<Rightarrow> v
                 | Inr batchOrigin \<Rightarrow>
                     if sb_EpochHash batch \<noteq> l1_Hash batchOrigin then BatchDrop
                     else if sb_Timestamp batch < l1_Time batchOrigin then BatchDrop
                     else
                       (let drift =
                          (if sb_Timestamp batch > l1_Time batchOrigin + MaxSequencerDrift cfg (l1_Time batchOrigin) then
                             if sb_Transactions batch = [] then
                               if l1_Number epoch = l1_Number batchOrigin then
                                 (case more_blocks of
                                    [] \<Rightarrow> Some BatchUndecided
                                  | nextOrigin # _ \<Rightarrow>
                                      if sb_Timestamp batch \<ge> l1_Time nextOrigin then Some BatchDrop else None)
                               else None
                             else Some BatchDrop
                           else None)
                        in case drift of
                             Some v \<Rightarrow> v
                           | None \<Rightarrow> if check_txs (sb_Transactions batch) then BatchAccept else BatchDrop))))"

text \<open>The loop that looks for the last L1 origin: dropped, found, or not among the blocks.\<close>

fun check_end_origin :: "SpanBatch \<Rightarrow> u64 \<Rightarrow> L1BlockRef list \<Rightarrow> BatchValidity" where
  "check_end_origin batch endEpochNum [] = BatchUndecided"
| "check_end_origin batch endEpochNum (l1Block # l1Blocks) =
     (if l1_Number l1Block = endEpochNum then
        if \<not> CheckOriginHash batch (l1_Hash l1Block) then BatchDrop else BatchAccept
      else check_end_origin batch endEpochNum l1Blocks)"

definition checkSpanBatchPrefix ::
  "Config \<Rightarrow> L1BlockRef list \<Rightarrow> L2BlockRef \<Rightarrow> SpanBatch \<Rightarrow> L1BlockRef \<Rightarrow> SafeBlockFetcher \<Rightarrow> (BatchValidity \<times> L2BlockRef) option" where
  "checkSpanBatchPrefix cfg l1Blocks l2SafeHead batch l1InclusionBlock l2Fetcher =
     (case l1Blocks of
        [] \<Rightarrow> Some (BatchUndecided, zero_l2ref)
      | epoch # more_blocks \<Rightarrow>
          (case (GetStartEpochNum batch, GetTimestamp batch, GetBlockTimestamp batch (GetBlockCount batch - 1),
                 GetBlockEpochNum batch (GetBlockCount batch - 1)) of
             (Some startEpochNum, Some timestamp, Some endTimestamp, Some endEpochNum) \<Rightarrow>
               (let origin =
                  (if startEpochNum = l1_Number epoch + 1 then
                     (case more_blocks of [] \<Rightarrow> None | nextOrigin # _ \<Rightarrow> Some nextOrigin)
                   else Some epoch)
                in case origin of
                     None \<Rightarrow> Some (BatchUndecided, zero_l2ref)
                   | Some batchOrigin \<Rightarrow>
                       (let nextTimestamp = l2_Time l2SafeHead + BlockTime cfg in
                        if \<not> IsDelta cfg (l1_Time batchOrigin) then Some (BatchDrop, zero_l2ref)
                        else if timestamp > nextTimestamp then
                          Some (if IsHolocene cfg (l1_Time l1InclusionBlock) then BatchDrop else BatchFuture, zero_l2ref)
                        else if endTimestamp < nextTimestamp then
                          Some (if IsHolocene cfg (l1_Time l1InclusionBlock) then BatchPast else BatchDrop, zero_l2ref)
                        else
                          (let parent =
                             (if timestamp < nextTimestamp then
                                if timestamp > l2_Time l2SafeHead then Some (Inl BatchDrop)
                                else if BlockTime cfg = 0 then None
                                else if (l2_Time l2SafeHead - timestamp) mod BlockTime cfg \<noteq> 0 then Some (Inl BatchDrop)
                                else
                                  (case L2BlockRefByNumber l2Fetcher
                                          (l2_Number l2SafeHead - (l2_Time l2SafeHead - timestamp) div BlockTime cfg - 1) of
                                     None \<Rightarrow> Some (Inl BatchUndecided)
                                   | Some ref \<Rightarrow> Some (Inr ref))
                              else Some (Inr l2SafeHead))
                           in case parent of
                                None \<Rightarrow> None
                              | Some (Inl v) \<Rightarrow> Some (v, zero_l2ref)
                              | Some (Inr parentBlock) \<Rightarrow>
                                  if \<not> CheckParentHash batch (l2_Hash parentBlock) then Some (BatchDrop, parentBlock)
                                  else if startEpochNum + SeqWindowSize cfg < l1_Number l1InclusionBlock then
                                    Some (BatchDrop, parentBlock)
                                  else if startEpochNum > id_Number (l2_L1Origin parentBlock) + 1 then
                                    Some (BatchDrop, parentBlock)
                                  else
                                    (case check_end_origin batch endEpochNum l1Blocks of
                                       BatchAccept \<Rightarrow>
                                         if startEpochNum < id_Number (l2_L1Origin parentBlock) then Some (BatchDrop, parentBlock)
                                         else Some (BatchAccept, parentBlock)
                                     | v \<Rightarrow> Some (v, parentBlock)))))
           | _ \<Rightarrow> None))"

text \<open>The loop over the blocks of the span: \<open>None\<close> goes on to the overlapped blocks.\<close>

fun check_span_blocks ::
  "Config \<Rightarrow> L1BlockRef list \<Rightarrow> L2BlockRef \<Rightarrow> SpanBatchElement list \<Rightarrow> u64 option \<Rightarrow> nat \<Rightarrow> bool \<Rightarrow> BatchValidity option" where
  "check_span_blocks cfg l1Blocks l2SafeHead [] prevEpoch originIdx originAdvanced = None"
| "check_span_blocks cfg l1Blocks l2SafeHead (b # bs) prevEpoch originIdx originAdvanced =
     (if se_Timestamp b \<le> l2_Time l2SafeHead
      then check_span_blocks cfg l1Blocks l2SafeHead bs (Some (se_EpochNum b)) originIdx originAdvanced
      else
        (let found = find_origin originIdx (drop originIdx l1Blocks) (se_EpochNum b);
             l1Origin = (case found of None \<Rightarrow> zero_l1ref | Some j \<Rightarrow> l1Blocks ! j);
             originIdx = (case found of None \<Rightarrow> originIdx | Some j \<Rightarrow> j);
             originAdvanced = (case prevEpoch of None \<Rightarrow> originAdvanced | Some p \<Rightarrow> se_EpochNum b > p)
         in if se_Timestamp b < l1_Time l1Origin then Some BatchDrop
            else
              (let drift =
                 (if se_Timestamp b > l1_Time l1Origin + MaxSequencerDrift cfg (l1_Time l1Origin) then
                    if se_Transactions b = [] then
                      if \<not> originAdvanced then
                        if originIdx + 1 \<ge> length l1Blocks then Some BatchUndecided
                        else if se_Timestamp b \<ge> l1_Time (l1Blocks ! (originIdx + 1)) then Some BatchDrop
                        else None
                      else None
                    else Some BatchDrop
                  else None)
               in case drift of
                    Some v \<Rightarrow> Some v
                  | None \<Rightarrow>
                      if check_txs (se_Transactions b)
                      then check_span_blocks cfg l1Blocks l2SafeHead bs (Some (se_EpochNum b)) originIdx originAdvanced
                      else Some BatchDrop)))"

text \<open>The number of deposits of a safe block; an empty transaction is indexed out of range.\<close>

fun count_deposits :: "bytes list \<Rightarrow> nat option" where
  "count_deposits [] = Some 0"
| "count_deposits (tx # txs) =
     (case tx of
        [] \<Rightarrow> None
      | t # _ \<Rightarrow> map_option (\<lambda>n. if t = DepositTxType then Suc n else n) (count_deposits txs))"

definition check_overlapped ::
  "(bytes \<Rightarrow> Hash) \<Rightarrow> Config \<Rightarrow> SpanBatch \<Rightarrow> SafeBlockFetcher \<Rightarrow> u64 \<Rightarrow> nat \<Rightarrow> (BatchValidity option) option" where
  "check_overlapped keccak cfg batch l2Fetcher parentNum i =
     (case PayloadByNumber l2Fetcher (parentNum + of_nat i + 1) of
        None \<Rightarrow> Some (Some BatchUndecided)
      | Some payload \<Rightarrow>
          (case (GetBlockTransactions batch i, GetBlockEpochNum batch i, count_deposits (ep_Transactions payload)) of
             (Some batchTxs, Some epochNum, Some depositCount) \<Rightarrow>
               if length (ep_Transactions payload) - depositCount \<noteq> length batchTxs then Some (Some BatchDrop)
               else if drop depositCount (ep_Transactions payload) \<noteq> batchTxs then Some (Some BatchDrop)
               else
                 (case PayloadToBlockRef keccak cfg payload of
                    None \<Rightarrow> None
                  | Some (Inl e) \<Rightarrow> Some (Some BatchDrop)
                  | Some (Inr safeBlockRef) \<Rightarrow>
                      Some (if id_Number (l2_L1Origin safeBlockRef) \<noteq> epochNum then Some BatchDrop else None))
           | _ \<Rightarrow> None))"

fun overlap_loop ::
  "(bytes \<Rightarrow> Hash) \<Rightarrow> Config \<Rightarrow> SpanBatch \<Rightarrow> SafeBlockFetcher \<Rightarrow> u64 \<Rightarrow> nat list \<Rightarrow> BatchValidity option" where
  "overlap_loop keccak cfg batch l2Fetcher parentNum [] = Some BatchAccept"
| "overlap_loop keccak cfg batch l2Fetcher parentNum (i # is) =
     (case check_overlapped keccak cfg batch l2Fetcher parentNum i of
        None \<Rightarrow> None
      | Some (Some v) \<Rightarrow> Some v
      | Some None \<Rightarrow> overlap_loop keccak cfg batch l2Fetcher parentNum is)"

definition checkSpanBatch ::
  "(bytes \<Rightarrow> Hash) \<Rightarrow> Config \<Rightarrow> L1BlockRef list \<Rightarrow> L2BlockRef \<Rightarrow> SpanBatch \<Rightarrow> L1BlockRef \<Rightarrow> SafeBlockFetcher \<Rightarrow> BatchValidity option" where
  "checkSpanBatch keccak cfg l1Blocks l2SafeHead batch l1InclusionBlock l2Fetcher =
     (case checkSpanBatchPrefix cfg l1Blocks l2SafeHead batch l1InclusionBlock l2Fetcher of
        None \<Rightarrow> None
      | Some (prefixValidity, parentBlock) \<Rightarrow>
          if prefixValidity \<noteq> BatchAccept then Some prefixValidity
          else
            (case (GetStartEpochNum batch, GetTimestamp batch) of
               (Some startEpochNum, Some timestamp) \<Rightarrow>
                 (case check_span_blocks cfg l1Blocks l2SafeHead (sp_Batches batch) None 0
                         (startEpochNum = id_Number (l2_L1Origin parentBlock) + 1) of
                    Some v \<Rightarrow> Some v
                  | None \<Rightarrow>
                      if timestamp < l2_Time l2SafeHead + BlockTime cfg
                      then overlap_loop keccak cfg batch l2Fetcher (l2_Number parentBlock)
                             [0..<unat (l2_Number l2SafeHead - l2_Number parentBlock)]
                      else Some BatchAccept)
             | _ \<Rightarrow> None))"

definition CheckBatch ::
  "(bytes \<Rightarrow> Hash) \<Rightarrow> Config \<Rightarrow> L1BlockRef list \<Rightarrow> L2BlockRef \<Rightarrow> BatchWithL1InclusionBlock \<Rightarrow> SafeBlockFetcher \<Rightarrow> BatchValidity option" where
  "CheckBatch keccak cfg l1Blocks l2SafeHead batch l2Fetcher =
     (case bw_Batch batch of
        Singular singularBatch \<Rightarrow>
          Some (checkSingularBatch cfg l1Blocks l2SafeHead singularBatch (bw_L1InclusionBlock batch))
      | Span spanBatch \<Rightarrow>
          checkSpanBatch keccak cfg l1Blocks l2SafeHead spanBatch (bw_L1InclusionBlock batch) l2Fetcher)"

end
