(* ===== verification/Batch_Queue.thy ===== *)
theory Batch_Queue
  imports Derive_Batches
begin

text \<open>
  The batch stages of \<^verbatim>\<open>op-node/rollup/derive\<close>: \<^verbatim>\<open>batch_queue.go\<close> (before Holocene), \<^verbatim>\<open>batch_stage.go\<close> (from Holocene on) and
  \<^verbatim>\<open>batch_mux.go\<close>. The previous stage is given by its origin and by the answer of its \<^verbatim>\<open>NextBatch\<close>, which a call asks for at
  most once; the calls a stage makes to it are recorded in order. A panic is \<open>None\<close>.
\<close>

datatype StageErr = StEOF | StNotEnoughData | StTemporary | StReset | StCritical | StOther string

datatype PrevCall = PrevNextBatch | PrevFlushChannel

section \<open>Shared stage (batch_queue.go)\<close>

record baseBatchStage =
  bs_origin :: L1BlockRef
  bs_l1Blocks :: "L1BlockRef list"
  bs_nextSpan :: "SingularBatch list"
  bs_calls :: "PrevCall list"

definition call_prev :: "PrevCall \<Rightarrow> 'a baseBatchStage_scheme \<Rightarrow> 'a baseBatchStage_scheme" where
  "call_prev c bs = bs\<lparr>bs_calls := bs_calls bs @ [c]\<rparr>"

definition popNextBatch :: "L2BlockRef \<Rightarrow> 'a baseBatchStage_scheme \<Rightarrow> (SingularBatch \<times> 'a baseBatchStage_scheme) option" where
  "popNextBatch parent bs =
     (case bs_nextSpan bs of
        [] \<Rightarrow> None
      | nextBatch # rest \<Rightarrow> Some (nextBatch\<lparr>sb_ParentHash := l2_Hash parent\<rparr>, bs\<lparr>bs_nextSpan := rest\<rparr>))"

definition nextFromSpanBatch ::
  "Config \<Rightarrow> L2BlockRef \<Rightarrow> 'a baseBatchStage_scheme \<Rightarrow> ((SingularBatch \<times> bool) option \<times> 'a baseBatchStage_scheme) option" where
  "nextFromSpanBatch cfg parent bs =
     (case bs_nextSpan bs of
        [] \<Rightarrow> Some (None, bs)
      | b # _ \<Rightarrow>
          if sb_Timestamp b = l2_Time parent + BlockTime cfg then
            (case popNextBatch parent bs of
               None \<Rightarrow> None
             | Some (nextBatch, bs1) \<Rightarrow> Some (Some (nextBatch, bs_nextSpan bs1 = []), bs1))
          else Some (None, bs\<lparr>bs_nextSpan := []\<rparr>))"

definition originBehind :: "L1BlockRef \<Rightarrow> L2BlockRef \<Rightarrow> bool" where
  "originBehind prevOrigin parent \<longleftrightarrow> l1_Number prevOrigin < id_Number (l2_L1Origin parent)"

definition advance_origin :: "L1BlockRef \<Rightarrow> L2BlockRef \<Rightarrow> 'a baseBatchStage_scheme \<Rightarrow> 'a baseBatchStage_scheme" where
  "advance_origin prevOrigin parent bs =
     (if bs_origin bs \<noteq> prevOrigin then
        bs\<lparr>bs_origin := prevOrigin,
           bs_l1Blocks := (if \<not> originBehind prevOrigin parent then bs_l1Blocks bs @ [prevOrigin] else [])\<rparr>
      else bs)"

definition advance_epoch :: "L2BlockRef \<Rightarrow> 'a baseBatchStage_scheme \<Rightarrow> 'a baseBatchStage_scheme" where
  "advance_epoch parent bs =
     (case bs_l1Blocks bs of
        [] \<Rightarrow> bs
      | b # _ \<Rightarrow>
          if id_Number (l2_L1Origin parent) > l1_Number b then
            (case find_origin 0 (bs_l1Blocks bs) (id_Number (l2_L1Origin parent)) of
               None \<Rightarrow> bs
             | Some i \<Rightarrow> bs\<lparr>bs_l1Blocks := drop i (bs_l1Blocks bs)\<rparr>)
          else bs)"

definition updateOrigins :: "L1BlockRef \<Rightarrow> L2BlockRef \<Rightarrow> 'a baseBatchStage_scheme \<Rightarrow> 'a baseBatchStage_scheme" where
  "updateOrigins prevOrigin parent bs = advance_epoch parent (advance_origin prevOrigin parent bs)"

definition base_reset :: "L1BlockRef \<Rightarrow> 'a baseBatchStage_scheme \<Rightarrow> 'a baseBatchStage_scheme" where
  "base_reset base bs = bs\<lparr>bs_origin := base, bs_l1Blocks := [base], bs_nextSpan := []\<rparr>"

text \<open>\<^verbatim>\<open>l1Blocks[0]\<close> of an empty list panics.\<close>

definition deriveNextEmptyBatch ::
  "Config \<Rightarrow> bool \<Rightarrow> L2BlockRef \<Rightarrow> 'a baseBatchStage_scheme \<Rightarrow> ((StageErr + SingularBatch) \<times> 'a baseBatchStage_scheme) option" where
  "deriveNextEmptyBatch cfg outOfData parent bs =
     (case bs_l1Blocks bs of
        [] \<Rightarrow> None
      | epoch # more_blocks \<Rightarrow>
          (let expiryEpoch = l1_Number epoch + SeqWindowSize cfg;
               forceEmptyBatches = (expiryEpoch = l1_Number (bs_origin bs) \<and> outOfData \<or> expiryEpoch < l1_Number (bs_origin bs));
               firstOfEpoch = (l1_Number epoch = id_Number (l2_L1Origin parent) + 1);
               nextTimestamp = l2_Time parent + BlockTime cfg
           in if \<not> forceEmptyBatches then Some (Inl StEOF, bs)
              else
                (case more_blocks of
                   [] \<Rightarrow> Some (Inl StEOF, bs)
                 | nextEpoch # _ \<Rightarrow>
                     if nextTimestamp < l1_Time nextEpoch \<or> firstOfEpoch then
                       Some (Inr \<lparr>sb_ParentHash = l2_Hash parent, sb_EpochNum = l1_Number epoch, sb_EpochHash = l1_Hash epoch,
                                  sb_Timestamp = nextTimestamp, sb_Transactions = []\<rparr>, bs)
                     else Some (Inl StEOF, bs\<lparr>bs_l1Blocks := more_blocks\<rparr>))))"

section \<open>The batch queue before Holocene (batch_queue.go)\<close>

record BatchQueue = baseBatchStage +
  bq_batches :: "BatchWithL1InclusionBlock list"

definition NewBatchQueue :: BatchQueue where
  "NewBatchQueue = \<lparr>bs_origin = zero_l1ref, bs_l1Blocks = [], bs_nextSpan = [], bs_calls = [], bq_batches = []\<rparr>"

definition BatchQueue_Reset :: "L1BlockRef \<Rightarrow> BatchQueue \<Rightarrow> StageErr \<times> BatchQueue" where
  "BatchQueue_Reset base bq = (StEOF, (base_reset base bq)\<lparr>bq_batches := []\<rparr>)"

definition AddBatch :: "(bytes \<Rightarrow> Hash) \<Rightarrow> Config \<Rightarrow> SafeBlockFetcher \<Rightarrow> Batch \<Rightarrow> L2BlockRef \<Rightarrow> BatchQueue \<Rightarrow> BatchQueue option" where
  "AddBatch keccak cfg l2 batch parent bq =
     (if bs_l1Blocks bq = [] then None
      else
        (let data = \<lparr>bw_Batch = batch, bw_L1InclusionBlock = bs_origin bq\<rparr> in
         case CheckBatch keccak cfg (bs_l1Blocks bq) parent data l2 of
           None \<Rightarrow> None
         | Some validity \<Rightarrow> if validity = BatchDrop then Some bq else Some (bq\<lparr>bq_batches := bq_batches bq @ [data]\<rparr>)))"

text \<open>The loop over the queued batches. It ends with the accepted batch, with none, with \<open>StEOF\<close> when undecided, or with a
  critical error that leaves the queue as it was; each comes with the batches that remain.\<close>

fun batch_loop ::
  "(bytes \<Rightarrow> Hash) \<Rightarrow> Config \<Rightarrow> SafeBlockFetcher \<Rightarrow> L1BlockRef list \<Rightarrow> L2BlockRef \<Rightarrow> BatchWithL1InclusionBlock list \<Rightarrow>
   BatchWithL1InclusionBlock list \<Rightarrow> ((StageErr + Batch option) \<times> BatchWithL1InclusionBlock list) option" where
  "batch_loop keccak cfg l2 l1Blocks parent [] remaining = Some (Inr None, remaining)"
| "batch_loop keccak cfg l2 l1Blocks parent (batch # batches) remaining =
     (case CheckBatch keccak cfg l1Blocks parent batch l2 of
        None \<Rightarrow> None
      | Some BatchFuture \<Rightarrow> batch_loop keccak cfg l2 l1Blocks parent batches (remaining @ [batch])
      | Some BatchDrop \<Rightarrow> batch_loop keccak cfg l2 l1Blocks parent batches remaining
      | Some BatchAccept \<Rightarrow> Some (Inr (Some (bw_Batch batch)), remaining @ batches)
      | Some BatchUndecided \<Rightarrow> Some (Inl StEOF, remaining @ batch # batches)
      | Some BatchPast \<Rightarrow> Some (Inl StCritical, remaining))"

definition deriveNextBatch ::
  "(bytes \<Rightarrow> Hash) \<Rightarrow> Config \<Rightarrow> SafeBlockFetcher \<Rightarrow> bool \<Rightarrow> L2BlockRef \<Rightarrow> BatchQueue \<Rightarrow> ((StageErr + Batch) \<times> BatchQueue) option" where
  "deriveNextBatch keccak cfg l2 outOfData parent bq =
     (case bs_l1Blocks bq of
        [] \<Rightarrow> Some (Inl StCritical, bq)
      | epoch # _ \<Rightarrow>
          if l2_L1Origin parent \<noteq> L1BlockRef_ID epoch \<and> id_Number (l2_L1Origin parent) \<noteq> l1_Number epoch - 1
          then Some (Inl StReset, bq)
          else
            (case batch_loop keccak cfg l2 (bs_l1Blocks bq) parent (bq_batches bq) [] of
               None \<Rightarrow> None
             | Some (Inl StEOF, remaining) \<Rightarrow> Some (Inl StEOF, bq\<lparr>bq_batches := remaining\<rparr>)
             | Some (Inl e, _) \<Rightarrow> Some (Inl e, bq)
             | Some (Inr (Some batch), remaining) \<Rightarrow> Some (Inr batch, bq\<lparr>bq_batches := remaining\<rparr>)
             | Some (Inr None, remaining) \<Rightarrow>
                 (case deriveNextEmptyBatch cfg outOfData parent (bq\<lparr>bq_batches := remaining\<rparr>) of
                    None \<Rightarrow> None
                  | Some (Inl e, bq1) \<Rightarrow> Some (Inl e, bq1)
                  | Some (Inr b, bq1) \<Rightarrow> Some (Inr (Singular b), bq1))))"

text \<open>The conversion of a derived batch into the next singular batch.\<close>

definition next_of_batch ::
  "Batch \<Rightarrow> L2BlockRef \<Rightarrow> 'a baseBatchStage_scheme \<Rightarrow> ((StageErr + SingularBatch) \<times> 'a baseBatchStage_scheme) option" where
  "next_of_batch batch parent bs =
     (case batch of
        Singular singularBatch \<Rightarrow> Some (Inr singularBatch, bs)
      | Span spanBatch \<Rightarrow>
          (case GetSingularBatches spanBatch (bs_l1Blocks bs) parent of
             Inl e \<Rightarrow> Some (Inl StCritical, bs)
           | Inr singularBatches \<Rightarrow>
               (case popNextBatch parent (bs\<lparr>bs_nextSpan := singularBatches\<rparr>) of
                  None \<Rightarrow> None
                | Some (nextBatch, bs1) \<Rightarrow> Some (Inr nextBatch, bs1))))"

definition queue_derive ::
  "(bytes \<Rightarrow> Hash) \<Rightarrow> Config \<Rightarrow> SafeBlockFetcher \<Rightarrow> bool \<Rightarrow> L2BlockRef \<Rightarrow> BatchQueue \<Rightarrow>
   ((StageErr + SingularBatch \<times> bool) \<times> BatchQueue) option" where
  "queue_derive keccak cfg l2 outOfData parent bq =
     (case deriveNextBatch keccak cfg l2 outOfData parent bq of
        None \<Rightarrow> None
      | Some (Inl e, bq1) \<Rightarrow>
          Some (Inl (if e = StEOF \<and> outOfData then StEOF else if e = StEOF then StNotEnoughData else e), bq1)
      | Some (Inr batch, bq1) \<Rightarrow>
          (case next_of_batch batch parent bq1 of
             None \<Rightarrow> None
           | Some (Inl e, bq2) \<Rightarrow> Some (Inl e, bq2)
           | Some (Inr nextBatch, bq2) \<Rightarrow> Some (Inr (nextBatch, bs_nextSpan bq2 = []), bq2)))"

definition BatchQueue_NextBatch ::
  "(bytes \<Rightarrow> Hash) \<Rightarrow> Config \<Rightarrow> SafeBlockFetcher \<Rightarrow> L1BlockRef \<Rightarrow> StageErr + Batch \<Rightarrow> L2BlockRef \<Rightarrow> BatchQueue \<Rightarrow>
   ((StageErr + SingularBatch \<times> bool) \<times> BatchQueue) option" where
  "BatchQueue_NextBatch keccak cfg l2 prevOrigin prevBatch parent bq0 =
     (case nextFromSpanBatch cfg parent bq0 of
        None \<Rightarrow> None
      | Some (Some (batch, last_of_span), bq1) \<Rightarrow> Some (Inr (batch, last_of_span), bq1)
      | Some (None, bq1) \<Rightarrow>
          (let bq2 = call_prev PrevNextBatch (updateOrigins prevOrigin parent bq1);
               behind = originBehind prevOrigin parent
           in case prevBatch of
                Inl e \<Rightarrow>
                  if e \<noteq> StEOF then Some (Inl e, bq2)
                  else if behind then Some (Inl StEOF, bq2)
                  else queue_derive keccak cfg l2 True parent bq2
              | Inr batch \<Rightarrow>
                  if behind then Some (Inl StNotEnoughData, bq2)
                  else
                    (case AddBatch keccak cfg l2 batch parent bq2 of
                       None \<Rightarrow> None
                     | Some bq3 \<Rightarrow> queue_derive keccak cfg l2 False parent bq3)))"

section \<open>The batch stage from Holocene on (batch_stage.go)\<close>

type_synonym BatchStage = "baseBatchStage"

definition NewBatchStage :: BatchStage where
  "NewBatchStage = \<lparr>bs_origin = zero_l1ref, bs_l1Blocks = [], bs_nextSpan = [], bs_calls = []\<rparr>"

definition BatchStage_Reset :: "L1BlockRef \<Rightarrow> BatchStage \<Rightarrow> StageErr \<times> BatchStage" where
  "BatchStage_Reset base bs = (StEOF, base_reset base bs)"

definition BatchStage_FlushChannel :: "BatchStage \<Rightarrow> BatchStage" where
  "BatchStage_FlushChannel bs = call_prev PrevFlushChannel (bs\<lparr>bs_nextSpan := []\<rparr>)"

definition nextSingularBatchCandidate ::
  "Config \<Rightarrow> SafeBlockFetcher \<Rightarrow> StageErr + Batch \<Rightarrow> L2BlockRef \<Rightarrow> BatchStage \<Rightarrow> ((StageErr + SingularBatch) \<times> BatchStage) option" where
  "nextSingularBatchCandidate cfg l2 prevBatch parent bs =
     (case nextFromSpanBatch cfg parent bs of
        None \<Rightarrow> None
      | Some (Some (nextBatch, _), bs1) \<Rightarrow> Some (Inr nextBatch, bs1)
      | Some (None, bs1) \<Rightarrow>
          (let bs2 = call_prev PrevNextBatch bs1 in
           case prevBatch of
             Inl e \<Rightarrow> Some (Inl e, bs2)
           | Inr (Singular singularBatch) \<Rightarrow> Some (Inr singularBatch, bs2)
           | Inr (Span spanBatch) \<Rightarrow>
               (case checkSpanBatchPrefix cfg (bs_l1Blocks bs2) parent spanBatch (bs_origin bs2) l2 of
                  None \<Rightarrow> None
                | Some (BatchAccept, _) \<Rightarrow> next_of_batch (Span spanBatch) parent bs2
                | Some (BatchPast, _) \<Rightarrow> Some (Inl StNotEnoughData, bs2)
                | Some (BatchDrop, _) \<Rightarrow> Some (Inl StNotEnoughData, BatchStage_FlushChannel bs2)
                | Some (BatchUndecided, _) \<Rightarrow> Some (Inl StNotEnoughData, bs2)
                | Some (BatchFuture, _) \<Rightarrow> Some (Inl StCritical, bs2))))"

definition BatchStage_NextBatch ::
  "Config \<Rightarrow> SafeBlockFetcher \<Rightarrow> L1BlockRef \<Rightarrow> StageErr + Batch \<Rightarrow> L2BlockRef \<Rightarrow> BatchStage \<Rightarrow>
   ((StageErr + SingularBatch \<times> bool) \<times> BatchStage) option" where
  "BatchStage_NextBatch cfg l2 prevOrigin prevBatch parent bs0 =
     (let bs = updateOrigins prevOrigin parent bs0 in
      if originBehind prevOrigin parent \<or> id_Number (l2_L1Origin parent) = l1_Number (bs_origin bs) then
        (case prevBatch of
           Inl e \<Rightarrow> Some (Inl e, call_prev PrevNextBatch bs)
         | Inr _ \<Rightarrow> Some (Inl StNotEnoughData, call_prev PrevNextBatch bs))
      else
        (case bs_l1Blocks bs of
           epoch # _ # _ \<Rightarrow>
             if l2_L1Origin parent \<noteq> L1BlockRef_ID epoch \<and> id_Number (l2_L1Origin parent) \<noteq> l1_Number epoch - 1
             then Some (Inl StReset, bs)
             else
               (case nextSingularBatchCandidate cfg l2 prevBatch parent bs of
                  None \<Rightarrow> None
                | Some (Inl e, bs1) \<Rightarrow>
                    if e = StEOF then
                      (case deriveNextEmptyBatch cfg True parent bs1 of
                         None \<Rightarrow> None
                       | Some (Inl e, bs2) \<Rightarrow> Some (Inl e, bs2)
                       | Some (Inr emptyBatch, bs2) \<Rightarrow> Some (Inr (emptyBatch, True), bs2))
                    else Some (Inl e, bs1)
                | Some (Inr batch, bs1) \<Rightarrow>
                    (case checkSingularBatch cfg (bs_l1Blocks bs1) parent batch (bs_origin bs1) of
                       BatchAccept \<Rightarrow> Some (Inr (batch, True), bs1)
                     | BatchPast \<Rightarrow> Some (Inl StNotEnoughData, bs1)
                     | BatchDrop \<Rightarrow> Some (Inl StNotEnoughData, BatchStage_FlushChannel bs1)
                     | BatchUndecided \<Rightarrow> Some (Inl StNotEnoughData, bs1)
                     | BatchFuture \<Rightarrow> Some (Inl StCritical, bs1)))
         | _ \<Rightarrow> Some (Inl StCritical, bs)))"

section \<open>The multiplexer (batch_mux.go)\<close>

datatype BatchMux = MuxNone | MuxQueue BatchQueue | MuxStage BatchStage

definition BatchMux_Reset :: "Config \<Rightarrow> L1BlockRef \<Rightarrow> BatchMux \<Rightarrow> StageErr \<times> BatchMux" where
  "BatchMux_Reset cfg base b =
     (if IsHolocene cfg (l1_Time base) then
        (case BatchStage_Reset base (case b of MuxStage bs \<Rightarrow> bs | _ \<Rightarrow> NewBatchStage) of (e, bs) \<Rightarrow> (e, MuxStage bs))
      else
        (case BatchQueue_Reset base (case b of MuxQueue bq \<Rightarrow> bq | _ \<Rightarrow> NewBatchQueue) of (e, bq) \<Rightarrow> (e, MuxQueue bq)))"

definition TransformHolocene :: "BatchMux \<Rightarrow> BatchMux option" where
  "TransformHolocene b =
     (case b of
        MuxQueue bp \<Rightarrow> Some (MuxStage (NewBatchStage\<lparr>bs_l1Blocks := bs_l1Blocks bp, bs_origin := bs_origin bp\<rparr>))
      | _ \<Rightarrow> None)"

definition BatchMux_Transform :: "ForkName \<Rightarrow> BatchMux \<Rightarrow> BatchMux option" where
  "BatchMux_Transform f b = (if f = Holocene then TransformHolocene b else Some b)"

text \<open>The calls that the embedded stage answers; without a stage they panic, as does flushing a batch queue.\<close>

definition BatchMux_NextBatch ::
  "(bytes \<Rightarrow> Hash) \<Rightarrow> Config \<Rightarrow> SafeBlockFetcher \<Rightarrow> L1BlockRef \<Rightarrow> StageErr + Batch \<Rightarrow> L2BlockRef \<Rightarrow> BatchMux \<Rightarrow>
   ((StageErr + SingularBatch \<times> bool) \<times> BatchMux) option" where
  "BatchMux_NextBatch keccak cfg l2 prevOrigin prevBatch parent b =
     (case b of
        MuxNone \<Rightarrow> None
      | MuxQueue bq \<Rightarrow>
          map_option (\<lambda>(r, bq'). (r, MuxQueue bq')) (BatchQueue_NextBatch keccak cfg l2 prevOrigin prevBatch parent bq)
      | MuxStage bs \<Rightarrow>
          map_option (\<lambda>(r, bs'). (r, MuxStage bs')) (BatchStage_NextBatch cfg l2 prevOrigin prevBatch parent bs))"

definition BatchMux_FlushChannel :: "BatchMux \<Rightarrow> BatchMux option" where
  "BatchMux_FlushChannel b = (case b of MuxStage bs \<Rightarrow> Some (MuxStage (BatchStage_FlushChannel bs)) | _ \<Rightarrow> None)"

end
