(* ===== verification/Batch_Props.thy ===== *)
theory Batch_Props
  imports Batch_Queue L1_Info_Props
begin

text \<open>
  What the batch stages guarantee: which singular batches are accepted, that every batch they return extends its parent,
  that the buffered L1 blocks are consecutive, that they do not panic, and that an expired sequencing window forces a batch.
\<close>

section \<open>Singular batches\<close>

lemma check_txs_iff: "check_txs txs \<longleftrightarrow> (\<forall>tx \<in> set txs. tx \<noteq> [] \<and> hd tx \<noteq> DepositTxType)"
  by (induction txs) auto

definition batch_origin :: "L1BlockRef list \<Rightarrow> SingularBatch \<Rightarrow> L1BlockRef \<Rightarrow> bool" where
  "batch_origin l1Blocks b orig \<longleftrightarrow>
     (\<exists>epoch rest. l1Blocks = epoch # rest \<and> sb_EpochNum b \<ge> l1_Number epoch \<and>
       (sb_EpochNum b = l1_Number epoch \<and> orig = epoch \<or>
        sb_EpochNum b = l1_Number epoch + 1 \<and> (\<exists>tl_blocks. rest = orig # tl_blocks)))"

definition drift_ok :: "Config \<Rightarrow> L1BlockRef list \<Rightarrow> SingularBatch \<Rightarrow> L1BlockRef \<Rightarrow> bool" where
  "drift_ok cfg l1Blocks b orig \<longleftrightarrow>
     sb_Timestamp b \<le> l1_Time orig + MaxSequencerDrift cfg (l1_Time orig) \<or>
     sb_Transactions b = [] \<and>
       (l1_Number (hd l1Blocks) = l1_Number orig \<longrightarrow> (\<exists>epoch n tl_blocks. l1Blocks = epoch # n # tl_blocks \<and> sb_Timestamp b < l1_Time n))"

definition singular_ok :: "Config \<Rightarrow> L1BlockRef list \<Rightarrow> L2BlockRef \<Rightarrow> SingularBatch \<Rightarrow> L1BlockRef \<Rightarrow> bool" where
  "singular_ok cfg l1Blocks parent b incl \<longleftrightarrow>
     sb_Timestamp b = l2_Time parent + BlockTime cfg \<and> sb_ParentHash b = l2_Hash parent \<and>
     \<not> sb_EpochNum b + SeqWindowSize cfg < l1_Number incl \<and>
     (\<exists>orig. batch_origin l1Blocks b orig \<and> sb_EpochHash b = l1_Hash orig \<and> l1_Time orig \<le> sb_Timestamp b \<and>
        drift_ok cfg l1Blocks b orig) \<and>
     (\<forall>tx \<in> set (sb_Transactions b). tx \<noteq> [] \<and> hd tx \<noteq> DepositTxType)"

lemma word_plus_one_neq: "(w :: u64) + 1 \<noteq> w"
  by simp

lemma if_reject: "v \<noteq> BatchAccept \<Longrightarrow> (if c then v else r) = BatchAccept \<longleftrightarrow> \<not> c \<and> r = BatchAccept"
  by simp

lemma drift_reject:
  "(case (if c then if e then if n then (case tl_blocks of [] \<Rightarrow> Some BatchUndecided | x # _ \<Rightarrow> if P x then Some BatchDrop else None)
            else None else Some BatchDrop else None) of Some v \<Rightarrow> v | None \<Rightarrow> if t then BatchAccept else BatchDrop) = BatchAccept \<longleftrightarrow>
   (\<not> c \<or> e \<and> (n \<longrightarrow> (\<exists>x xs. tl_blocks = x # xs \<and> \<not> P x))) \<and> t"
  by (cases tl_blocks) auto

lemma origin_reject:
  "(case (if a then Inl BatchDrop else if b then Inr x else if c then (case tl_blocks of [] \<Rightarrow> Inl BatchUndecided | y # _ \<Rightarrow> Inr y)
           else Inl BatchDrop) of Inl v \<Rightarrow> v | Inr y \<Rightarrow> R y) = BatchAccept \<longleftrightarrow>
   (\<exists>y. \<not> a \<and> (b \<and> y = x \<or> \<not> b \<and> c \<and> (\<exists>ys. tl_blocks = y # ys)) \<and> R y = BatchAccept)"
  by (cases tl_blocks) auto

lemma checkSingularBatch_accept_iff:
  "checkSingularBatch cfg l1Blocks parent b incl = BatchAccept \<longleftrightarrow> singular_ok cfg l1Blocks parent b incl"
proof (cases l1Blocks)
  case Nil
  then show ?thesis by (simp add: checkSingularBatch_def singular_ok_def batch_origin_def)
next
  case (Cons epoch rest)
  let ?R = "\<lambda>orig. sb_EpochHash b = l1_Hash orig \<and> \<not> sb_Timestamp b < l1_Time orig \<and>
    (\<not> sb_Timestamp b > l1_Time orig + MaxSequencerDrift cfg (l1_Time orig) \<or> sb_Transactions b = [] \<and>
      (l1_Number epoch = l1_Number orig \<longrightarrow> (\<exists>x xs. rest = x # xs \<and> \<not> sb_Timestamp b \<ge> l1_Time x))) \<and> check_txs (sb_Transactions b)"
  have "checkSingularBatch cfg l1Blocks parent b incl = BatchAccept \<longleftrightarrow>
      \<not> sb_Timestamp b > l2_Time parent + BlockTime cfg \<and> \<not> sb_Timestamp b < l2_Time parent + BlockTime cfg \<and>
      \<not> sb_ParentHash b \<noteq> l2_Hash parent \<and> \<not> sb_EpochNum b + SeqWindowSize cfg < l1_Number incl \<and>
      (\<exists>orig. \<not> sb_EpochNum b < l1_Number epoch \<and> (sb_EpochNum b = l1_Number epoch \<and> orig = epoch \<or>
         sb_EpochNum b \<noteq> l1_Number epoch \<and> sb_EpochNum b = l1_Number epoch + 1 \<and> (\<exists>xs. rest = orig # xs)) \<and> ?R orig)"
    unfolding checkSingularBatch_def Let_def Cons list.case
    by (subst if_reject, simp, subst if_reject, simp, subst if_reject, simp, subst if_reject, simp, subst origin_reject)
       (simp only: if_reject drift_reject not_not BatchValidity.distinct simp_thms)
  also have "\<dots> \<longleftrightarrow> singular_ok cfg l1Blocks parent b incl"
    unfolding singular_ok_def batch_origin_def drift_ok_def Cons check_txs_iff [symmetric]
    by (auto simp: not_less not_le)
  finally show ?thesis .
qed

section \<open>Span batches\<close>

lemma if_reject2:
  "v \<noteq> BatchAccept \<Longrightarrow> (if c then Some (v, x) else r) = Some (BatchAccept, p) \<longleftrightarrow> \<not> c \<and> r = Some (BatchAccept, p)"
  by auto

lemma if_total: "(if c then Some v else r) \<noteq> None \<longleftrightarrow> c \<or> r \<noteq> None"
  by simp

lemma span_last: "sp_Batches b \<noteq> [] \<Longrightarrow> span_elem b (GetBlockCount b - 1) = Some (last (sp_Batches b))"
  by (simp add: span_elem_def GetBlockCount_def last_conv_nth)

lemma span_hd: "sp_Batches b \<noteq> [] \<Longrightarrow> span_elem b 0 = Some (hd (sp_Batches b))"
  by (simp add: span_elem_def hd_conv_nth)

lemmas span_access = GetStartEpochNum_def GetTimestamp_def GetBlockTimestamp_def GetBlockEpochNum_def

definition span_parent :: "Config \<Rightarrow> L2BlockRef \<Rightarrow> u64 \<Rightarrow> SafeBlockFetcher \<Rightarrow> (BatchValidity + L2BlockRef) option" where
  "span_parent cfg head ts l2 =
     (if ts < l2_Time head + BlockTime cfg then
        if ts > l2_Time head then Some (Inl BatchDrop)
        else if BlockTime cfg = 0 then None
        else if (l2_Time head - ts) mod BlockTime cfg \<noteq> 0 then Some (Inl BatchDrop)
        else (case L2BlockRefByNumber l2 (l2_Number head - (l2_Time head - ts) div BlockTime cfg - 1) of
                None \<Rightarrow> Some (Inl BatchUndecided) | Some ref \<Rightarrow> Some (Inr ref))
      else Some (Inr head))"

lemma span_parent_no_accept: "span_parent cfg head ts l2 \<noteq> Some (Inl BatchAccept)"
  by (simp add: span_parent_def split: option.splits)

lemma span_parent_total: "BlockTime cfg \<noteq> 0 \<Longrightarrow> span_parent cfg head ts l2 \<noteq> None"
  by (simp add: span_parent_def split: option.splits)

text \<open>The decision once the L1 origin of the first block is known, and its part after the parent block.\<close>

definition span_tail :: "Config \<Rightarrow> L1BlockRef list \<Rightarrow> SpanBatch \<Rightarrow> L1BlockRef \<Rightarrow> L2BlockRef \<Rightarrow> (BatchValidity \<times> L2BlockRef) option" where
  "span_tail cfg l1Blocks b incl parentBlock =
     (if \<not> CheckParentHash b (l2_Hash parentBlock) then Some (BatchDrop, parentBlock)
      else if se_EpochNum (hd (sp_Batches b)) + SeqWindowSize cfg < l1_Number incl then Some (BatchDrop, parentBlock)
      else if se_EpochNum (hd (sp_Batches b)) > id_Number (l2_L1Origin parentBlock) + 1 then Some (BatchDrop, parentBlock)
      else (case check_end_origin b (se_EpochNum (last (sp_Batches b))) l1Blocks of
              BatchAccept \<Rightarrow> if se_EpochNum (hd (sp_Batches b)) < id_Number (l2_L1Origin parentBlock)
                then Some (BatchDrop, parentBlock) else Some (BatchAccept, parentBlock)
            | v \<Rightarrow> Some (v, parentBlock)))"

definition span_decide ::
  "Config \<Rightarrow> L1BlockRef list \<Rightarrow> L2BlockRef \<Rightarrow> SpanBatch \<Rightarrow> L1BlockRef \<Rightarrow> SafeBlockFetcher \<Rightarrow> L1BlockRef \<Rightarrow> (BatchValidity \<times> L2BlockRef) option" where
  "span_decide cfg l1Blocks head b incl l2 orig =
     (if \<not> IsDelta cfg (l1_Time orig) then Some (BatchDrop, zero_l2ref)
      else if se_Timestamp (hd (sp_Batches b)) > l2_Time head + BlockTime cfg then
        Some (if IsHolocene cfg (l1_Time incl) then BatchDrop else BatchFuture, zero_l2ref)
      else if se_Timestamp (last (sp_Batches b)) < l2_Time head + BlockTime cfg then
        Some (if IsHolocene cfg (l1_Time incl) then BatchPast else BatchDrop, zero_l2ref)
      else case span_parent cfg head (se_Timestamp (hd (sp_Batches b))) l2 of
             None \<Rightarrow> None
           | Some (Inl v) \<Rightarrow> Some (v, zero_l2ref)
           | Some (Inr parentBlock) \<Rightarrow> span_tail cfg l1Blocks b incl parentBlock)"

lemma prefix_empty: "checkSpanBatchPrefix cfg [] head b incl l2 = Some (BatchUndecided, zero_l2ref)"
  by (simp add: checkSpanBatchPrefix_def)

lemma prefix_decide:
  assumes ne: "sp_Batches b \<noteq> []"
  shows "checkSpanBatchPrefix cfg (epoch # rest) head b incl l2 =
     (case (if se_EpochNum (hd (sp_Batches b)) = l1_Number epoch + 1
            then (case rest of [] \<Rightarrow> None | nextOrigin # _ \<Rightarrow> Some nextOrigin) else Some epoch) of
        None \<Rightarrow> Some (BatchUndecided, zero_l2ref)
      | Some orig \<Rightarrow> span_decide cfg (epoch # rest) head b incl l2 orig)"
  by (simp only: checkSpanBatchPrefix_def span_access span_hd [OF ne] span_last [OF ne] Let_def span_decide_def span_tail_def
      span_parent_def option.map option.case prod.case list.case)

lemma prefix_total:
  assumes "sp_Batches b \<noteq> []" "BlockTime cfg \<noteq> 0"
  shows "checkSpanBatchPrefix cfg l1Blocks head b incl l2 \<noteq> None"
proof -
  have "span_tail cfg l1Blocks b incl p \<noteq> None" for p by (simp add: span_tail_def split: BatchValidity.splits)
  then have "span_decide cfg l1Blocks head b incl l2 orig \<noteq> None" for orig
    using span_parent_total [OF assms(2), of head "se_Timestamp (hd (sp_Batches b))" l2]
    by (auto simp: span_decide_def split: option.splits sum.splits)
  then show ?thesis
    by (cases l1Blocks) (auto simp: prefix_empty prefix_decide [OF assms(1)] split: option.splits)
qed

lemma prefix_accept:
  assumes "checkSpanBatchPrefix cfg l1Blocks head b incl l2 = Some (BatchAccept, parent)"
  shows "sp_Batches b \<noteq> []" "se_Timestamp (hd (sp_Batches b)) \<le> l2_Time head + BlockTime cfg"
    "l2_Time head + BlockTime cfg \<le> se_Timestamp (last (sp_Batches b))"
    "span_parent cfg head (se_Timestamp (hd (sp_Batches b))) l2 = Some (Inr parent)"
    "CheckParentHash b (l2_Hash parent)" "check_end_origin b (se_EpochNum (last (sp_Batches b))) l1Blocks = BatchAccept"
    "id_Number (l2_L1Origin parent) \<le> se_EpochNum (hd (sp_Batches b))"
    "se_EpochNum (hd (sp_Batches b)) \<le> id_Number (l2_L1Origin parent) + 1"
proof -
  obtain epoch rest where l: "l1Blocks = epoch # rest" using assms by (cases l1Blocks) (simp_all add: prefix_empty)
  show ne: "sp_Batches b \<noteq> []" using assms l by (auto simp: checkSpanBatchPrefix_def span_access span_elem_def)
  obtain orig where d: "span_decide cfg l1Blocks head b incl l2 orig = Some (BatchAccept, parent)"
    using assms unfolding l prefix_decide [OF ne] by (auto split: option.splits)
  then show "se_Timestamp (hd (sp_Batches b)) \<le> l2_Time head + BlockTime cfg"
    "l2_Time head + BlockTime cfg \<le> se_Timestamp (last (sp_Batches b))"
    by (auto simp: span_decide_def not_less split: if_splits)
  have p: "span_parent cfg head (se_Timestamp (hd (sp_Batches b))) l2 = Some (Inr parent) \<and>
      span_tail cfg l1Blocks b incl parent = Some (BatchAccept, parent)"
    using d span_parent_no_accept [of cfg head "se_Timestamp (hd (sp_Batches b))" l2]
    by (auto simp: span_decide_def span_tail_def split: if_splits option.splits sum.splits BatchValidity.splits)
  then show "span_parent cfg head (se_Timestamp (hd (sp_Batches b))) l2 = Some (Inr parent)" ..
  show "CheckParentHash b (l2_Hash parent)" "check_end_origin b (se_EpochNum (last (sp_Batches b))) l1Blocks = BatchAccept"
    "id_Number (l2_L1Origin parent) \<le> se_EpochNum (hd (sp_Batches b))"
    "se_EpochNum (hd (sp_Batches b)) \<le> id_Number (l2_L1Origin parent) + 1"
    using p by (auto simp: span_tail_def not_less split: if_splits BatchValidity.splits)
qed

lemma get_singular_nonempty:
  assumes "get_singular l1Origins head i bs = Inr xs" "\<exists>e \<in> set bs. se_Timestamp e > l2_Time head"
  shows "xs \<noteq> []"
  using assms by (induction bs arbitrary: i) (auto simp: result_simps not_le split: if_splits option.splits)

lemma accepted_span_pops:
  assumes "checkSpanBatchPrefix cfg l1Blocks head b incl l2 = Some (BatchAccept, parent)" "l2_Time head < l2_Time head + BlockTime cfg"
    and "GetSingularBatches b l1Blocks' head = Inr xs"
  shows "xs \<noteq> []"
proof -
  have "se_Timestamp (last (sp_Batches b)) > l2_Time head" using prefix_accept(3) [OF assms(1)] assms(2) by (rule less_le_trans [rotated])
  then have "\<exists>e \<in> set (sp_Batches b). se_Timestamp e > l2_Time head" using prefix_accept(1) [OF assms(1)] last_in_set by blast
  then show ?thesis using get_singular_nonempty assms(3) by (auto simp: GetSingularBatches_def)
qed


section \<open>Which fields the operations change\<close>

lemma call_prev_fields [simp]:
  "bs_origin (call_prev c bs) = bs_origin bs" "bs_l1Blocks (call_prev c bs) = bs_l1Blocks bs"
  "bs_nextSpan (call_prev c bs) = bs_nextSpan bs"
  by (simp_all add: call_prev_def)

lemma flush_fields [simp]:
  "bs_origin (BatchStage_FlushChannel bs) = bs_origin bs" "bs_l1Blocks (BatchStage_FlushChannel bs) = bs_l1Blocks bs"
  by (simp_all add: BatchStage_FlushChannel_def call_prev_def)

lemma popNextBatch_cases:
  obtains (empty) "bs_nextSpan bs = []" "popNextBatch parent bs = None"
  | (pop) b rest where "bs_nextSpan bs = b # rest"
      "popNextBatch parent bs = Some (b\<lparr>sb_ParentHash := l2_Hash parent\<rparr>, bs\<lparr>bs_nextSpan := rest\<rparr>)"
  by (cases "bs_nextSpan bs") (auto simp: popNextBatch_def)

lemma nextFromSpanBatch_cases:
  obtains (none) bs' where "nextFromSpanBatch cfg parent bs = Some (None, bs')" "bs_origin bs' = bs_origin bs"
      "bs_l1Blocks bs' = bs_l1Blocks bs" "bs_nextSpan bs' = []"
  | (pop) b rest where "nextFromSpanBatch cfg parent bs =
      Some (Some (b\<lparr>sb_ParentHash := l2_Hash parent\<rparr>, rest = []), bs\<lparr>bs_nextSpan := rest\<rparr>)" "bs_nextSpan bs = b # rest"
      "sb_Timestamp b = l2_Time parent + BlockTime cfg"
proof (cases "bs_nextSpan bs")
  case Nil
  then show ?thesis using none by (simp add: nextFromSpanBatch_def)
next
  case (Cons b rest)
  then show ?thesis
    by (cases "sb_Timestamp b = l2_Time parent + BlockTime cfg")
       (use none pop in \<open>simp_all add: nextFromSpanBatch_def popNextBatch_def\<close>)
qed

lemma deriveNextEmptyBatch_cases:
  assumes "bs_l1Blocks bs = epoch # rest"
  obtains (wait) "deriveNextEmptyBatch cfg outOfData parent bs = Some (Inl StEOF, bs)"
  | (batch) "deriveNextEmptyBatch cfg outOfData parent bs = Some (Inr \<lparr>sb_ParentHash = l2_Hash parent, sb_EpochNum = l1_Number epoch,
        sb_EpochHash = l1_Hash epoch, sb_Timestamp = l2_Time parent + BlockTime cfg, sb_Transactions = []\<rparr>, bs)"
      "l1_Number epoch + SeqWindowSize cfg \<le> l1_Number (bs_origin bs)"
  | (advance) n xs where "rest = n # xs" "deriveNextEmptyBatch cfg outOfData parent bs = Some (Inl StEOF, bs\<lparr>bs_l1Blocks := n # xs\<rparr>)"
      "l1_Number epoch + SeqWindowSize cfg \<le> l1_Number (bs_origin bs)" "l1_Time n \<le> l2_Time parent + BlockTime cfg"
proof -
  let ?e = "l1_Number epoch + SeqWindowSize cfg" and ?o = "l1_Number (bs_origin bs)"
  consider "\<not> (?e = ?o \<and> outOfData \<or> ?e < ?o)" | "?e = ?o \<and> outOfData \<or> ?e < ?o" "rest = []"
    | n xs where "?e = ?o \<and> outOfData \<or> ?e < ?o" "rest = n # xs"
    by (cases rest) auto
  then show ?thesis
  proof cases
    case 1
    then show ?thesis using wait assms by (simp add: deriveNextEmptyBatch_def Let_def)
  next
    case 2
    then show ?thesis using wait assms by (simp add: deriveNextEmptyBatch_def Let_def)
  next
    case (3 n xs)
    then have le: "?e \<le> ?o" by auto
    show ?thesis
    proof (cases "l2_Time parent + BlockTime cfg < l1_Time n \<or> l1_Number epoch = id_Number (l2_L1Origin parent) + 1")
      case True
      show ?thesis
        by (rule batch [OF _ le]) (simp only: deriveNextEmptyBatch_def assms Let_def list.case 3 True if_True simp_thms if_False)
    next
      case False
      then have "l1_Time n \<le> l2_Time parent + BlockTime cfg" by (simp add: not_less)
      from 3(2) _ le this show ?thesis
        by (rule advance) (simp only: deriveNextEmptyBatch_def assms Let_def list.case 3 False if_True simp_thms if_False)
    qed
  qed
qed

lemma next_of_batch_fields:
  "next_of_batch batch parent bs = Some (r, bs') \<Longrightarrow> bs_origin bs' = bs_origin bs \<and> bs_l1Blocks bs' = bs_l1Blocks bs"
  by (auto simp: next_of_batch_def popNextBatch_def split: Batch.splits sum.splits list.splits)

section \<open>The batch stage\<close>

lemma candidate_fields:
  "nextSingularBatchCandidate cfg l2 prevBatch parent bs = Some (r, bs') \<Longrightarrow>
   bs_origin bs' = bs_origin bs \<and> bs_l1Blocks bs' = bs_l1Blocks bs"
proof (cases rule: nextFromSpanBatch_cases [of cfg parent bs])
  case (none bs1)
  assume a: "nextSingularBatchCandidate cfg l2 prevBatch parent bs = Some (r, bs')"
  show ?thesis
  proof (cases prevBatch)
    case (Inr b)
    then show ?thesis using a none
      by (cases b) (auto simp: nextSingularBatchCandidate_def Let_def dest!: next_of_batch_fields
          split: option.splits prod.splits BatchValidity.splits)
  qed (use a none in \<open>auto simp: nextSingularBatchCandidate_def Let_def\<close>)
qed (auto simp: nextSingularBatchCandidate_def)

lemma candidate_total:
  assumes "\<And>s. prevBatch = Inr (Span s) \<Longrightarrow> sp_Batches s \<noteq> []" "BlockTime cfg \<noteq> 0"
    and "l2_Time parent < l2_Time parent + BlockTime cfg"
  shows "nextSingularBatchCandidate cfg l2 prevBatch parent bs \<noteq> None"
proof (cases rule: nextFromSpanBatch_cases [of cfg parent bs])
  case (none bs1)
  show ?thesis
  proof (cases "\<exists>s. prevBatch = Inr (Span s)")
    case True
    then obtain s where s: "prevBatch = Inr (Span s)" by blast
    let ?bs = "call_prev PrevNextBatch bs1"
    obtain v p where v: "checkSpanBatchPrefix cfg (bs_l1Blocks ?bs) parent s (bs_origin ?bs) l2 = Some (v, p)"
      using prefix_total [OF assms(1) [OF s] assms(2)] by fastforce
    have "next_of_batch (Span s) parent ?bs \<noteq> None" if "v = BatchAccept"
      using accepted_span_pops [OF v [unfolded that] assms(3)]
      by (auto simp: next_of_batch_def popNextBatch_def split: sum.splits list.splits)
    then show ?thesis using none s v by (cases v) (auto simp: nextSingularBatchCandidate_def Let_def)
  next
    case False
    then show ?thesis using none
      by (cases prevBatch) (auto simp: nextSingularBatchCandidate_def Let_def split: Batch.splits)
  qed
next
  case pop
  then show ?thesis by (simp add: nextSingularBatchCandidate_def)
qed


section \<open>The buffered L1 blocks\<close>

definition l1_child :: "L1BlockRef \<Rightarrow> L1BlockRef \<Rightarrow> bool" where
  "l1_child b c \<longleftrightarrow> l1_Number c = l1_Number b + 1 \<and> l1_ParentHash c = l1_Hash b"

definition linked :: "L1BlockRef list \<Rightarrow> bool" where
  "linked = successively l1_child"

definition buffer_ok :: "'a baseBatchStage_scheme \<Rightarrow> bool" where
  "buffer_ok bs \<longleftrightarrow> linked (bs_l1Blocks bs) \<and> (bs_l1Blocks bs \<noteq> [] \<longrightarrow> last (bs_l1Blocks bs) = bs_origin bs)"

text \<open>The previous stage traverses L1 block by block: between resets its origin stays or moves on to a child.\<close>

definition origin_follows :: "L1BlockRef \<Rightarrow> L1BlockRef \<Rightarrow> bool" where
  "origin_follows b c \<longleftrightarrow> c = b \<or> l1_child b c"

lemma linked_drop: "linked xs \<Longrightarrow> linked (drop i xs)"
  unfolding linked_def by (metis append_take_drop_id successively_append_iff)

lemma linked_number:
  assumes "linked xs" "i < length xs"
  shows "l1_Number (xs ! i) = l1_Number (hd xs) + of_nat i"
  using assms
proof (induction xs arbitrary: i)
  case (Cons x xs)
  show ?case
  proof (cases i)
    case (Suc j)
    then obtain y ys where "xs = y # ys" using Cons.prems by (cases xs) auto
    then show ?thesis using Cons Suc by (auto simp: linked_def l1_child_def algebra_simps)
  qed simp
qed simp

lemma buffer_ok_fields:
  "bs_origin bs' = bs_origin bs \<Longrightarrow> bs_l1Blocks bs' = bs_l1Blocks bs \<Longrightarrow> buffer_ok bs' \<longleftrightarrow> buffer_ok bs"
  by (simp add: buffer_ok_def)

lemma buffer_ok_reset: "buffer_ok (base_reset base bs)"
  by (simp add: buffer_ok_def base_reset_def linked_def)

lemma find_origin_bound: "find_origin j xs n = Some i \<Longrightarrow> j \<le> i \<and> i < j + length xs \<and> l1_Number (xs ! (i - j)) = n"
proof (induction xs arbitrary: j)
  case (Cons x xs)
  show ?case
  proof (cases "l1_Number x = n")
    case False
    then have "find_origin (Suc j) xs n = Some i" using Cons.prems by simp
    from Cons.IH [OF this] have "Suc j \<le> i \<and> i < Suc j + length xs \<and> l1_Number (xs ! (i - Suc j)) = n" .
    then show ?thesis by (cases "i - j") (auto simp: Suc_diff_le diff_Suc split: nat.splits)
  qed (use Cons.prems in auto)
qed simp

lemma buffer_ok_advance_origin:
  assumes "buffer_ok bs" "origin_follows (bs_origin bs) o'"
  shows "buffer_ok (advance_origin o' parent bs)"
  using assms by (auto simp: buffer_ok_def advance_origin_def origin_follows_def linked_def successively_append_iff)

lemma advance_epoch_l1Blocks: "\<exists>i. bs_l1Blocks (advance_epoch parent bs) = drop i (bs_l1Blocks bs) \<and>
    (i < length (bs_l1Blocks bs) \<or> i = 0)"
proof (cases "find_origin 0 (bs_l1Blocks bs) (id_Number (l2_L1Origin parent))")
  case None
  then show ?thesis by (auto simp: advance_epoch_def intro: exI [of _ 0] split: list.splits)
next
  case (Some i)
  then show ?thesis using find_origin_bound [OF Some]
    by (auto simp: advance_epoch_def intro: exI [of _ 0] exI [of _ i] split: list.splits)
qed

lemma advance_epoch_origin [simp]: "bs_origin (advance_epoch parent bs) = bs_origin bs"
  by (auto simp: advance_epoch_def split: list.splits option.splits)

lemma buffer_ok_updateOrigins:
  assumes "buffer_ok bs" "origin_follows (bs_origin bs) o'"
  shows "buffer_ok (updateOrigins o' parent bs)"
proof -
  let ?bs = "advance_origin o' parent bs"
  obtain i where "bs_l1Blocks (advance_epoch parent ?bs) = drop i (bs_l1Blocks ?bs)" "i < length (bs_l1Blocks ?bs) \<or> i = 0"
    using advance_epoch_l1Blocks by blast
  then show ?thesis using buffer_ok_advance_origin [OF assms, of parent]
    by (auto simp: updateOrigins_def buffer_ok_def linked_drop)
qed

lemma updateOrigins_origin: "bs_origin (updateOrigins o' parent bs) = o'"
  by (simp add: updateOrigins_def advance_origin_def)

lemma buffer_ok_empty:
  assumes "deriveNextEmptyBatch cfg outOfData parent bs = Some (r, bs')" "buffer_ok bs"
  shows "buffer_ok bs'"
proof -
  obtain epoch rest where l: "bs_l1Blocks bs = epoch # rest"
    using assms(1) by (cases "bs_l1Blocks bs") (auto simp: deriveNextEmptyBatch_def)
  show ?thesis
    by (cases rule: deriveNextEmptyBatch_cases [OF l, of cfg outOfData parent])
       (use assms l in \<open>auto simp: buffer_ok_def linked_def\<close>)
qed

lemma stage_buffer_ok:
  assumes "BatchStage_NextBatch cfg l2 o' prevBatch parent bs = Some (r, bs')" "buffer_ok bs" "origin_follows (bs_origin bs) o'"
  shows "buffer_ok bs'"
proof -
  let ?bs = "updateOrigins o' parent bs"
  have ok: "buffer_ok ?bs" by (rule buffer_ok_updateOrigins [OF assms(2,3)])
  have c: "buffer_ok b" if "nextSingularBatchCandidate cfg l2 prevBatch parent ?bs = Some (x, b)" for x b
    using candidate_fields [OF that] ok by (simp add: buffer_ok_def)
  have keep: "buffer_ok (call_prev PrevNextBatch ?bs)" using ok by (simp add: buffer_ok_def)
  have f: "buffer_ok (BatchStage_FlushChannel b) \<longleftrightarrow> buffer_ok b" for b by (simp add: buffer_ok_def)
  show ?thesis
    using assms(1) ok c keep
    by (auto simp: BatchStage_NextBatch_def Let_def f dest: buffer_ok_empty
        split: if_splits sum.splits list.splits option.splits prod.splits BatchValidity.splits)
qed


lemma AddBatch_fields:
  "AddBatch keccak cfg l2 batch parent bq = Some bq' \<Longrightarrow> bs_origin bq' = bs_origin bq \<and> bs_l1Blocks bq' = bs_l1Blocks bq"
  by (auto simp: AddBatch_def Let_def split: if_splits option.splits)

lemma deriveNextBatch_buffer_ok:
  assumes "deriveNextBatch keccak cfg l2 outOfData parent bq = Some (r, bq')" "buffer_ok bq"
  shows "buffer_ok bq'"
proof -
  have u: "buffer_ok (bq\<lparr>bq_batches := x\<rparr>)" for x using assms(2) by (simp add: buffer_ok_def)
  show ?thesis
    using assms u unfolding deriveNextBatch_def
    by (fastforce dest: buffer_ok_empty split: list.splits if_splits option.splits prod.splits sum.splits StageErr.splits)
qed

lemma queue_derive_buffer_ok:
  assumes "queue_derive keccak cfg l2 outOfData parent bq = Some (r, bq')" "buffer_ok bq"
  shows "buffer_ok bq'"
proof -
  obtain x bq1 where d: "deriveNextBatch keccak cfg l2 outOfData parent bq = Some (x, bq1)"
    using assms(1) by (auto simp: queue_derive_def split: option.splits)
  have ok: "buffer_ok bq1" by (rule deriveNextBatch_buffer_ok [OF d assms(2)])
  show ?thesis
  proof (cases x)
    case (Inl e)
    then show ?thesis using assms(1) d ok by (auto simp: queue_derive_def)
  next
    case (Inr b)
    then obtain y bq2 where n: "next_of_batch b parent bq1 = Some (y, bq2)" using assms(1) d
      by (auto simp: queue_derive_def split: option.splits)
    have "bq' = bq2" using assms(1) d n Inr by (cases y) (auto simp: queue_derive_def)
    then show ?thesis using next_of_batch_fields [OF n] ok by (simp add: buffer_ok_def)
  qed
qed

lemma queue_buffer_ok:
  assumes "BatchQueue_NextBatch keccak cfg l2 o' prevBatch parent bq = Some (r, bq')" "buffer_ok bq" "origin_follows (bs_origin bq) o'"
  shows "buffer_ok bq'"
proof (cases rule: nextFromSpanBatch_cases [of cfg parent bq])
  case (none bq1)
  let ?bq = "call_prev PrevNextBatch (updateOrigins o' parent bq1)"
  have "buffer_ok bq1" using none assms(2) by (simp add: buffer_ok_def)
  moreover have "origin_follows (bs_origin bq1) o'" using none assms(3) by simp
  ultimately have "buffer_ok (updateOrigins o' parent bq1)" by (rule buffer_ok_updateOrigins)
  then have ok: "buffer_ok ?bq" by (simp add: buffer_ok_def)
  have add: "buffer_ok b" if "AddBatch keccak cfg l2 x parent ?bq = Some b" for x b
    using AddBatch_fields [OF that] ok by (simp add: buffer_ok_def)
  show ?thesis
    using assms(1) none(1) ok
    by (auto simp: BatchQueue_NextBatch_def Let_def dest!: queue_derive_buffer_ok dest: add split: sum.splits if_splits option.splits)
next
  case pop
  then show ?thesis using assms by (auto simp: BatchQueue_NextBatch_def buffer_ok_def)
qed


section \<open>Runs of the multiplexer\<close>

fun mux_buffer :: "BatchMux \<Rightarrow> L1BlockRef list" where
  "mux_buffer MuxNone = []"
| "mux_buffer (MuxQueue bq) = bs_l1Blocks bq"
| "mux_buffer (MuxStage bs) = bs_l1Blocks bs"

fun mux_origin :: "BatchMux \<Rightarrow> L1BlockRef" where
  "mux_origin MuxNone = zero_l1ref"
| "mux_origin (MuxQueue bq) = bs_origin bq"
| "mux_origin (MuxStage bs) = bs_origin bs"

inductive mux_step :: "(bytes \<Rightarrow> Hash) \<Rightarrow> Config \<Rightarrow> SafeBlockFetcher \<Rightarrow> BatchMux \<Rightarrow> BatchMux \<Rightarrow> bool"
  for keccak cfg l2 where
  mux_reset: "mux_step keccak cfg l2 b (snd (BatchMux_Reset cfg base b))"
| mux_transform: "BatchMux_Transform f b = Some b' \<Longrightarrow> mux_step keccak cfg l2 b b'"
| mux_flush: "BatchMux_FlushChannel b = Some b' \<Longrightarrow> mux_step keccak cfg l2 b b'"
| mux_next: "BatchMux_NextBatch keccak cfg l2 prevOrigin prevBatch parent b = Some (r, b') \<Longrightarrow>
    origin_follows (mux_origin b) prevOrigin \<Longrightarrow> mux_step keccak cfg l2 b b'"

inductive_cases mux_step_cases: "mux_step keccak cfg l2 b b'"

definition mux_ok :: "BatchMux \<Rightarrow> bool" where
  "mux_ok b \<longleftrightarrow> linked (mux_buffer b) \<and> (mux_buffer b \<noteq> [] \<longrightarrow> last (mux_buffer b) = mux_origin b)"

lemma mux_ok_simps [simp]: "mux_ok MuxNone" "mux_ok (MuxQueue bq) \<longleftrightarrow> buffer_ok bq" "mux_ok (MuxStage bs) \<longleftrightarrow> buffer_ok bs"
  by (simp_all add: mux_ok_def buffer_ok_def linked_def)

lemma mux_ok_reset: "mux_ok (snd (BatchMux_Reset cfg base b))"
  by (simp add: BatchMux_Reset_def BatchStage_Reset_def BatchQueue_Reset_def buffer_ok_def base_reset_def linked_def)

lemma mux_ok_transform: "BatchMux_Transform f b = Some b' \<Longrightarrow> mux_ok b \<Longrightarrow> mux_ok b'"
  by (cases b) (auto simp: BatchMux_Transform_def TransformHolocene_def buffer_ok_def split: if_splits)

lemma mux_ok_flush: "BatchMux_FlushChannel b = Some b' \<Longrightarrow> mux_ok b \<Longrightarrow> mux_ok b'"
  by (cases b) (auto simp: BatchMux_FlushChannel_def buffer_ok_def)

lemma mux_ok_next:
  assumes "BatchMux_NextBatch keccak cfg l2 o' prevBatch parent b = Some (r, b')" "origin_follows (mux_origin b) o'" "mux_ok b"
  shows "mux_ok b'"
  using assms by (cases b) (auto simp: BatchMux_NextBatch_def dest: queue_buffer_ok stage_buffer_ok)

lemma mux_ok_step: "mux_step keccak cfg l2 b b' \<Longrightarrow> mux_ok b \<Longrightarrow> mux_ok b'"
  by (erule mux_step_cases) (auto intro: mux_ok_reset mux_ok_transform mux_ok_flush mux_ok_next)

lemma mux_ok_reachable: "(mux_step keccak cfg l2)\<^sup>*\<^sup>* MuxNone b \<Longrightarrow> mux_ok b"
  by (induction rule: rtranclp_induct) (auto intro: mux_ok_step)


section \<open>What the batch stage returns\<close>

definition empty_batch :: "Config \<Rightarrow> L2BlockRef \<Rightarrow> L1BlockRef \<Rightarrow> SingularBatch" where
  "empty_batch cfg parent epoch = \<lparr>sb_ParentHash = l2_Hash parent, sb_EpochNum = l1_Number epoch, sb_EpochHash = l1_Hash epoch,
     sb_Timestamp = l2_Time parent + BlockTime cfg, sb_Transactions = []\<rparr>"

lemma stage_empty:
  assumes "deriveNextEmptyBatch cfg outOfData parent bs = Some (Inr b, bs')"
  obtains epoch rest where "bs_l1Blocks bs' = epoch # rest" "b = empty_batch cfg parent epoch"
    "l1_Number epoch + SeqWindowSize cfg \<le> l1_Number (bs_origin bs')"
proof -
  obtain epoch rest where l: "bs_l1Blocks bs = epoch # rest"
    using assms by (cases "bs_l1Blocks bs") (auto simp: deriveNextEmptyBatch_def)
  show ?thesis
    by (cases rule: deriveNextEmptyBatch_cases [OF l, of cfg outOfData parent])
       (use assms l that in \<open>auto simp: empty_batch_def\<close>)
qed

lemma stage_result_cases:
  assumes "BatchStage_NextBatch cfg l2 o' prevBatch parent bs = Some (Inr (b, isLast), bs')"
  obtains (checked) "isLast" "checkSingularBatch cfg (bs_l1Blocks bs') parent b (bs_origin bs') = BatchAccept"
  | (forced) epoch rest where "isLast" "bs_l1Blocks bs' = epoch # rest" "b = empty_batch cfg parent epoch"
      "l1_Number epoch + SeqWindowSize cfg \<le> l1_Number (bs_origin bs')"
  using assms
  by (auto simp: BatchStage_NextBatch_def Let_def elim!: stage_empty
      split: if_splits sum.splits list.splits option.splits prod.splits BatchValidity.splits)

lemma stage_total:
  assumes "\<And>s. prevBatch = Inr (Span s) \<Longrightarrow> sp_Batches s \<noteq> []" "BlockTime cfg \<noteq> 0" "l2_Time parent < l2_Time parent + BlockTime cfg"
  shows "BatchStage_NextBatch cfg l2 o' prevBatch parent bs \<noteq> None"
proof -
  let ?bs = "updateOrigins o' parent bs"
  obtain r bs1 where c: "nextSingularBatchCandidate cfg l2 prevBatch parent ?bs = Some (r, bs1)"
    using candidate_total [OF assms] by fastforce
  have "deriveNextEmptyBatch cfg True parent bs1 \<noteq> None" if "bs_l1Blocks ?bs = epoch # rest" for epoch rest
    by (rule deriveNextEmptyBatch_cases [of bs1 epoch rest cfg True parent]) (use candidate_fields [OF c] that in auto)
  then show ?thesis using c
    by (auto simp: BatchStage_NextBatch_def Let_def split: if_splits sum.splits list.splits option.splits prod.splits BatchValidity.splits)
qed

definition extends_parent :: "Config \<Rightarrow> L1BlockRef list \<Rightarrow> L2BlockRef \<Rightarrow> SingularBatch \<Rightarrow> bool" where
  "extends_parent cfg l1Blocks parent b \<longleftrightarrow>
     sb_ParentHash b = l2_Hash parent \<and> sb_Timestamp b = l2_Time parent + BlockTime cfg \<and>
     list_all (\<lambda>tx. tx \<noteq> [] \<and> hd tx \<noteq> DepositTxType) (sb_Transactions b) \<and>
     list_ex (\<lambda>orig. sb_EpochNum b = l1_Number orig \<and> sb_EpochHash b = l1_Hash orig \<and>
        (sb_Transactions b \<noteq> [] \<longrightarrow> l1_Time orig \<le> sb_Timestamp b \<and>
           sb_Timestamp b \<le> l1_Time orig + MaxSequencerDrift cfg (l1_Time orig))) (take 2 l1Blocks)"

lemma singular_ok_extends:
  assumes "singular_ok cfg l1Blocks parent b incl" "linked l1Blocks"
  shows "extends_parent cfg l1Blocks parent b"
proof -
  obtain orig where o: "batch_origin l1Blocks b orig" "sb_EpochHash b = l1_Hash orig" "l1_Time orig \<le> sb_Timestamp b"
    "drift_ok cfg l1Blocks b orig"
    using assms(1) unfolding singular_ok_def by blast
  have "sb_EpochNum b = l1_Number orig \<and> orig \<in> set (take 2 l1Blocks)"
    using o(1) assms(2) by (auto simp: batch_origin_def linked_def l1_child_def)
  moreover have "sb_Transactions b \<noteq> [] \<longrightarrow> sb_Timestamp b \<le> l1_Time orig + MaxSequencerDrift cfg (l1_Time orig)"
    using o(4) by (auto simp: drift_ok_def)
  ultimately show ?thesis using o(2,3) assms(1) unfolding extends_parent_def singular_ok_def list_all_iff list_ex_iff by blast
qed

lemma stage_extends:
  assumes "BatchStage_NextBatch cfg l2 o' prevBatch parent bs = Some (Inr (b, isLast), bs')" "linked (bs_l1Blocks bs')"
  shows "isLast \<and> extends_parent cfg (bs_l1Blocks bs') parent b"
  using assms(1)
proof (cases rule: stage_result_cases)
  case checked
  then show ?thesis using singular_ok_extends [OF _ assms(2)] by (simp add: checkSingularBatch_accept_iff)
next
  case forced
  then show ?thesis by (simp add: extends_parent_def empty_batch_def)
qed


section \<open>Forced batches\<close>

lemma expired_blocks:
  assumes "buffer_ok bs" "bs_l1Blocks bs = epoch # rest" "SeqWindowSize cfg \<noteq> 0"
    and "unat (l1_Number epoch) + unat (SeqWindowSize cfg) < unat (l1_Number (bs_origin bs))"
  obtains n m xs where "rest = n # m # xs" "l1_Number n = l1_Number epoch + 1" "unat (l1_Number n) = unat (l1_Number epoch) + 1"
proof -
  have w: "unat (SeqWindowSize cfg) \<noteq> 0" using assms(3) by (simp add: unat_eq_0)
  have last: "l1_Number (bs_origin bs) = l1_Number epoch + of_nat (length rest)"
    using linked_number [of "epoch # rest" "length rest"] last_conv_nth [of "epoch # rest"] assms(1,2)
    by (simp add: buffer_ok_def del: last.simps)
  have inc: "unat (l1_Number epoch + 1) = unat (l1_Number epoch) + 1"
    using assms(4) unsigned_less [of "l1_Number (bs_origin bs)", where 'a = nat] w by (simp add: unat_word_ariths(1))
  have "length rest \<noteq> 0" "length rest \<noteq> 1" using last inc assms(4) w by auto
  then obtain n m xs where r: "rest = n # m # xs" by (cases rest; cases "tl rest") auto
  then have "l1_Number n = l1_Number epoch + 1" using assms(1,2) by (simp add: buffer_ok_def linked_def l1_child_def)
  then show ?thesis using that r inc by simp
qed

lemma updateOrigins_same:
  assumes "bs_l1Blocks bs = epoch # rest" "id_Number (l2_L1Origin parent) \<le> l1_Number epoch"
  shows "updateOrigins (bs_origin bs) parent bs = bs"
  using assms by (simp add: updateOrigins_def advance_origin_def advance_epoch_def)

text \<open>A call on drained input, with the parent at the first buffered block or one before it, decides on an empty batch.\<close>

lemma drained_call:
  assumes "bs_l1Blocks bs = epoch # n # xs" "bs_nextSpan bs = []"
    and "l2_L1Origin parent = L1BlockRef_ID epoch \<or> id_Number (l2_L1Origin parent) = l1_Number epoch - 1"
    and "id_Number (l2_L1Origin parent) \<le> l1_Number epoch" "id_Number (l2_L1Origin parent) < l1_Number (bs_origin bs)"
  shows "BatchStage_NextBatch cfg l2 (bs_origin bs) (Inl StEOF) parent bs =
    (case deriveNextEmptyBatch cfg True parent (call_prev PrevNextBatch bs) of
       None \<Rightarrow> None | Some (Inl e, bs2) \<Rightarrow> Some (Inl e, bs2) | Some (Inr emptyBatch, bs2) \<Rightarrow> Some (Inr (emptyBatch, True), bs2))"
proof -
  have "\<not> originBehind (bs_origin bs) parent" using assms(5) by (simp add: originBehind_def)
  moreover have "nextSingularBatchCandidate cfg l2 (Inl StEOF) parent bs = Some (Inl StEOF, call_prev PrevNextBatch bs)"
    using assms(2) by (simp add: nextSingularBatchCandidate_def nextFromSpanBatch_def)
  ultimately show ?thesis
    using assms(1,3,5) updateOrigins_same [OF assms(1) assms(4)] unfolding BatchStage_NextBatch_def Let_def by auto
qed

lemma forced_call:
  assumes "bs_l1Blocks bs = epoch # n # xs" "l1_Number epoch + SeqWindowSize cfg \<le> l1_Number (bs_origin bs)"
  shows "deriveNextEmptyBatch cfg True parent bs =
    (if l2_Time parent + BlockTime cfg < l1_Time n \<or> l1_Number epoch = id_Number (l2_L1Origin parent) + 1
     then Some (Inr (empty_batch cfg parent epoch), bs) else Some (Inl StEOF, bs\<lparr>bs_l1Blocks := n # xs\<rparr>))"
proof -
  have "l1_Number epoch + SeqWindowSize cfg = l1_Number (bs_origin bs) \<and> True \<or> l1_Number epoch + SeqWindowSize cfg < l1_Number (bs_origin bs)"
    using assms(2) by auto
  then show ?thesis
    by (simp only: deriveNextEmptyBatch_def assms(1) Let_def list.case empty_batch_def if_True simp_thms if_False)
qed


section \<open>Properties\<close>

text \<open>C20. A singular batch is accepted exactly when it has the time and the parent of the next block, was included within
  the sequencing window, names the first or the second buffered L1 block by number and hash as its origin, is not
  older than that origin, stays within the sequencer drift or is empty where the origin could not advance,
  and has no empty and no deposit transaction.\<close>

theorem singular_batch_accepted_iff:
  "checkSingularBatch cfg l1Blocks parent b incl = BatchAccept \<longleftrightarrow> singular_ok cfg l1Blocks parent b incl"
  by (rule checkSingularBatch_accept_iff)

text \<open>C19. In every run of the multiplexer, over resets, flushes, the switch at Holocene and calls whose L1 origin stays or
  moves to a child, the buffered L1 blocks of the active stage are a chain of consecutive blocks that ends in the current origin.\<close>

theorem buffered_blocks_are_l1_chain:
  assumes "(mux_step keccak cfg l2)\<^sup>*\<^sup>* MuxNone b"
  shows "linked (mux_buffer b) \<and> (mux_buffer b = [] \<or> last (mux_buffer b) = mux_origin b)"
  using mux_ok_reachable [OF assms] by (auto simp: mux_ok_def)

text \<open>C17. In a reachable state the batch stage never panics, and every batch it returns extends the parent: it carries the parent
  hash and the next timestamp, its epoch is the first or second buffered L1 block by number and hash, it
  has no deposits, and with transactions it lies between the origin time and the drift bound. The hypotheses are that span batches
  of the previous stage are not empty and that the next timestamp does not wrap around.\<close>

theorem batch_stage_extends_parent:
  assumes "(mux_step keccak cfg l2)\<^sup>*\<^sup>* MuxNone (MuxStage bs)" "origin_follows (bs_origin bs) prevOrigin"
    and "\<And>s. prevBatch = Inr (Span s) \<Longrightarrow> sp_Batches s \<noteq> []"
    and "BlockTime cfg \<noteq> 0" "l2_Time parent < l2_Time parent + BlockTime cfg"
  shows "\<exists>r bs'. BatchStage_NextBatch cfg l2 prevOrigin prevBatch parent bs = Some (r, bs') \<and>
    (\<forall>b isLast. r = Inr (b, isLast) \<longrightarrow> isLast \<and> extends_parent cfg (bs_l1Blocks bs') parent b)"
proof -
  obtain r bs' where s: "BatchStage_NextBatch cfg l2 prevOrigin prevBatch parent bs = Some (r, bs')"
    using stage_total [OF assms(3-5)] by fastforce
  have "buffer_ok bs'" using stage_buffer_ok [OF s _ assms(2)] mux_ok_reachable [OF assms(1)] by simp
  then show ?thesis using s stage_extends [of cfg l2 prevOrigin prevBatch parent bs _ _ bs'] by (auto simp: buffer_ok_def)
qed

text \<open>C18. When the sequencing window of the parent's L1 origin has expired and no data is left, the batch stage makes an empty
  batch: for the same origin while the next L1 block is ahead in time, and otherwise for the next origin, on the second call.\<close>

theorem expired_window_forces_batch:
  assumes "(mux_step keccak cfg l2)\<^sup>*\<^sup>* MuxNone (MuxStage bs)" "bs_nextSpan bs = []"
    and "bs_l1Blocks bs = epoch # rest" "l2_L1Origin parent = L1BlockRef_ID epoch" "SeqWindowSize cfg \<noteq> 0"
    and "unat (l1_Number epoch) + unat (SeqWindowSize cfg) < unat (l1_Number (bs_origin bs))"
  shows "if l2_Time parent + BlockTime cfg < l1_Time (hd rest)
    then \<exists>bs1. BatchStage_NextBatch cfg l2 (bs_origin bs) (Inl StEOF) parent bs = Some (Inr (empty_batch cfg parent epoch, True), bs1)
    else \<exists>bs1 bs2. BatchStage_NextBatch cfg l2 (bs_origin bs) (Inl StEOF) parent bs = Some (Inl StEOF, bs1) \<and>
      BatchStage_NextBatch cfg l2 (bs_origin bs) (Inl StEOF) parent bs1 = Some (Inr (empty_batch cfg parent (hd rest), True), bs2)"
proof -
  have ok: "buffer_ok bs" using mux_ok_reachable [OF assms(1)] by simp
  obtain n m xs where r: "rest = n # m # xs" and n: "l1_Number n = l1_Number epoch + 1" "unat (l1_Number n) = unat (l1_Number epoch) + 1"
    by (rule expired_blocks [OF ok assms(3,5,6)])
  have id: "id_Number (l2_L1Origin parent) = l1_Number epoch" using assms(4) by (simp add: L1BlockRef_ID_def)
  have lt: "l1_Number epoch < l1_Number (bs_origin bs)" using assms(6) by (simp add: word_less_nat_alt)
  have window: "l1_Number epoch + SeqWindowSize cfg \<le> l1_Number (bs_origin bs)" "l1_Number n + SeqWindowSize cfg \<le> l1_Number (bs_origin bs)"
    using assms(6) n(2) unsigned_less [of "l1_Number (bs_origin bs)", where 'a = nat] by (simp_all add: word_le_nat_alt unat_word_ariths(1))
  have no: "l1_Number epoch \<noteq> id_Number (l2_L1Origin parent) + 1" by (simp add: id)
  let ?c = "\<lambda>bs. call_prev PrevNextBatch bs"
  have first: "BatchStage_NextBatch cfg l2 (bs_origin bs) (Inl StEOF) parent bs =
      (if l2_Time parent + BlockTime cfg < l1_Time n then Some (Inr (empty_batch cfg parent epoch, True), ?c bs)
       else Some (Inl StEOF, (?c bs)\<lparr>bs_l1Blocks := n # m # xs\<rparr>))"
    using drained_call [of bs epoch n "m # xs" parent cfg l2] forced_call [of "?c bs" epoch n "m # xs" cfg parent]
      assms(2,3,4) r id lt window(1) no by simp
  let ?bs1 = "(?c bs)\<lparr>bs_l1Blocks := n # m # xs\<rparr>"
  have "BatchStage_NextBatch cfg l2 (bs_origin bs) (Inl StEOF) parent ?bs1 = Some (Inr (empty_batch cfg parent n, True), ?c ?bs1)"
    using drained_call [of ?bs1 n m xs parent cfg l2] forced_call [of "?c ?bs1" n m xs cfg parent]
      assms(2) id lt n window(2) by (simp add: word_le_nat_alt)
  then show ?thesis using first r by auto
qed


section \<open>Examples\<close>

definition ex_l1_block :: "nat \<Rightarrow> L1BlockRef" where
  "ex_l1_block i = \<lparr>l1_Hash = [of_nat i], l1_Number = of_nat i, l1_ParentHash = [of_nat (i - 1)], l1_Time = 1650 + 12 * of_nat i\<rparr>"

definition ex_parent :: L2BlockRef where
  "ex_parent = \<lparr>l2_Hash = [8], l2_Number = 400, l2_ParentHash = [7], l2_Time = 1800,
     l2_L1Origin = L1BlockRef_ID (ex_l1_block 1), l2_SequenceNumber = 2\<rparr>"

definition ex_window :: Config where
  "ex_window = ex_cfg\<lparr>SeqWindowSize := 1\<rparr>"

definition ex_fetcher :: SafeBlockFetcher where
  "ex_fetcher = \<lparr>L2BlockRefByNumber = (\<lambda>_. None), PayloadByNumber = (\<lambda>_. None)\<rparr>"

definition ex_stage :: "nat \<Rightarrow> BatchStage" where
  "ex_stage k = \<lparr>bs_origin = ex_l1_block k, bs_l1Blocks = map ex_l1_block (take k [1, 2, 3]), bs_nextSpan = [],
     bs_calls = take (k - 1) [PrevNextBatch, PrevNextBatch]\<rparr>"

lemmas ex_batch_defs = ex_l1_block_def ex_parent_def ex_window_def ex_cfg_def ex_stage_def L1BlockRef_ID_def

lemma ex_stage_next:
  assumes "k = 1 \<or> k = 2"
  shows "BatchStage_NextBatch ex_window ex_fetcher (ex_l1_block (k + 1)) (Inl StNotEnoughData) ex_parent (ex_stage k) =
    Some (Inl StNotEnoughData, ex_stage (k + 1))"
  using assms
  by (elim disjE) (simp_all add: BatchStage_NextBatch_def updateOrigins_def advance_origin_def advance_epoch_def originBehind_def
      nextSingularBatchCandidate_def nextFromSpanBatch_def call_prev_def ex_batch_defs Let_def)

lemma ex_stage_reachable: "(mux_step keccak ex_window ex_fetcher)\<^sup>*\<^sup>* MuxNone (MuxStage (ex_stage 3))"
proof -
  let ?R = "mux_step keccak ex_window ex_fetcher"
  have "snd (BatchMux_Reset ex_window (ex_l1_block 1) MuxNone) = MuxStage (ex_stage 1)"
    by (simp add: BatchMux_Reset_def BatchStage_Reset_def base_reset_def NewBatchStage_def IsHolocene_def active_at_def ex_batch_defs)
  then have s0: "?R MuxNone (MuxStage (ex_stage 1))" using mux_reset [of keccak ex_window ex_fetcher MuxNone "ex_l1_block 1"] by simp
  have step: "?R (MuxStage (ex_stage k)) (MuxStage (ex_stage (k + 1)))" if "k = 1 \<or> k = 2" for k
  proof (rule mux_next)
    show "BatchMux_NextBatch keccak ex_window ex_fetcher (ex_l1_block (k + 1)) (Inl StNotEnoughData) ex_parent (MuxStage (ex_stage k)) =
        Some (Inl StNotEnoughData, MuxStage (ex_stage (k + 1)))"
      using ex_stage_next [OF that] by (simp add: BatchMux_NextBatch_def)
    show "origin_follows (mux_origin (MuxStage (ex_stage k))) (ex_l1_block (k + 1))"
      by (simp add: origin_follows_def l1_child_def ex_stage_def ex_l1_block_def)
  qed
  have "(2 :: nat) = 1 + 1" "(3 :: nat) = 2 + 1" by simp_all
  then have "?R (MuxStage (ex_stage 1)) (MuxStage (ex_stage 2))" "?R (MuxStage (ex_stage 2)) (MuxStage (ex_stage 3))"
    using step [of 1] step [of 2] by metis+
  then show ?thesis using s0 by (meson r_into_rtranclp rtranclp.rtrancl_into_rtrancl)
qed

theorem buffered_blocks_are_l1_chain_witness:
  "linked (mux_buffer (MuxStage (ex_stage 3))) \<and> mux_buffer (MuxStage (ex_stage 3)) = [ex_l1_block 1, ex_l1_block 2, ex_l1_block 3]"
  using buffered_blocks_are_l1_chain [OF ex_stage_reachable [of "\<lambda>b. b"]] by (simp add: ex_stage_def)

definition ex_batch :: SingularBatch where
  "ex_batch = \<lparr>sb_ParentHash = [8], sb_EpochNum = 2, sb_EpochHash = [2], sb_Timestamp = 1802, sb_Transactions = [[2, 3]]\<rparr>"

theorem batch_stage_extends_parent_witness:
  "\<exists>bs'. BatchStage_NextBatch ex_window ex_fetcher (ex_l1_block 3) (Inr (Singular ex_batch)) ex_parent (ex_stage 3) = Some (Inr (ex_batch, True), bs') \<and>
     extends_parent ex_window (bs_l1Blocks bs') ex_parent ex_batch"
proof -
  have "origin_follows (bs_origin (ex_stage 3)) (ex_l1_block 3)" by (simp add: origin_follows_def ex_stage_def)
  moreover have "BlockTime ex_window \<noteq> 0" "l2_Time ex_parent < l2_Time ex_parent + BlockTime ex_window" by (simp_all add: ex_batch_defs)
  ultimately obtain r bs' where s: "BatchStage_NextBatch ex_window ex_fetcher (ex_l1_block 3) (Inr (Singular ex_batch)) ex_parent (ex_stage 3) = Some (r, bs')"
    and e: "\<forall>b isLast. r = Inr (b, isLast) \<longrightarrow> isLast \<and> extends_parent ex_window (bs_l1Blocks bs') ex_parent b"
    using batch_stage_extends_parent [OF ex_stage_reachable [of "\<lambda>b. b"], of "ex_l1_block 3" "Inr (Singular ex_batch)" ex_parent] by auto
  have "r = Inr (ex_batch, True)" using s
    by (simp add: BatchStage_NextBatch_def updateOrigins_def advance_origin_def advance_epoch_def originBehind_def
      nextSingularBatchCandidate_def nextFromSpanBatch_def call_prev_def checkSingularBatch_def MaxSequencerDrift_def
      IsFeatMaxSequencerDriftConstant_def maxSequencerDriftFjord_def IsFjord_def active_at_def DepositTxType_def ex_batch_def
      ex_batch_defs Let_def)
  then show ?thesis using s e by auto
qed

theorem expired_window_forces_batch_witness:
  "\<exists>bs1 bs2. BatchStage_NextBatch ex_window ex_fetcher (ex_l1_block 3) (Inl StEOF) ex_parent (ex_stage 3) = Some (Inl StEOF, bs1) \<and>
     BatchStage_NextBatch ex_window ex_fetcher (ex_l1_block 3) (Inl StEOF) ex_parent bs1 = Some (Inr (empty_batch ex_window ex_parent (ex_l1_block 2), True), bs2)"
  using expired_window_forces_batch [OF ex_stage_reachable [of "\<lambda>b. b"], of "ex_l1_block 1" "[ex_l1_block 2, ex_l1_block 3]" ex_parent]
  by (simp add: ex_batch_defs)

end
