(* ===== verification/Spec2Isabelle.thy ===== *)
theory Spec2Isabelle
  imports Pipeline Rollup_Props Derive_Frames_Props Derive_Channels_Props Gossip_Props Rlp_Props L1_Info_Props
    Deposits_Props Batch_Props
begin

text \<open>
  \<^bold>\<open>The program.\<close> The repository is a based OP-stack rollup with preconfirmations. A gateway streams each
  L2 block as an env, a sequence of frags and a seal. The consensus node (\<^verbatim>\<open>optimism/op-node\<close>) receives
  these messages by RPC and by gossip, checks them against the gateway registry, puts them in order and
  hands them to the execution engine (\<^verbatim>\<open>op-geth\<close>), which executes the frags into an unsealed block, serves
  reads from it, and turns it into a block when the seal agrees with it. Independently the consensus node
  derives the safe chain from L1 data: batcher transactions carry frames, frames make up channels,
  channels carry batches. Payloads travel between nodes in SSZ.

  \<^bold>\<open>The theories\<close>, in the order of their dependencies.

  \<^item> \<^verbatim>\<open>Based_Prelude\<close>: machine words, Go maps as association lists, byte order, checked slices, and the
    interfaces the components share: \<open>kv_store\<close> (what a map promises), \<open>invariant_machine\<close> (an invariant kept
    by every step holds after every run), \<open>guarded_machine\<close> (the same for the inputs that satisfy a condition) and \<open>stream_codec\<close> (a self-delimiting encoding).
  \<^item> \<^verbatim>\<open>Eth_Types\<close>: block references and preconfirmation messages, \<^verbatim>\<open>op-service/eth/id.go\<close>, \<^verbatim>\<open>types.go\<close>.
  \<^item> \<^verbatim>\<open>Preconf\<close>: \<^verbatim>\<open>PreconfState\<close> of \<^verbatim>\<open>op-node/rollup/engine/preconf.go\<close> with \<^verbatim>\<open>putEnv\<close>, \<^verbatim>\<open>putFrag\<close>, \<^verbatim>\<open>putSeal\<close>,
    \<^verbatim>\<open>putL2Block\<close>, \<^verbatim>\<open>prune\<close>, and \<^verbatim>\<open>preconfHandler\<close> as the fold over any interleaving of its four channels. Engine
    calls are recorded in the state in the order they are made. \<^verbatim>\<open>Preconf_Proofs\<close>: messages of a canonical run
    reach the engine once each and in order whatever order they arrive in; every call is in order for every
    input; nothing is invented; the held messages lie inside the window; one input does bounded work.
  \<^item> \<^verbatim>\<open>Unsealed\<close>: the unsealed block of op-geth: \<^verbatim>\<open>core/types/unsealed_block.go\<close>, \<^verbatim>\<open>InsertNewFrag\<close>,
    \<^verbatim>\<open>ProcessWithCumulativeGas\<close>, \<^verbatim>\<open>SealBlock\<close>, the handlers of \<^verbatim>\<open>eth/catalyst/api.go\<close> and the reads of
    \<^verbatim>\<open>eth/api_backend.go\<close> and \<^verbatim>\<open>internal/ethapi\<close>. Transaction execution, tries and hashing are fields of the
    record \<open>Ops\<close>. \<^verbatim>\<open>Unsealed_Proofs\<close>, \<^verbatim>\<open>Unsealed_Stream\<close>, \<^verbatim>\<open>Unsealed_Props\<close>: streaming a block frag by frag gives the
    block that executing it at once gives, where the block is valid on the database the node has; the unsealed block
    stays well formed over every call sequence; which seals and which environments are accepted; a failed call drops
    the unsealed block; which reads of it are safe although they take no lock.
  \<^item> \<^verbatim>\<open>Pipeline\<close>: both ends together, from messages in any order to the head of the engine.
  \<^item> \<^verbatim>\<open>Rollup_Config\<close>, \<^verbatim>\<open>Rollup_Props\<close>: \<^verbatim>\<open>op-node/rollup/types.go\<close> and \<^verbatim>\<open>chain_spec.go\<close>: forks, the relation of
    block numbers and times, the check of a configuration, the fork tracker.
  \<^item> \<^verbatim>\<open>Derive_Frames\<close>, \<^verbatim>\<open>Derive_Frames_Props\<close>: \<^verbatim>\<open>derive/frame.go\<close> and \<^verbatim>\<open>frame_queue.go\<close>: exactly which batcher
    transactions parse, and the pruning of Holocene.
  \<^item> \<^verbatim>\<open>Derive_Channels\<close>, \<^verbatim>\<open>Derive_Channels_Props\<close>: \<^verbatim>\<open>channel.go\<close>, \<^verbatim>\<open>channel_bank.go\<close>, \<^verbatim>\<open>channel_assembler.go\<close>: channels
    do not depend on the order of their frames, the assembler never panics and the bank only when it is flushed, and
    the assembler yields complete channels of the frames it took since its last reset or flush.
  \<^item> \<^verbatim>\<open>Ssz\<close>, \<^verbatim>\<open>Ssz_Proofs\<close>, \<^verbatim>\<open>Ssz_Props\<close>: \<^verbatim>\<open>op-service/eth/ssz.go\<close>: the buffer algorithms for payloads against a
    reference encoding, and the layouts of the preconfirmation messages.
  \<^item> \<^verbatim>\<open>Registry\<close>, \<^verbatim>\<open>Registry_Props\<close>: \<^verbatim>\<open>op-service/sources/registry_client.go\<close>: the gateway cache and its fetch loop,
    with the panics of the slice the answers are collected in.
  \<^item> \<^verbatim>\<open>Gossip\<close>, \<^verbatim>\<open>Gossip_Props\<close>: \<^verbatim>\<open>op-node/p2p/gossip.go\<close>, \<^verbatim>\<open>signer.go\<close>, \<^verbatim>\<open>node/runtime_config.go\<close>, the \<^verbatim>\<open>based\<close> RPC of
    \<^verbatim>\<open>node/api.go\<close> and the handlers of \<^verbatim>\<open>node/node.go\<close>: only messages of the registered gateway reach the engine,
    only recent blocks of the sequencer are accepted, and those it publishes are.
  \<^item> \<^verbatim>\<open>Rlp\<close>: \<^verbatim>\<open>op-geth/rlp\<close>: the encoder buffer with its postponed list headers, the stream decoder with its stack of
    list limits, the typed writers and decoders, and the slice functions of \<^verbatim>\<open>raw.go\<close>. \<^verbatim>\<open>Rlp_Encode\<close> holds the reference
    encoding and shows that the encoder writes it; \<^verbatim>\<open>Rlp_Stream\<close> and \<^verbatim>\<open>Rlp_Decode\<close> show that the decoder reads exactly
    the reference encodings; \<^verbatim>\<open>Rlp_Props\<close> draws the round trips and the agreement of the slice functions from both.
  \<^item> \<^verbatim>\<open>Base_Fee\<close>: \<^verbatim>\<open>op-geth/consensus/misc/eip1559\<close> and \<^verbatim>\<open>gaslimit.go\<close>: the base fee as a function of the parent, with
    the parameters that Holocene keeps in the extra data, and the check of a header against it.
  \<^item> \<^verbatim>\<open>L1_Info\<close>, \<^verbatim>\<open>L1_Info_Props\<close>: \<^verbatim>\<open>derive/l1_block_info.go\<close>, \<^verbatim>\<open>deposit_source.go\<close>, \<^verbatim>\<open>payload_util.go\<close> and the deposit
    transaction of op-geth: the reader of the L1 info call accepts exactly what the writers write, and a block is
    read back with the origin, sequence number and system configuration it was built with.
  \<^item> \<^verbatim>\<open>Deposits\<close>: \<^verbatim>\<open>deposit_log.go\<close>, \<^verbatim>\<open>deposits.go\<close>, \<^verbatim>\<open>system_config.go\<close>: the deposits and the updates of the system
    configuration that the receipts of an L1 block carry. \<^verbatim>\<open>Deposits_Props\<close>: deposit events are read back as written, a block
    yields one decodable deposit per well formed event in order, and the configuration changes exactly on encoded
    updates and stays well formed.
  \<^item> \<^verbatim>\<open>Derive_Batches\<close>, \<^verbatim>\<open>Batch_Queue\<close>: \<^verbatim>\<open>batches.go\<close>, \<^verbatim>\<open>batch_queue.go\<close>, \<^verbatim>\<open>batch_stage.go\<close>, \<^verbatim>\<open>batch_mux.go\<close>: the validity
    rules of singular and span batches and the two stages that turn batches into the next block, with the buffered
    L1 origins and the forced empty batches. \<^verbatim>\<open>Batch_Props\<close>: exactly which singular batches are accepted; in every run the
    buffered origins are consecutive L1 blocks; the stage of Holocene never panics and its batches extend the
    parent; an expired sequencing window forces an empty batch within two calls.

  \<^bold>\<open>Conventions.\<close> Structs are records, 64-, 32- and 16-bit integers are words with their wrap-around, Go maps
  are association lists without duplicate keys, Go errors are values of a datatype per component, a panic
  is \<open>None\<close>. A method becomes a function that returns the new state. Logging and metrics are left
  out. An operation that runs under a lock is one step: the engine calls under the lock of the unsealed block, the
  preconfirmation state in its one goroutine, the runtime configuration under its mutex; gateways are fetched by one
  goroutine, and every access to the cache holds the mutex of the registry client.
  The RPC reads of the unsealed block take no lock, so their two loads are of two states of the chain, with any engine
  calls in between. Code outside the repository (signatures, hashing,
  snappy, the generic SSZ library, LRU caches, RPC servers) is an argument of the definitions that call
  it, and what the properties need of it is a hypothesis with a witness.

  \<^bold>\<open>Termination and bounds.\<close> Loops are structural recursions, except the RLP decoder, which has
  fuel for two calls per input byte (\<open>decode_total\<close> shows that it never runs out), the
  mutual recursion of the preconfirmation state (the number of held messages falls), the pruning of the
  frame queue (the unread frames) and the fetch of gateways (the attempts left); each has its
  termination proof. Sizes are bounded where the code computes in 32 bits: a payload shorter than 4 GiB.

  \<^bold>\<open>Not modelled\<close>, and why. The Rust gateway, portal and registry under \<^verbatim>\<open>based\<close>, the reth fork and the
  wallet under \<^verbatim>\<open>rabby\<close> are separate programs in other languages. The EVM, state tries, databases,
  transaction pools and the peer-to-peer stack of op-geth are what the frag execution is parametrised
  over. In op-node: decompression, the raw span batch codec, payload attributes, the sequencer, finality and the L1
  clients; in the rest of the monorepo: batcher, proposer, challenger, cannon, supervisor, conductor,
  deployment tools and test harnesses. JSON codecs of the message types, flags and command lines are
  plain input and output.
\<close>

end
